(* ===== verification/Prelude.thy ===== *)
theory Prelude
  imports Main "HOL-Library.Word" "HOL-Library.Char_ord" "HOL-Library.List_Lexorder"
    "HOL-Library.Product_Lexorder" "HOL-Library.Multiset" "HOL-Library.AList"
begin

text \<open>
  Shared vocabulary of the development.

  A Go string or byte slice is a \<^typ>\<open>string\<close>, one \<^typ>\<open>char\<close> per byte.  The functions of the
  standard packages \<^verbatim>\<open>strings\<close>, \<^verbatim>\<open>bytes\<close> and \<^verbatim>\<open>strconv\<close> that the sources call are defined here
  once (an index of -1 is \<^const>\<open>None\<close>), together with finite Go maps as association lists with
  distinct keys (\<open>mget\<close>, \<open>mput\<close>, \<open>mdel\<close>) and the generic lemmas on lists, options and words that
  the component theories use.  A fallible call returns a sum: \<open>Err\<close> (left) or \<open>Ok\<close> (right).
\<close>

named_theorems go_defs \<open>definitions of the modelled standard library\<close>
named_theorems map_laws \<open>laws of finite maps\<close>

type_synonym bytes = string

abbreviation Err :: "'e \<Rightarrow> 'e + 'a" where "Err \<equiv> Inl"
abbreviation Ok :: "'a \<Rightarrow> 'e + 'a" where "Ok \<equiv> Inr"

fun isOk :: "'e + 'a \<Rightarrow> bool" where
  "isOk (Inl _) = False"
| "isOk (Inr _) = True"

section \<open>Characters\<close>

definition code :: "char \<Rightarrow> int" where
  "code c = of_char c"

definition NUL :: char where "NUL = CHR 0x00"
definition TAB :: char where "TAB = CHR 0x09"
definition LF :: char where "LF = CHR 0x0A"
definition CR :: char where "CR = CHR 0x0D"
definition ESC :: char where "ESC = CHR 0x1B"
definition SQUOTE :: char where "SQUOTE = CHR 0x27"
definition DQUOTE :: char where "DQUOTE = CHR 0x22"
definition BACKSLASH :: char where "BACKSLASH = CHR 0x5C"
definition BACKTICK :: char where "BACKTICK = CHR 0x60"

lemmas char_consts = NUL_def TAB_def LF_def CR_def ESC_def SQUOTE_def DQUOTE_def
  BACKSLASH_def BACKTICK_def

definition isDigit :: "char \<Rightarrow> bool" where
  "isDigit c = (48 \<le> code c \<and> code c \<le> 57)"

definition isLower :: "char \<Rightarrow> bool" where
  "isLower c = (97 \<le> code c \<and> code c \<le> 122)"

definition isUpper :: "char \<Rightarrow> bool" where
  "isUpper c = (65 \<le> code c \<and> code c \<le> 90)"

definition isAlpha :: "char \<Rightarrow> bool" where
  "isAlpha c = (isLower c \<or> isUpper c)"

definition toLowerChar :: "char \<Rightarrow> char" where
  "toLowerChar c = (if isUpper c then char_of (code c + 32) else c)"

definition toUpperChar :: "char \<Rightarrow> char" where
  "toUpperChar c = (if isLower c then char_of (code c - 32) else c)"

text \<open>\<^verbatim>\<open>strings.ToLower\<close> and \<^verbatim>\<open>strings.ToUpper\<close> on ASCII letters; other bytes are kept.\<close>

definition ToLower :: "string \<Rightarrow> string" where
  "ToLower s = map toLowerChar s"

definition ToUpper :: "string \<Rightarrow> string" where
  "ToUpper s = map toUpperChar s"

lemma code_range [simp]: "0 \<le> code c" "code c < 256"
  by (cases c; simp add: code_def of_char_def horner_sum_foldr)+

lemma code_char_of [simp]: "0 \<le> n \<Longrightarrow> n < 256 \<Longrightarrow> code (char_of n) = n"
  by (simp add: code_def)

lemma char_of_code [simp]: "char_of (code c) = c"
  by (simp add: code_def)

lemma code_inject [simp]: "code c = code d \<longleftrightarrow> c = d"
  by (simp add: code_def)

lemma isUpper_toLowerChar: "\<not> isUpper (toLowerChar c)"
  by (auto simp: toLowerChar_def isUpper_def)

lemma ToLower_idem [simp]: "ToLower (ToLower s) = ToLower s"
  by (simp add: ToLower_def toLowerChar_def isUpper_toLowerChar [unfolded toLowerChar_def])

lemma length_ToLower [simp]: "length (ToLower s) = length s"
  by (simp add: ToLower_def)

section \<open>Prefixes, suffixes and search\<close>

fun HasPrefix :: "string \<Rightarrow> string \<Rightarrow> bool" where
  "HasPrefix s [] = True"
| "HasPrefix [] (p # ps) = False"
| "HasPrefix (c # s) (p # ps) = (c = p \<and> HasPrefix s ps)"

definition HasSuffix :: "string \<Rightarrow> string \<Rightarrow> bool" where
  "HasSuffix s p = HasPrefix (rev s) (rev p)"

fun Index :: "string \<Rightarrow> string \<Rightarrow> nat option" where
  "Index [] sub = (if sub = [] then Some 0 else None)"
| "Index (c # s) sub =
     (if HasPrefix (c # s) sub then Some 0 else map_option Suc (Index s sub))"

definition Contains :: "string \<Rightarrow> string \<Rightarrow> bool" where
  "Contains s sub = (Index s sub \<noteq> None)"

fun IndexFunc :: "(char \<Rightarrow> bool) \<Rightarrow> string \<Rightarrow> nat option" where
  "IndexFunc p [] = None"
| "IndexFunc p (c # s) = (if p c then Some 0 else map_option Suc (IndexFunc p s))"

definition IndexByte :: "string \<Rightarrow> char \<Rightarrow> nat option" where
  "IndexByte s c = IndexFunc (\<lambda>x. x = c) s"

definition IndexAny :: "string \<Rightarrow> string \<Rightarrow> nat option" where
  "IndexAny s cs = IndexFunc (\<lambda>x. x \<in> set cs) s"

definition LastIndexByte :: "string \<Rightarrow> char \<Rightarrow> nat option" where
  "LastIndexByte s c = map_option (\<lambda>i. length s - 1 - i) (IndexByte (rev s) c)"

definition TrimPrefix :: "string \<Rightarrow> string \<Rightarrow> string" where
  "TrimPrefix s p = (if HasPrefix s p then drop (length p) s else s)"

definition TrimSuffix :: "string \<Rightarrow> string \<Rightarrow> string" where
  "TrimSuffix s p = (if HasSuffix s p then take (length s - length p) s else s)"

definition TrimLeftFunc :: "(char \<Rightarrow> bool) \<Rightarrow> string \<Rightarrow> string" where
  "TrimLeftFunc p s = dropWhile p s"

definition TrimRightFunc :: "(char \<Rightarrow> bool) \<Rightarrow> string \<Rightarrow> string" where
  "TrimRightFunc p s = rev (dropWhile p (rev s))"

definition TrimLeft :: "string \<Rightarrow> string \<Rightarrow> string" where
  "TrimLeft s cs = TrimLeftFunc (\<lambda>c. c \<in> set cs) s"

definition TrimRight :: "string \<Rightarrow> string \<Rightarrow> string" where
  "TrimRight s cs = TrimRightFunc (\<lambda>c. c \<in> set cs) s"

definition Trim :: "string \<Rightarrow> string \<Rightarrow> string" where
  "Trim s cs = TrimRight (TrimLeft s cs) cs"

lemma HasPrefix_iff: "HasPrefix s p \<longleftrightarrow> (\<exists>r. s = p @ r)"
  by (induction s p rule: HasPrefix.induct) auto

lemma HasPrefix_append [simp]: "HasPrefix (p @ r) p"
  by (auto simp: HasPrefix_iff)

lemma HasPrefix_take: "HasPrefix s p \<Longrightarrow> take (length p) s = p"
  by (auto simp: HasPrefix_iff)

lemma HasPrefix_length: "HasPrefix s p \<Longrightarrow> length p \<le> length s"
  by (auto simp: HasPrefix_iff)

lemma HasSuffix_iff: "HasSuffix s p \<longleftrightarrow> (\<exists>r. s = r @ p)"
proof
  assume "HasSuffix s p"
  then obtain r where "rev s = rev p @ r"
    by (auto simp: HasSuffix_def HasPrefix_iff)
  then have "s = rev r @ p"
    by (metis rev_append rev_rev_ident)
  then show "\<exists>r. s = r @ p" ..
next
  assume "\<exists>r. s = r @ p"
  then show "HasSuffix s p"
    by (auto simp: HasSuffix_def)
qed

lemma Index_Some: "Index s sub = Some i \<Longrightarrow> i \<le> length s \<and> HasPrefix (drop i s) sub"
  by (induction s sub arbitrary: i rule: Index.induct) (auto split: if_splits)

lemma Index_append: "\<exists>i. Index (pre @ sub @ post) sub = Some i \<and> i \<le> length pre"
proof (induction pre)
  case Nil
  then show ?case
  proof (cases "sub @ post")
    case Nil
    then show ?thesis by simp
  next
    case (Cons c s)
    then have "HasPrefix (c # s) sub" by (metis HasPrefix_append)
    with Cons show ?thesis by simp
  qed
qed auto

lemma Contains_iff: "Contains s sub \<longleftrightarrow> (\<exists>pre post. s = pre @ sub @ post)"
proof
  assume "Contains s sub"
  then obtain i where "Index s sub = Some i" by (auto simp: Contains_def)
  then have "HasPrefix (drop i s) sub" by (auto dest: Index_Some)
  then obtain r where "drop i s = sub @ r" by (auto simp: HasPrefix_iff)
  then have "s = take i s @ sub @ r" by (metis append_take_drop_id)
  then show "\<exists>pre post. s = pre @ sub @ post" by blast
next
  assume "\<exists>pre post. s = pre @ sub @ post"
  then show "Contains s sub" using Index_append by (fastforce simp: Contains_def)
qed

lemma IndexFunc_None: "IndexFunc p s = None \<longleftrightarrow> (\<forall>c\<in>set s. \<not> p c)"
  by (induction s) auto

lemma IndexFunc_Some:
  "IndexFunc p s = Some i \<Longrightarrow> i < length s \<and> p (s ! i) \<and> (\<forall>j<i. \<not> p (s ! j))"
proof (induction s arbitrary: i)
  case (Cons c s)
  then show ?case
    by (cases i) (auto split: if_splits simp: nth_Cons split: nat.splits)
qed simp

lemma IndexFunc_append:
  "\<forall>c\<in>set xs. \<not> p c \<Longrightarrow> p c \<Longrightarrow> IndexFunc p (xs @ c # ys) = Some (length xs)"
  by (induction xs) auto

section \<open>Splitting and joining\<close>

fun splitByte :: "char \<Rightarrow> string \<Rightarrow> string list" where
  "splitByte sep [] = [[]]"
| "splitByte sep (c # s) =
     (if c = sep then [] # splitByte sep s
      else (case splitByte sep s of [] \<Rightarrow> [[c]] | w # ws \<Rightarrow> (c # w) # ws))"

fun joinByte :: "char \<Rightarrow> string list \<Rightarrow> string" where
  "joinByte sep [] = []"
| "joinByte sep [w] = w"
| "joinByte sep (w # v # ws) = w @ sep # joinByte sep (v # ws)"

fun Join_sep :: "string list \<Rightarrow> string \<Rightarrow> string" where
  "Join_sep [] sep = []"
| "Join_sep [w] sep = w"
| "Join_sep (w # v # ws) sep = w @ sep @ Join_sep (v # ws) sep"

text \<open>\<^verbatim>\<open>strings.Cut\<close>: the text before and after the first separator.\<close>

definition Cut :: "string \<Rightarrow> string \<Rightarrow> string \<times> string \<times> bool" where
  "Cut s sep = (case Index s sep of
     Some i \<Rightarrow> (take i s, drop (i + length sep) s, True)
   | None \<Rightarrow> (s, [], False))"

lemma splitByte_not_Nil [simp]: "splitByte sep s \<noteq> []"
  by (induction s) (auto split: list.splits)

lemma joinByte_Cons:
  "joinByte sep (w # ws) = (if ws = [] then w else w @ sep # joinByte sep ws)"
  by (cases ws) auto

lemma join_splitByte [simp]: "joinByte sep (splitByte sep s) = s"
  by (induction s) (auto split: list.splits simp: joinByte_Cons)

lemma splitByte_no_sep: "sep \<notin> set w \<Longrightarrow> splitByte sep w = [w]"
  by (induction w) auto

lemma splitByte_append:
  "sep \<notin> set w \<Longrightarrow> splitByte sep (w @ sep # s) = w # splitByte sep s"
  by (induction w) auto

lemma splitByte_append_list:
  "splitByte sep (a @ sep # b) = splitByte sep a @ splitByte sep b"
proof (induction a)
  case (Cons c a)
  then show ?case
    by (cases "splitByte sep a") auto
qed simp

lemma split_joinByte:
  "ws \<noteq> [] \<Longrightarrow> \<forall>w\<in>set ws. sep \<notin> set w \<Longrightarrow> splitByte sep (joinByte sep ws) = ws"
proof (induction ws rule: joinByte.induct)
  case (2 sep w)
  then show ?case by (simp add: splitByte_no_sep)
next
  case (3 sep w v ws)
  then show ?case by (simp add: splitByte_append)
qed simp

lemma splitByte_parts: "w \<in> set (splitByte sep s) \<Longrightarrow> sep \<notin> set w"
proof (induction s arbitrary: w)
  case (Cons c s)
  then show ?case
    by (cases "splitByte sep s") (auto split: if_splits)
qed simp

lemma joinByte_snoc:
  "ws \<noteq> [] \<Longrightarrow> joinByte sep (ws @ [w]) = joinByte sep ws @ sep # w"
  by (induction ws rule: joinByte.induct) (auto simp: joinByte_Cons)

section \<open>White space\<close>

definition asciiSpace :: "char \<Rightarrow> bool" where
  "asciiSpace c = (code c = 32 \<or> (9 \<le> code c \<and> code c \<le> 13))"

text \<open>
  \<open>spaceLen s\<close> is the number of bytes of the Unicode white-space rune that starts \<open>s\<close>, 0 when there is
  none: the runes of \<^verbatim>\<open>unicode.IsSpace\<close> with their UTF-8 encodings.
\<close>

fun spaceLen :: "string \<Rightarrow> nat" where
  "spaceLen [] = 0"
| "spaceLen (a # s) =
    (if asciiSpace a then 1
     else (case s of
        [] \<Rightarrow> 0
      | b # s' \<Rightarrow>
        (if code a = 0xC2 \<and> (code b = 0x85 \<or> code b = 0xA0) then 2
         else (case s' of
            [] \<Rightarrow> 0
          | c # _ \<Rightarrow>
            (if code a = 0xE1 \<and> code b = 0x9A \<and> code c = 0x80 then 3
             else if code a = 0xE2 \<and> code b = 0x80 \<and>
               ((0x80 \<le> code c \<and> code c \<le> 0x8A) \<or> code c = 0xA8 \<or> code c = 0xA9 \<or> code c = 0xAF) then 3
             else if code a = 0xE2 \<and> code b = 0x81 \<and> code c = 0x9F then 3
             else if code a = 0xE3 \<and> code b = 0x80 \<and> code c = 0x80 then 3
             else 0)))))"

text \<open>The same rune set read backwards: the last rune of a reversed string.\<close>

fun spaceLenRev :: "string \<Rightarrow> nat" where
  "spaceLenRev s =
    (if s \<noteq> [] \<and> spaceLen [hd s] = 1 then 1
     else if length s \<ge> 2 \<and> spaceLen (rev (take 2 s)) = 2 then 2
     else if length s \<ge> 3 \<and> spaceLen (rev (take 3 s)) = 3 then 3
     else 0)"

declare spaceLenRev.simps [simp del]

lemma spaceLen_le: "spaceLen s \<le> length s"
  by (cases s rule: spaceLen.cases) (auto split: list.splits)

function trimSpaceLeft :: "string \<Rightarrow> string" where
  "trimSpaceLeft s = (if spaceLen s = 0 then s else trimSpaceLeft (drop (spaceLen s) s))"
  by pat_completeness auto
termination
proof (relation "measure length", goal_cases)
  case (2 s)
  then show ?case using spaceLen_le [of s] by auto
qed simp

declare trimSpaceLeft.simps [simp del]

lemma spaceLenRev_le: "spaceLenRev s \<le> length s"
  by (cases s) (auto simp: spaceLenRev.simps)

function trimSpaceRev :: "string \<Rightarrow> string" where
  "trimSpaceRev s = (if spaceLenRev s = 0 then s else trimSpaceRev (drop (spaceLenRev s) s))"
  by pat_completeness auto
termination
proof (relation "measure length", goal_cases)
  case (2 s)
  then show ?case using spaceLenRev_le [of s] by auto
qed simp

declare trimSpaceRev.simps [simp del]

definition TrimSpace :: "string \<Rightarrow> string" where
  "TrimSpace s = rev (trimSpaceRev (rev (trimSpaceLeft s)))"

text \<open>\<^verbatim>\<open>strings.Fields\<close>: the maximal runs of non-space runes.\<close>

function fieldsFrom :: "string \<Rightarrow> string \<Rightarrow> string list" where
  "fieldsFrom w [] = (if w = [] then [] else [rev w])"
| "fieldsFrom w (c # s) =
     (if spaceLen (c # s) = 0 then fieldsFrom (c # w) s
      else (if w = [] then id else (#) (rev w)) (fieldsFrom [] (drop (spaceLen (c # s)) (c # s))))"
  by pat_completeness auto
termination
proof (relation "measure (length \<circ> snd)", goal_cases)
  case (3 w c s)
  then show ?case using spaceLen_le [of "c # s"] by (auto simp del: spaceLen.simps)
qed auto

definition Fields :: "string \<Rightarrow> string list" where
  "Fields s = fieldsFrom [] s"

section \<open>Decimal numbers\<close>

function natDigits :: "int \<Rightarrow> string" where
  "natDigits n = (if n < 10 then [char_of (48 + n)] else natDigits (n div 10) @ [char_of (48 + n mod 10)])"
  by pat_completeness auto
termination
  by (relation "measure nat") auto

declare natDigits.simps [simp del]

definition Itoa :: "int \<Rightarrow> string" where
  "Itoa n = (if n < 0 then CHR ''-'' # natDigits (- n) else natDigits n)"

definition digitsVal :: "string \<Rightarrow> int" where
  "digitsVal s = foldl (\<lambda>n c. 10 * n + (code c - 48)) 0 s"

definition maxInt64 :: int where "maxInt64 = 9223372036854775807"
definition minInt64 :: int where "minInt64 = - 9223372036854775808"

text \<open>\<^verbatim>\<open>strconv.Atoi\<close> on a 64-bit platform: an optional sign, digits only, in range.\<close>

fun Atoi :: "string \<Rightarrow> int option" where
  "Atoi s =
    (let neg = HasPrefix s ''-'';
         d = (if neg \<or> HasPrefix s ''+'' then tl s else s);
         v = (if neg then - digitsVal d else digitsVal d)
     in if d \<noteq> [] \<and> list_all isDigit d \<and> minInt64 \<le> v \<and> v \<le> maxInt64 then Some v else None)"

declare Atoi.simps [simp del]

lemma digitsVal_snoc [simp]: "digitsVal (s @ [c]) = 10 * digitsVal s + (code c - 48)"
  by (simp add: digitsVal_def)

lemma natDigits_val [simp]: "0 \<le> n \<Longrightarrow> digitsVal (natDigits n) = n"
proof (induction n rule: natDigits.induct)
  case (1 n)
  show ?case
  proof (cases "n < 10")
    case True
    with 1(2) show ?thesis by (simp add: natDigits.simps [of n] digitsVal_def)
  next
    case False
    with 1 have "digitsVal (natDigits (n div 10)) = n div 10" by simp
    moreover have "code (char_of (48 + n mod 10)) = 48 + n mod 10"
      using pos_mod_bound [of 10 n] pos_mod_sign [of 10 n] by (intro code_char_of) auto
    ultimately show ?thesis using False by (subst natDigits.simps) simp
  qed
qed

lemma isDigit_char [simp]: "0 \<le> n \<Longrightarrow> n < 10 \<Longrightarrow> isDigit (char_of (48 + n :: int))"
  by (simp add: isDigit_def)

lemma natDigits_digits: "0 \<le> n \<Longrightarrow> list_all isDigit (natDigits n)"
proof (induction n rule: natDigits.induct)
  case (1 n)
  then show ?case
    using pos_mod_bound [of 10 n] pos_mod_sign [of 10 n] by (subst natDigits.simps) simp
qed

lemma natDigits_not_Nil [simp]: "natDigits n \<noteq> []"
  by (subst natDigits.simps) simp

lemma natDigits_no_sign:
  assumes "0 \<le> n" "c \<in> {CHR ''-'', CHR ''+''}"
  shows "\<not> HasPrefix (natDigits n) [c]"
proof -
  obtain d ds where nd: "natDigits n = d # ds"
    by (cases "natDigits n") auto
  then have "isDigit d" using natDigits_digits [OF assms(1)] by simp
  then show ?thesis using assms nd by (auto simp: isDigit_def code_def)
qed

lemma Atoi_Itoa: "minInt64 \<le> n \<Longrightarrow> n \<le> maxInt64 \<Longrightarrow> Atoi (Itoa n) = Some n"
  using natDigits_digits [of n] natDigits_digits [of "- n"]
    natDigits_no_sign [of n "CHR ''-''"] natDigits_no_sign [of n "CHR ''+''"]
  by (auto simp: Atoi.simps Itoa_def)

section \<open>Machine integers\<close>

text \<open>A Go \<^verbatim>\<open>int\<close> or \<^verbatim>\<open>int64\<close> kept as an \<^typ>\<open>int\<close>; \<open>wrap64\<close> is its wrap-around.\<close>

definition wrap64 :: "int \<Rightarrow> int" where
  "wrap64 n = (n + 2 ^ 63) mod 2 ^ 64 - 2 ^ 63"

lemma wrap64_range: "minInt64 \<le> wrap64 n \<and> wrap64 n \<le> maxInt64"
  using pos_mod_bound [of "2 ^ 64" "n + 2 ^ 63"] pos_mod_sign [of "2 ^ 64" "n + 2 ^ 63"]
  by (simp add: wrap64_def minInt64_def maxInt64_def)

lemma wrap64_id: "minInt64 \<le> n \<Longrightarrow> n \<le> maxInt64 \<Longrightarrow> wrap64 n = n"
  by (simp add: wrap64_def minInt64_def maxInt64_def)

text \<open>Durations, in nanoseconds.\<close>

definition secondNs :: int where "secondNs = 1000000000"
definition minuteNs :: int where "minuteNs = 60000000000"
definition hourNs :: int where "hourNs = 3600000000000"

section \<open>Finite maps\<close>

text \<open>
  A Go map is an association list with distinct keys; the order of the pairs is the (unspecified)
  iteration order and no statement depends on it.
\<close>

type_synonym ('k, 'v) gomap = "('k \<times> 'v) list"

definition mget :: "('k, 'v) gomap \<Rightarrow> 'k \<Rightarrow> 'v option" where
  "mget m k = map_of m k"

fun mput :: "'k \<Rightarrow> 'v \<Rightarrow> ('k, 'v) gomap \<Rightarrow> ('k, 'v) gomap" where
  "mput k v [] = [(k, v)]"
| "mput k v ((k', v') # m) = (if k' = k then (k, v) # m else (k', v') # mput k v m)"

definition mdel :: "'k \<Rightarrow> ('k, 'v) gomap \<Rightarrow> ('k, 'v) gomap" where
  "mdel k m = filter (\<lambda>p. fst p \<noteq> k) m"

definition mkeys :: "('k, 'v) gomap \<Rightarrow> 'k list" where
  "mkeys m = map fst m"

definition mapok :: "('k, 'v) gomap \<Rightarrow> bool" where
  "mapok m = distinct (map fst m)"

lemma mget_Nil [simp]: "mget [] k = None"
  by (simp add: mget_def)

lemma mget_Cons [simp]: "mget ((k', v) # m) k = (if k' = k then Some v else mget m k)"
  by (simp add: mget_def)

lemma mget_mput [simp, map_laws]: "mget (mput k v m) k' = (if k' = k then Some v else mget m k')"
  by (induction k v m rule: mput.induct) auto

lemma mput_same: "mget m k = Some v \<Longrightarrow> mput k v m = m"
  by (induction m) (auto split: if_splits)

lemma mput_mput [simp, map_laws]: "mput k v (mput k u m) = mput k v m"
  by (induction m) auto

lemma mget_mdel [simp, map_laws]: "mget (mdel k m) k' = (if k' = k then None else mget m k')"
  by (induction m) (auto simp: mdel_def)

lemma set_mput_keys: "fst ` set (mput k v m) = insert k (fst ` set m)"
  by (induction k v m rule: mput.induct) auto

lemma mapok_mput [simp, intro]: "mapok m \<Longrightarrow> mapok (mput k v m)"
proof (induction k v m rule: mput.induct)
  case (2 k v k' v' m)
  then show ?case using set_mput_keys [of k v m] by (auto simp: mapok_def)
qed (simp add: mapok_def)

lemma mapok_mdel [simp, intro]: "mapok m \<Longrightarrow> mapok (mdel k m)"
  by (simp add: mapok_def mdel_def distinct_map_filter)

lemma mapok_Nil [simp]: "mapok []"
  by (simp add: mapok_def)

lemma mget_in: "mget m k = Some v \<Longrightarrow> (k, v) \<in> set m"
  by (simp add: mget_def map_of_SomeD)

lemma mget_iff: "mapok m \<Longrightarrow> mget m k = Some v \<longleftrightarrow> (k, v) \<in> set m"
  by (simp add: mapok_def mget_def)

lemma mget_None: "mget m k = None \<longleftrightarrow> k \<notin> fst ` set m"
  by (simp add: mget_def map_of_eq_None_iff)

lemma mdel_absent: "mget m k = None \<Longrightarrow> mdel k m = m"
  by (induction m) (auto simp: mdel_def split: if_splits)

lemma length_mput: "length (mput k v m) = (if mget m k = None then Suc (length m) else length m)"
  by (induction k v m rule: mput.induct) auto

lemma length_mdel_le: "length (mdel k m) \<le> length m"
  by (simp add: mdel_def)

lemma length_mdel: "mapok m \<Longrightarrow> mget m k \<noteq> None \<Longrightarrow> Suc (length (mdel k m)) = length m"
proof (induction m)
  case (Cons p m)
  obtain k' v' where p: "p = (k', v')" by (cases p)
  show ?case
  proof (cases "k' = k")
    case True
    with Cons.prems p have "filter (\<lambda>p. fst p \<noteq> k) m = m"
      by (intro filter_True) (auto simp: mapok_def)
    with True p show ?thesis by (simp add: mdel_def)
  next
    case False
    with Cons p show ?thesis by (auto simp: mapok_def mdel_def)
  qed
qed simp

lemma list_all_mput:
  "list_all P m \<Longrightarrow> P (k, v) \<Longrightarrow> list_all P (mput k v m)"
  by (induction k v m rule: mput.induct) auto

lemma list_all_mdel: "list_all P m \<Longrightarrow> list_all P (mdel k m)"
  by (auto simp: list_all_iff mdel_def)

lemma list_all_mdel_key: "list_all P m \<Longrightarrow> list_all (\<lambda>kv. P kv \<and> fst kv \<noteq> k) (mdel k m)"
  by (auto simp: list_all_iff mdel_def)

text \<open>Summing a measure over a map: what putting and deleting a key do to the sum.\<close>

definition msum :: "('v \<Rightarrow> int) \<Rightarrow> ('k, 'v) gomap \<Rightarrow> int" where
  "msum f m = sum_list (map (f \<circ> snd) m)"

definition mweight :: "('v \<Rightarrow> int) \<Rightarrow> ('k, 'v) gomap \<Rightarrow> 'k \<Rightarrow> int" where
  "mweight f m k = (case mget m k of None \<Rightarrow> 0 | Some v \<Rightarrow> f v)"

lemma msum_Nil [simp]: "msum f [] = 0"
  by (simp add: msum_def)

lemma msum_mput: "msum f (mput k v m) = msum f m - mweight f m k + f v"
  by (induction k v m rule: mput.induct) (auto simp: msum_def mweight_def)

lemma msum_mdel: "mapok m \<Longrightarrow> msum f (mdel k m) = msum f m - mweight f m k"
proof (induction m)
  case (Cons p m)
  obtain k' v' where p: "p = (k', v')" by (cases p)
  have "k' \<notin> fst ` set m" using Cons.prems p by (simp add: mapok_def)
  then have "filter (\<lambda>q. fst q \<noteq> k') m = m" and "mget m k' = None"
    by (auto intro!: filter_True simp: mget_None)
  with Cons p show ?case
    by (cases "k' = k") (auto simp: msum_def mdel_def mweight_def mapok_def)
qed (simp add: mdel_def mweight_def)

lemma msum_nonneg: "(\<And>v. 0 \<le> f v) \<Longrightarrow> 0 \<le> msum f m"
  by (induction m) (auto simp: msum_def)

lemma mweight_le_msum: "(\<And>v. 0 \<le> f v) \<Longrightarrow> mweight f m k \<le> msum f m"
proof (induction m)
  case (Cons p m)
  moreover have "0 \<le> msum f m" using Cons.prems by (rule msum_nonneg)
  moreover have "0 \<le> f (snd p)" using Cons.prems by simp
  ultimately show ?case
    by (cases p) (auto simp: msum_def mweight_def add_increasing split: option.splits)
qed (simp add: mweight_def)

section \<open>Systems that keep a bound\<close>

text \<open>
  Several components keep a table, a counter or a buffer that hostile input must not grow without end.
  Their common contract: one step keeps the size within the bound.  Its consequence for whole histories
  is proved here once.
\<close>

locale bounded_steps =
  fixes size_of :: "'s \<Rightarrow> int"
    and bound :: int
    and step :: "'e \<Rightarrow> 's \<Rightarrow> 's"
  assumes step_bounded: "size_of s \<le> bound \<Longrightarrow> size_of (step e s) \<le> bound"
begin

lemma history_bounded: "size_of s \<le> bound \<Longrightarrow> size_of (fold step es s) \<le> bound"
  by (induction es arbitrary: s) (auto intro: step_bounded)

end

text \<open>A system whose steps never lose what was once established.\<close>

locale monotone_steps =
  fixes holds :: "'s \<Rightarrow> bool"
    and step :: "'e \<Rightarrow> 's \<Rightarrow> 's"
  assumes step_keeps: "holds s \<Longrightarrow> holds (step e s)"
begin

lemma history_keeps: "holds s \<Longrightarrow> holds (fold step es s)"
  by (induction es arbitrary: s) (auto intro: step_keeps)

end

end
