(* ===== verification/Paths.thy ===== *)
theory Paths
  imports Prelude
begin

text \<open>
  The functions of package \<^verbatim>\<open>path\<close> that the virtual filesystem calls (\<open>Clean\<close>, \<open>Join\<close>, \<open>Dir\<close>,
  \<open>Base\<close>) and its own path helpers \<open>cleanAbs\<close>, \<open>splitPath\<close>, \<open>parentDir\<close>, \<open>baseName\<close>
  (\<^verbatim>\<open>internal/vfs/session.go\<close>).  A clean absolute path is \<open>absPath cs\<close> for a list \<open>cs\<close> of proper
  names; the lemmas say how each helper acts on that list, which is all the filesystem proofs use.
\<close>

named_theorems path_laws \<open>path helpers on component lists\<close>

abbreviation slash :: char where "slash \<equiv> CHR ''/''"

section \<open>Package path\<close>

text \<open>One pass of \<open>Clean\<close> over the components, \<open>st\<close> the kept components in reverse.\<close>

fun cleanStep :: "bool \<Rightarrow> string list \<Rightarrow> string \<Rightarrow> string list" where
  "cleanStep rooted st c =
     (if c = [] \<or> c = ''.'' then st
      else if c = ''..'' then
        (case st of
           [] \<Rightarrow> if rooted then [] else [''..'']
         | t # ts \<Rightarrow> if t = ''..'' then ''..'' # st else ts)
      else c # st)"

declare cleanStep.simps [simp del]

definition cleanComps :: "bool \<Rightarrow> string list \<Rightarrow> string list" where
  "cleanComps rooted cs = rev (foldl (cleanStep rooted) [] cs)"

definition path_Clean :: "string \<Rightarrow> string" where
  "path_Clean p =
     (let rooted = HasPrefix p ''/'';
          out = joinByte slash (cleanComps rooted (splitByte slash p))
      in if rooted then slash # out else if out = [] then ''.'' else out)"

text \<open>\<^verbatim>\<open>path.Join\<close> of two elements: empty elements are dropped, the rest cleaned.\<close>

definition path_Join :: "string \<Rightarrow> string \<Rightarrow> string" where
  "path_Join a b =
     (if a = [] \<and> b = [] then []
      else if a = [] then path_Clean b
      else if b = [] then path_Clean a
      else path_Clean (a @ slash # b))"

text \<open>The prefix of a path up to and including its last slash.\<close>

definition dirPart :: "string \<Rightarrow> string" where
  "dirPart p = rev (dropWhile (\<lambda>c. c \<noteq> slash) (rev p))"

definition path_Dir :: "string \<Rightarrow> string" where
  "path_Dir p = path_Clean (dirPart p)"

definition path_Base :: "string \<Rightarrow> string" where
  "path_Base p =
     (if p = [] then ''.''
      else let q = TrimRight p ''/'';
               b = rev (takeWhile (\<lambda>c. c \<noteq> slash) (rev q))
           in if b = [] then ''/'' else b)"

section \<open>The path helpers of package vfs\<close>

definition cleanAbs :: "string \<Rightarrow> string" where
  "cleanAbs p = path_Clean (if HasPrefix p ''/'' then p else ''/'' @ p)"

definition splitPath :: "string \<Rightarrow> string list" where
  "splitPath p = (let a = Trim p ''/'' in if a = [] then [] else splitByte slash a)"

definition parentDir :: "string \<Rightarrow> string" where
  "parentDir p = path_Dir p"

definition baseName :: "string \<Rightarrow> string" where
  "baseName p = path_Base p"

section \<open>Clean absolute paths as component lists\<close>

definition goodName :: "string \<Rightarrow> bool" where
  "goodName c = (c \<noteq> [] \<and> c \<noteq> ''.'' \<and> c \<noteq> ''..'' \<and> slash \<notin> set c)"

definition absPath :: "string list \<Rightarrow> string" where
  "absPath cs = slash # joinByte slash cs"

abbreviation goodPath :: "string list \<Rightarrow> bool" where
  "goodPath cs \<equiv> list_all goodName cs"

lemma HasPrefix_slash [simp]: "HasPrefix (c # s) [d] \<longleftrightarrow> c = d"
  by simp

lemma cleanStep_good [simp]: "goodName c \<Longrightarrow> cleanStep r st c = c # st"
  by (simp add: goodName_def cleanStep.simps)

lemma cleanStep_Nil [simp]: "cleanStep r st [] = st"
  by (simp add: cleanStep.simps)

lemma foldl_cleanStep_good: "goodPath cs \<Longrightarrow> foldl (cleanStep r) st cs = rev cs @ st"
  by (induction cs arbitrary: st) auto

lemma cleanStep_keeps:
  "goodPath st \<Longrightarrow> slash \<notin> set c \<Longrightarrow> goodPath (cleanStep True st c)"
  by (auto simp: goodName_def cleanStep.simps split: list.splits)

lemma foldl_cleanStep_keeps:
  "goodPath st \<Longrightarrow> \<forall>c\<in>set cs. slash \<notin> set c \<Longrightarrow> goodPath (foldl (cleanStep True) st cs)"
proof (induction cs arbitrary: st)
  case (Cons c cs)
  then show ?case using cleanStep_keeps [of st c] by simp
qed simp

lemma path_Clean_rooted: "\<exists>cs. goodPath cs \<and> path_Clean (slash # p) = absPath cs"
proof -
  let ?cs = "cleanComps True (splitByte slash (slash # p))"
  have "goodPath (foldl (cleanStep True) [] (splitByte slash (slash # p)))"
    using splitByte_parts by (intro foldl_cleanStep_keeps) auto
  then have "goodPath ?cs"
    by (simp add: cleanComps_def list_all_iff)
  moreover have "path_Clean (slash # p) = absPath ?cs"
    by (simp add: path_Clean_def absPath_def)
  ultimately show ?thesis by blast
qed

lemma goodPath_no_slash: "goodPath cs \<Longrightarrow> \<forall>w\<in>set cs. slash \<notin> set w"
  by (auto simp: list_all_iff goodName_def)

lemma cleanComps_good [simp]: "goodPath cs \<Longrightarrow> cleanComps r cs = cs"
  by (simp add: cleanComps_def foldl_cleanStep_good)

lemma cleanComps_Nil_hd [simp]: "cleanComps r ([] # cs) = cleanComps r cs"
  by (simp add: cleanComps_def)

lemma split_absPath: "goodPath cs \<Longrightarrow> splitByte slash (absPath cs) = [] # (if cs = [] then [[]] else cs)"
  using split_joinByte [of cs slash] goodPath_no_slash [of cs] by (simp add: absPath_def)

lemma path_Clean_absPath [simp, path_laws]: "goodPath cs \<Longrightarrow> path_Clean (absPath cs) = absPath cs"
  using split_absPath [of cs]
  by (cases "cs = []") (simp_all add: path_Clean_def absPath_def)

lemma absPath_rooted [simp]: "HasPrefix (absPath cs) ''/''"
  by (simp add: absPath_def)

lemma absPath_not_Nil [simp]: "absPath cs \<noteq> []" "absPath cs \<noteq> ''.''"
  by (simp_all add: absPath_def)

lemma cleanAbs_absPath [simp, path_laws]: "goodPath cs \<Longrightarrow> cleanAbs (absPath cs) = absPath cs"
  by (simp add: cleanAbs_def)

lemma cleanAbs_form: "\<exists>cs. goodPath cs \<and> cleanAbs p = absPath cs"
proof (cases p)
  case Nil
  then show ?thesis using path_Clean_rooted [of "[]"] by (simp add: cleanAbs_def)
next
  case (Cons c s)
  then show ?thesis using path_Clean_rooted [of s] path_Clean_rooted [of p]
    by (auto simp: cleanAbs_def)
qed

lemma absPath_Nil [simp]: "absPath [] = ''/''"
  by (simp add: absPath_def)

lemma joinByte_not_Nil: "goodPath cs \<Longrightarrow> cs \<noteq> [] \<Longrightarrow> joinByte slash cs \<noteq> []"
  by (cases cs) (auto simp: joinByte_Cons goodName_def)

lemma absPath_root_iff [simp]: "goodPath cs \<Longrightarrow> absPath cs = ''/'' \<longleftrightarrow> cs = []"
  using joinByte_not_Nil [of cs] by (auto simp: absPath_def)

lemma absPath_inj: "goodPath cs \<Longrightarrow> goodPath ds \<Longrightarrow> absPath cs = absPath ds \<longleftrightarrow> cs = ds"
proof
  assume g: "goodPath cs" "goodPath ds" and e: "absPath cs = absPath ds"
  then have "(if cs = [] then [[]] else cs) = (if ds = [] then [[]] else ds)"
    using split_absPath [of cs] split_absPath [of ds] by (simp split del: if_split)
  with g show "cs = ds"
    by (auto simp: goodName_def split: if_splits)
qed simp

lemma path_Join_absPath [simp, path_laws]:
  assumes "goodPath cs" "goodName c"
  shows "path_Join (absPath cs) c = absPath (cs @ [c])"
proof -
  have g: "goodPath (cs @ [c])" using assms by simp
  have s: "slash \<notin> set c" using assms by (simp add: goodName_def)
  have "splitByte slash (absPath cs @ slash # c) = [] # (if cs = [] then [[]] else cs) @ [c]"
    using assms s by (simp add: splitByte_append_list split_absPath splitByte_no_sep)
  then have "cleanComps True (splitByte slash (absPath cs @ slash # c)) = cs @ [c]"
    using g by simp
  moreover have "HasPrefix (absPath cs @ slash # c) ''/''"
    by (simp add: absPath_def)
  moreover have "c \<noteq> []" using assms by (simp add: goodName_def)
  ultimately show ?thesis
    by (simp add: path_Join_def path_Clean_def absPath_def)
qed

lemma dirPart_snoc: "slash \<notin> set c \<Longrightarrow> dirPart (p @ slash # c) = p @ [slash]"
proof -
  assume "slash \<notin> set c"
  then have "dropWhile (\<lambda>x. x \<noteq> slash) (rev c @ slash # rev p) = slash # rev p"
    by (subst dropWhile_append2) auto
  then show ?thesis by (simp add: dirPart_def)
qed

lemma absPath_snoc: "absPath (cs @ [c]) = (if cs = [] then [] else absPath cs) @ slash # c"
  by (simp add: absPath_def joinByte_snoc)

lemma parentDir_absPath [simp, path_laws]:
  assumes "goodPath cs" "goodName c"
  shows "parentDir (absPath (cs @ [c])) = absPath cs"
proof -
  have d: "dirPart (absPath (cs @ [c])) = (if cs = [] then [] else absPath cs) @ [slash]"
    using assms by (simp add: absPath_snoc dirPart_snoc goodName_def)
  have "splitByte slash (absPath cs @ [slash]) = [] # (if cs = [] then [[]] else cs) @ [[]]"
    using splitByte_append_list [of slash "absPath cs" "[]"] split_absPath assms by simp
  then have "cs \<noteq> [] \<Longrightarrow> cleanComps True (splitByte slash (absPath cs @ [slash])) = cs"
    using assms by (simp add: cleanComps_def foldl_cleanStep_good)
  moreover have "HasPrefix (absPath cs @ [slash]) ''/''"
    by (simp add: absPath_def)
  ultimately show ?thesis
    using d by (auto simp: parentDir_def path_Dir_def path_Clean_def absPath_def cleanComps_def)
qed

lemma parentDir_root [simp, path_laws]: "parentDir ''/'' = ''/''"
  by code_simp

lemma TrimRight_no: "s = [] \<or> last s \<notin> set cs \<Longrightarrow> TrimRight s cs = s"
  by (cases s rule: rev_cases) (auto simp: TrimRight_def TrimRightFunc_def)

lemma absPath_last: "goodPath cs \<Longrightarrow> goodName c \<Longrightarrow> last (absPath (cs @ [c])) \<noteq> slash"
  by (cases c rule: rev_cases) (auto simp: absPath_snoc goodName_def)

lemma baseName_absPath [simp, path_laws]:
  assumes "goodPath cs" "goodName c"
  shows "baseName (absPath (cs @ [c])) = c"
proof -
  have t: "TrimRight (absPath (cs @ [c])) ''/'' = absPath (cs @ [c])"
    using absPath_last [OF assms] by (intro TrimRight_no) simp
  have "takeWhile (\<lambda>x. x \<noteq> slash) (rev c @ slash # ys) = rev c" for ys
    using assms by (subst takeWhile_append2) (auto simp: goodName_def)
  then have "rev (takeWhile (\<lambda>x. x \<noteq> slash) (rev (absPath (cs @ [c])))) = c"
    by (auto simp: absPath_snoc)
  moreover have "c \<noteq> []" using assms by (simp add: goodName_def)
  ultimately show ?thesis
    by (auto simp: baseName_def path_Base_def t Let_def)
qed

lemma joinByte_hd: "goodPath cs \<Longrightarrow> cs \<noteq> [] \<Longrightarrow> hd (joinByte slash cs) \<noteq> slash"
  by (cases cs; cases "hd cs") (auto simp: joinByte_Cons goodName_def)

lemma splitPath_absPath [simp, path_laws]:
  assumes "goodPath cs"
  shows "splitPath (absPath cs) = cs"
proof (cases cs rule: rev_cases)
  case Nil
  then show ?thesis
    by (simp add: splitPath_def Trim_def TrimLeft_def TrimLeftFunc_def TrimRight_def TrimRightFunc_def)
next
  case (snoc ds c)
  have h: "joinByte slash cs \<noteq> []" using assms snoc by (intro joinByte_not_Nil) auto
  have hd: "hd (joinByte slash cs) \<noteq> slash"
    using assms snoc by (intro joinByte_hd) auto
  have "TrimLeft (absPath cs) ''/'' = joinByte slash cs"
    using h hd by (cases "joinByte slash cs") (auto simp: TrimLeft_def TrimLeftFunc_def absPath_def)
  moreover have "last (joinByte slash cs) \<noteq> slash"
    using absPath_last [of ds c] assms snoc h by (auto simp: absPath_def)
  ultimately have "Trim (absPath cs) ''/'' = joinByte slash cs"
    by (simp add: Trim_def TrimRight_no)
  moreover have "splitByte slash (joinByte slash cs) = cs"
    using snoc goodPath_no_slash [OF assms] by (intro split_joinByte) auto
  ultimately show ?thesis using h by (simp add: splitPath_def)
qed

end
