(* ===== verification/Vfs.thy ===== *)
theory Vfs
  imports Paths
begin

text \<open>
  The virtual filesystem: \<^verbatim>\<open>internal/vfs/vfs.go\<close> (nodes) and \<^verbatim>\<open>internal/vfs/session.go\<close> (the
  copy-on-write view one connection has of the shared tree).

  A node is a record of its metadata and a finite map of children.  A session is the record of the
  Go struct; every operation takes the session and the process-wide byte counter and returns the
  error, the new session and the new counter.  \<open>lookup\<close> recurses through symbolic links with the
  source's depth counter and is total because of it.
\<close>

named_theorems vfs_ops \<open>definitions of the session operations\<close>

unbundle bit_operations_syntax

section \<open>Nodes (vfs.go)\<close>

datatype vfs_error = ErrNotExist | ErrPermission | ErrNotDir | ErrIsDir | ErrExist | ErrNoSpace

type_synonym filemode = "32 word"
type_synonym gotime = int

definition ModeDir :: filemode where "ModeDir = 0x80000000"
definition ModeSymlink :: filemode where "ModeSymlink = 0x08000000"

record inode =
  n_name :: string
  n_mode :: filemode
  n_uid :: int
  n_gid :: int
  n_uname :: string
  n_gname :: string
  n_mtime :: gotime
  n_content :: bytes
  n_link :: string
  n_stub :: bool
  n_size :: int

datatype node = Node (info: inode) (children: "(string, node) gomap")

definition emptyInode :: inode where
  "emptyInode = \<lparr>n_name = [], n_mode = 0, n_uid = 0, n_gid = 0, n_uname = [], n_gname = [],
     n_mtime = 0, n_content = [], n_link = [], n_stub = False, n_size = 0\<rparr>"

definition Name :: "node \<Rightarrow> string" where "Name n = n_name (info n)"
definition Mode :: "node \<Rightarrow> filemode" where "Mode n = n_mode (info n)"
definition IsDir :: "node \<Rightarrow> bool" where "IsDir n = (Mode n AND ModeDir \<noteq> 0)"
definition IsLink :: "node \<Rightarrow> bool" where "IsLink n = (Mode n AND ModeSymlink \<noteq> 0)"
definition LinkTarget :: "node \<Rightarrow> string" where "LinkTarget n = n_link (info n)"

definition Size :: "node \<Rightarrow> int" where
  "Size n =
     (if IsDir n then 4096
      else if n_stub (info n) \<and> n_size (info n) > 0 then n_size (info n)
      else int (length (n_content (info n))))"

definition LinkCount :: "node \<Rightarrow> int" where
  "LinkCount n =
     (if \<not> IsDir n then 1
      else foldl (\<lambda>links kc. if IsDir (snd kc) then links + 1 else links) 2 (children n))"

definition elfStub :: bytes where
  "elfStub =
     (let b = replicate 64 NUL;
          b = [CHR 0x7F, CHR ''E'', CHR ''L'', CHR ''F'', CHR 0x02, CHR 0x01, CHR 0x01, CHR 0x00]
              @ drop 8 b;
          b = b[16 := CHR 0x02];
          b = b[18 := CHR 0x3E]
      in b[20 := CHR 0x01])"

definition Content :: "node \<Rightarrow> bytes" where
  "Content n = (if n_stub (info n) then elfStub else n_content (info n))"

record FS =
  fs_root :: node

definition childOf :: "node \<Rightarrow> string \<Rightarrow> node option" where
  "childOf dir nm = mget (children dir) nm"

section \<open>Sessions (session.go)\<close>

definition maxOverlayBytes :: int where "maxOverlayBytes = 8388608"
definition maxOverlayFileBytes :: int where "maxOverlayFileBytes = 2097152"
definition maxOverlayEntries :: nat where "maxOverlayEntries = 2048"
definition maxGlobalOverlayBytes :: int where "maxGlobalOverlayBytes = 268435456"
definition maxLinkDepth :: nat where "maxLinkDepth = 40"

text \<open>The process-wide counter is passed in and out; the sums stay far below the width of int64.\<close>

definition reserveOverlay :: "int \<Rightarrow> int \<Rightarrow> bool \<times> int" where
  "reserveOverlay delta g =
     (if delta \<le> 0 then (True, g + delta)
      else if g + delta > maxGlobalOverlayBytes then (False, g + delta + (- delta))
      else (True, g + delta))"

record session =
  base :: FS
  overlay :: "(string, node) gomap"
  deleted :: "(string, bool) gomap"
  cwd :: string
  bytes :: int

definition NewSession :: "FS \<Rightarrow> string \<Rightarrow> session" where
  "NewSession f c =
     (let c = (if c = [] then ''/'' else c)
      in \<lparr>base = f, overlay = [], deleted = [], cwd = cleanAbs c, bytes = 0\<rparr>)"

definition entries :: "session \<Rightarrow> nat" where
  "entries s = length (overlay s) + length (deleted s)"

definition Resolve :: "session \<Rightarrow> string \<Rightarrow> string" where
  "Resolve s p =
     (if p = [] then cwd s
      else cleanAbs (if \<not> HasPrefix p ''/'' then path_Join (cwd s) p else p))"

text \<open>
  The tombstone walk \<open>for p := abs; ; p = parentDir(p)\<close>: fuel stands for the unbounded loop and
  \<open>None\<close> for not returning.  \<open>isDeletedFrom_total\<close> shows that the length of a clean absolute path is
  enough fuel.
\<close>

fun isDeletedFrom :: "nat \<Rightarrow> (string, bool) gomap \<Rightarrow> string \<Rightarrow> bool option" where
  "isDeletedFrom fuel del p =
     (if mget del p = Some True then Some True
      else if p = ''/'' then Some False
      else (case fuel of 0 \<Rightarrow> None | Suc k \<Rightarrow> isDeletedFrom k del (parentDir p)))"

declare isDeletedFrom.simps [simp del]

definition isDeleted :: "session \<Rightarrow> string \<Rightarrow> bool" where
  "isDeleted s p = (isDeletedFrom (length p) (deleted s) p = Some True)"

definition child :: "session \<Rightarrow> string \<Rightarrow> node \<Rightarrow> string \<Rightarrow> node option" where
  "child s parentAbs parentNode nm =
     (let childAbs = path_Join parentAbs nm
      in if isDeleted s childAbs then None
         else (case mget (overlay s) childAbs of
             Some ov \<Rightarrow> Some ov
           | None \<Rightarrow> childOf parentNode nm))"

definition linkPath :: "string \<Rightarrow> node \<Rightarrow> string" where
  "linkPath parentAbs link =
     (let tgt = LinkTarget link
      in if HasPrefix tgt ''/'' then cleanAbs tgt else cleanAbs (path_Join parentAbs tgt))"

function (sequential) lookup :: "session \<Rightarrow> string \<Rightarrow> bool \<Rightarrow> nat \<Rightarrow> vfs_error + node"
and lookupWalk :: "session \<Rightarrow> string \<Rightarrow> node \<Rightarrow> string list \<Rightarrow> bool \<Rightarrow> nat \<Rightarrow> vfs_error + node"
where
  "lookup s p followFinal depth =
     (if depth > maxLinkDepth then Err ErrNotExist
      else let ap = cleanAbs p
           in if isDeleted s ap then Err ErrNotExist
              else if ap = ''/'' then Ok (fs_root (base s))
              else lookupWalk s ''/'' (fs_root (base s)) (splitPath ap) followFinal depth)"
| "lookupWalk s cur nd [] followFinal depth = Ok nd"
| "lookupWalk s cur nd (nm # rest) followFinal depth =
     (if \<not> IsDir nd then Err ErrNotDir
      else (case child s cur nd nm of
          None \<Rightarrow> Err ErrNotExist
        | Some c \<Rightarrow>
            if IsLink c \<and> (rest \<noteq> [] \<or> followFinal)
            then (case lookup s (linkPath cur c) True (depth + 1) of
                Inl e \<Rightarrow> Err e
              | Inr target \<Rightarrow> lookupWalk s (path_Join cur nm) target rest followFinal depth)
            else lookupWalk s (path_Join cur nm) c rest followFinal depth))"
  by pat_completeness auto
termination
  by (relation "measures
      [\<lambda>x. case x of Inl (s, p, ff, d) \<Rightarrow> Suc maxLinkDepth - d
                   | Inr (s, cur, nd, ps, ff, d) \<Rightarrow> Suc maxLinkDepth - d,
       \<lambda>x. case x of Inl (s, p, ff, d) \<Rightarrow> if d > maxLinkDepth then 0 else 1
                   | Inr (s, cur, nd, ps, ff, d) \<Rightarrow> 0,
       \<lambda>x. case x of Inl (s, p, ff, d) \<Rightarrow> 0
                   | Inr (s, cur, nd, ps, ff, d) \<Rightarrow> Suc (length ps)]")
     (auto simp: maxLinkDepth_def)

declare lookup.simps [simp del] lookupWalk.simps(2) [simp del]

definition Stat :: "session \<Rightarrow> string \<Rightarrow> vfs_error + node" where
  "Stat s p = lookup s (Resolve s p) True 0"

definition Lstat :: "session \<Rightarrow> string \<Rightarrow> vfs_error + node" where
  "Lstat s p = lookup s (Resolve s p) False 0"

definition ReadFile :: "session \<Rightarrow> string \<Rightarrow> vfs_error + bytes" where
  "ReadFile s p =
     (case lookup s (Resolve s p) True 0 of
        Inl e \<Rightarrow> Err e
      | Inr n \<Rightarrow> if IsDir n then Err ErrIsDir else Ok (Content n))"

text \<open>The names \<open>ReadDir\<close> has seen: base children, then overlay nodes whose parent is the directory.\<close>

definition seenNames :: "session \<Rightarrow> string \<Rightarrow> node \<Rightarrow> (string, node) gomap" where
  "seenNames s ap nd =
     foldl (\<lambda>seen on. if parentDir (fst on) = ap then mput (baseName (fst on)) (snd on) seen else seen)
       (foldl (\<lambda>seen nc. mput (fst nc) (snd nc) seen) [] (children nd))
       (overlay s)"

definition ReadDir :: "session \<Rightarrow> string \<Rightarrow> vfs_error + node list" where
  "ReadDir s p =
     (let ap = Resolve s p
      in case lookup s ap True 0 of
        Inl e \<Rightarrow> Err e
      | Inr nd \<Rightarrow>
          if \<not> IsDir nd then Err ErrNotDir
          else Ok (sort_key Name
                 (map snd (filter (\<lambda>nc. \<not> isDeleted s (path_Join ap (fst nc))) (seenNames s ap nd)))))"

definition Chdir :: "session \<Rightarrow> string \<Rightarrow> vfs_error option \<times> session" where
  "Chdir s p =
     (let ap = Resolve s p
      in case lookup s ap True 0 of
        Inl e \<Rightarrow> (Some e, s)
      | Inr n \<Rightarrow> if \<not> IsDir n then (Some ErrNotDir, s) else (None, s\<lparr>cwd := ap\<rparr>))"

definition fileNode :: "string \<Rightarrow> gotime \<Rightarrow> bytes \<Rightarrow> node" where
  "fileNode ap now content =
     Node (emptyInode\<lparr>n_name := baseName ap, n_mode := 0x1A4, n_uname := ''root'',
                      n_gname := ''root'', n_mtime := now, n_content := content\<rparr>) []"

definition dirNode :: "string \<Rightarrow> gotime \<Rightarrow> node" where
  "dirNode ap now =
     Node (emptyInode\<lparr>n_name := baseName ap, n_mode := ModeDir OR 0x1ED, n_uname := ''root'',
                      n_gname := ''root'', n_mtime := now\<rparr>) []"

text \<open>The bytes an overlay node is charged: the body of a file, nothing for a directory.\<close>

definition fileBytes :: "node \<Rightarrow> int" where
  "fileBytes n = (if IsDir n then 0 else int (length (n_content (info n))))"

definition WriteFile ::
  "gotime \<Rightarrow> session \<Rightarrow> int \<Rightarrow> string \<Rightarrow> bytes \<Rightarrow> vfs_error option \<times> session \<times> int" where
  "WriteFile now s g p content =
     (let ap = Resolve s p
      in if ap = ''/'' then (Some ErrIsDir, s, g)
      else case lookup s (parentDir ap) True 0 of
        Inl _ \<Rightarrow> (Some ErrNotExist, s, g)
      | Inr pn \<Rightarrow>
        if \<not> IsDir pn then (Some ErrNotDir, s, g)
        else if (case lookup s ap False 0 of Inl _ \<Rightarrow> False | Inr ex \<Rightarrow> IsDir ex)
        then (Some ErrIsDir, s, g)
        else if int (length content) > maxOverlayFileBytes then (Some ErrNoSpace, s, g)
        else
          let isReplacement = (mget (overlay s) ap \<noteq> None);
              oldLen = (case mget (overlay s) ap of
                  Some prev \<Rightarrow> if \<not> IsDir prev then int (length (n_content (info prev))) else 0
                | None \<Rightarrow> 0)
          in if bytes s - oldLen + int (length content) > maxOverlayBytes then (Some ErrNoSpace, s, g)
             else if \<not> isReplacement \<and> entries s \<ge> maxOverlayEntries then (Some ErrNoSpace, s, g)
             else (case reserveOverlay (int (length content) - oldLen) g of
                 (False, g') \<Rightarrow> (Some ErrNoSpace, s, g')
               | (True, g') \<Rightarrow>
                   (None,
                    s\<lparr>deleted := mdel ap (deleted s),
                      bytes := bytes s - oldLen + int (length content),
                      overlay := mput ap (fileNode ap now content) (overlay s)\<rparr>,
                    g')))"

definition Mkdir :: "gotime \<Rightarrow> session \<Rightarrow> string \<Rightarrow> vfs_error option \<times> session" where
  "Mkdir now s p =
     (let ap = Resolve s p
      in if ap = ''/'' then (Some ErrExist, s)
      else case lookup s (parentDir ap) True 0 of
        Inl _ \<Rightarrow> (Some ErrNotExist, s)
      | Inr pn \<Rightarrow>
        if \<not> IsDir pn then (Some ErrNotDir, s)
        else if isOk (lookup s ap False 0) then (Some ErrExist, s)
        else if mget (deleted s) ap = None \<and> entries s \<ge> maxOverlayEntries then (Some ErrNoSpace, s)
        else (None, s\<lparr>deleted := mdel ap (deleted s),
                       overlay := mput ap (dirNode ap now) (overlay s)\<rparr>))"

definition Remove :: "session \<Rightarrow> int \<Rightarrow> string \<Rightarrow> vfs_error option \<times> session \<times> int" where
  "Remove s g p =
     (let ap = Resolve s p
      in if ap = ''/'' then (Some ErrPermission, s, g)
      else case lookup s ap False 0 of
        Inl e \<Rightarrow> (Some e, s, g)
      | Inr _ \<Rightarrow>
        let freed = (case mget (overlay s) ap of
                Some prev \<Rightarrow> if \<not> IsDir prev then Some (int (length (n_content (info prev)))) else None
              | None \<Rightarrow> None);
            (b, g') = (case freed of
                Some k \<Rightarrow> (bytes s - k, snd (reserveOverlay (- k) g))
              | None \<Rightarrow> (bytes s, g))
        in (None, s\<lparr>bytes := b, overlay := mdel ap (overlay s), deleted := mput ap True (deleted s)\<rparr>, g'))"

definition Release :: "session \<Rightarrow> int \<Rightarrow> session \<times> int" where
  "Release s g =
     (if bytes s \<noteq> 0 then (s\<lparr>bytes := 0\<rparr>, snd (reserveOverlay (- bytes s) g)) else (s, g))"

definition Exists :: "session \<Rightarrow> string \<Rightarrow> bool" where
  "Exists s p = isOk (lookup s (Resolve s p) True 0)"

section \<open>Resolution on component lists\<close>

lemma length_absPath: "goodPath cs \<Longrightarrow> length cs \<le> length (absPath cs)"
proof (induction cs)
  case (Cons c cs)
  then show ?case by (cases cs) (auto simp: absPath_def goodName_def joinByte_Cons)
qed simp

lemma isDeletedFrom_absPath:
  "goodPath cs \<Longrightarrow> length cs \<le> fuel \<Longrightarrow>
     isDeletedFrom fuel del (absPath cs) =
       Some (\<exists>k\<le>length cs. mget del (absPath (take k cs)) = Some True)"
proof (induction cs arbitrary: fuel rule: rev_induct)
  case Nil
  then show ?case by (simp add: isDeletedFrom.simps)
next
  case (snoc c cs)
  then obtain k where k: "fuel = Suc k" "length cs \<le> k" by (cases fuel) auto
  have "(\<exists>j\<le>Suc (length cs). mget del (absPath (take j (cs @ [c]))) = Some True) \<longleftrightarrow>
        mget del (absPath (cs @ [c])) = Some True \<or>
        (\<exists>j\<le>length cs. mget del (absPath (take j cs)) = Some True)"
    by (auto simp: le_Suc_eq)
  with snoc k show ?case by (simp add: isDeletedFrom.simps)
qed

lemma isDeletedFrom_total:
  "goodPath cs \<Longrightarrow> \<exists>b. isDeletedFrom (length (absPath cs)) del (absPath cs) = Some b"
  using isDeletedFrom_absPath length_absPath by blast

lemma isDeleted_absPath:
  "goodPath cs \<Longrightarrow>
     isDeleted s (absPath cs) \<longleftrightarrow> (\<exists>k\<le>length cs. mget (deleted s) (absPath (take k cs)) = Some True)"
  by (simp add: isDeleted_def isDeletedFrom_absPath length_absPath)

lemma isDeleted_snoc:
  "goodPath cs \<Longrightarrow> goodName c \<Longrightarrow>
     isDeleted s (absPath (cs @ [c])) \<longleftrightarrow>
       mget (deleted s) (absPath (cs @ [c])) = Some True \<or> isDeleted s (absPath cs)"
  by (auto simp: isDeleted_absPath le_Suc_eq)

lemma isDeleted_prefix:
  assumes "goodPath (xs @ ys)" "isDeleted s (absPath xs)"
  shows "isDeleted s (absPath (xs @ ys))"
  using assms
proof (induction ys rule: rev_induct)
  case (snoc y ys)
  then show ?case using isDeleted_snoc [of "xs @ ys" y s] by simp
qed simp

lemma child_absPath:
  "goodPath cs \<Longrightarrow> goodName c \<Longrightarrow>
     child s (absPath cs) nd c =
       (if isDeleted s (absPath (cs @ [c])) then None
        else case mget (overlay s) (absPath (cs @ [c])) of
            Some ov \<Rightarrow> Some ov
          | None \<Rightarrow> childOf nd c)"
  by (simp add: child_def)

lemma linkPath_form: "\<exists>cs. goodPath cs \<and> linkPath cur c = absPath cs"
  using cleanAbs_form by (simp add: linkPath_def Let_def)

lemma Resolve_form:
  "cleanAbs (cwd s) = cwd s \<Longrightarrow> \<exists>cs. goodPath cs \<and> Resolve s p = absPath cs"
  using cleanAbs_form [of "cwd s"] cleanAbs_form by (auto simp: Resolve_def)

lemma cleanAbs_root [simp]: "cleanAbs ''/'' = ''/''"
  by code_simp

lemma lookup_absPath:
  "goodPath cs \<Longrightarrow>
     lookup s (absPath cs) ff d =
       (if d > maxLinkDepth \<or> isDeleted s (absPath cs) then Err ErrNotExist
        else lookupWalk s (absPath []) (fs_root (base s)) cs ff d)"
  by (simp add: lookup.simps)

lemma lookup_cleanAbs: "lookup s (cleanAbs p) ff d = lookup s p ff d"
proof -
  obtain cs where "goodPath cs" "cleanAbs p = absPath cs"
    using cleanAbs_form by blast
  then have "cleanAbs (cleanAbs p) = cleanAbs p" by simp
  then show ?thesis by (simp add: lookup.simps)
qed

text \<open>A walk over a path with one more name resolves the prefix first, following its links.\<close>

lemma lookupWalk_snoc:
  assumes "goodPath cs" "goodPath xs" "goodName x"
  shows "lookupWalk s (absPath cs) nd (xs @ [x]) ff d =
    (case lookupWalk s (absPath cs) nd xs True d of
       Inl e \<Rightarrow> Err e
     | Inr n \<Rightarrow> lookupWalk s (absPath (cs @ xs)) n [x] ff d)"
  using assms
proof (induction xs arbitrary: cs nd)
  case (Cons y ys)
  have "lookupWalk s (absPath (cs @ [y])) n (ys @ [x]) ff d =
    (case lookupWalk s (absPath (cs @ [y])) n ys True d of
       Inl e \<Rightarrow> Err e
     | Inr n \<Rightarrow> lookupWalk s (absPath (cs @ y # ys)) n [x] ff d)" for n
    using Cons.IH [of "cs @ [y]" n] Cons.prems by (simp cong: sum.case_cong)
  then show ?case using Cons.prems
    by (cases "child s (absPath cs) nd y";
        cases "lookup s (linkPath (absPath cs) (the (child s (absPath cs) nd y))) True (Suc d)")
       (simp_all add: lookupWalk.simps(2) [of s "absPath cs" nd y])
qed (simp add: lookupWalk.simps(1))

lemma lookup_snoc:
  assumes "goodPath cs" "goodName c"
  shows "lookup s (absPath (cs @ [c])) ff d =
    (if isDeleted s (absPath (cs @ [c])) then Err ErrNotExist
     else case lookup s (absPath cs) True d of
         Inl e \<Rightarrow> Err e
       | Inr n \<Rightarrow> lookupWalk s (absPath cs) n [c] ff d)"
  using assms lookupWalk_snoc [of "[]" cs c s "fs_root (base s)" ff d]
  by (auto simp: lookup_absPath isDeleted_snoc split: sum.splits)

section \<open>Depth and frame\<close>

lemma lookup_depth_mono_aux:
  "lookup s p ff d = Ok n \<Longrightarrow> d' \<le> d \<Longrightarrow> lookup s p ff d' = Ok n"
  "lookupWalk s cur nd ps ff d = Ok n \<Longrightarrow> d' \<le> d \<Longrightarrow> lookupWalk s cur nd ps ff d' = Ok n"
proof (induction s p ff d and s cur nd ps ff d arbitrary: n d' and n d' rule: lookup_lookupWalk.induct)
  case (1 s p ff d)
  have d: "\<not> maxLinkDepth < d" using 1(2) by (auto simp: lookup.simps)
  have nd: "\<not> isDeleted s (cleanAbs p)" using 1(2) by (auto simp: lookup.simps split: if_splits)
  show ?case
  proof (cases "cleanAbs p = ''/''")
    case True
    with 1(2,3) d nd show ?thesis by (simp add: lookup.simps)
  next
    case False
    then have "lookupWalk s ''/'' (fs_root (base s)) (splitPath (cleanAbs p)) ff d = Ok n"
      using 1(2) d nd by (simp add: lookup.simps)
    from 1(1) [OF d refl nd False this 1(3)] 1(3) d nd False show ?thesis
      by (simp add: lookup.simps)
  qed
next
  case (2 s cur nd ff d)
  then show ?case by simp
next
  case (3 s cur nd nm rest ff d)
  from 3(4) obtain c where c: "IsDir nd" "child s cur nd nm = Some c"
    by (auto simp: lookupWalk.simps(2) split: if_splits option.splits)
  show ?case
  proof (cases "IsLink c \<and> (rest \<noteq> [] \<or> ff)")
    case True
    with 3(4) c obtain t where t: "lookup s (linkPath cur c) True (d + 1) = Ok t"
      "lookupWalk s (path_Join cur nm) t rest ff d = Ok n"
      by (auto simp: lookupWalk.simps(2) split: sum.splits)
    have nn: "\<not> \<not> IsDir nd" and le: "d' + 1 \<le> d + 1" using c 3(5) by simp_all
    have "lookup s (linkPath cur c) True (d' + 1) = Ok t"
      by (rule 3(1) [OF nn c(2) True t(1) le])
    moreover have "lookupWalk s (path_Join cur nm) t rest ff d' = Ok n"
      by (rule 3(2) [OF nn c(2) True t(1) t(2) 3(5)])
    ultimately show ?thesis using c True by (simp add: lookupWalk.simps(2))
  next
    case False
    with 3(4) c have w: "lookupWalk s (path_Join cur nm) c rest ff d = Ok n"
      by (auto simp: lookupWalk.simps(2))
    have "\<not> \<not> IsDir nd" using c by simp
    from 3(3) [OF this c(2) False w 3(5)] c False show ?thesis
      by (auto simp: lookupWalk.simps(2))
  qed
qed

lemmas lookup_depth_mono = lookup_depth_mono_aux(1)

text \<open>
  Two sessions that agree except that the second has something new at one key: a resolution that
  succeeds in the first without consulting the key gives the same node in the second.
\<close>

definition agreeBut :: "string \<Rightarrow> session \<Rightarrow> session \<Rightarrow> bool" where
  "agreeBut k s s' = (base s' = base s \<and>
     (\<forall>q. q \<noteq> k \<longrightarrow> mget (overlay s') q = mget (overlay s) q) \<and>
     (\<forall>q. mget (deleted s') q = Some True \<longrightarrow> mget (deleted s) q = Some True))"

lemma agreeBut_isDeleted:
  "agreeBut k s s' \<Longrightarrow> goodPath cs \<Longrightarrow> \<not> isDeleted s (absPath cs) \<Longrightarrow> \<not> isDeleted s' (absPath cs)"
  by (auto simp: agreeBut_def isDeleted_absPath)

lemma agreeBut_child:
  assumes "agreeBut (absPath kp) s s'" "goodPath kp" "goodPath cs" "goodName c"
    and "cs @ [c] \<noteq> kp" "child s (absPath cs) nd c = Some n"
  shows "child s' (absPath cs) nd c = Some n"
proof -
  have "absPath (cs @ [c]) \<noteq> absPath kp"
    using assms by (simp add: absPath_inj)
  moreover have "\<not> isDeleted s (absPath (cs @ [c]))"
    using assms by (auto simp: child_absPath split: if_splits)
  ultimately show ?thesis
    using assms agreeBut_isDeleted [OF assms(1), of "cs @ [c]"]
    by (auto simp: child_absPath agreeBut_def)
qed

lemma lookupWalk_frame:
  assumes ag: "agreeBut (absPath kp) s s'" "goodPath kp"
    and nested: "\<And>p m. lookup s p True (d + 1) = Ok m \<Longrightarrow> lookup s' p True (d + 1) = Ok m"
  shows "goodPath cs \<Longrightarrow> goodPath xs \<Longrightarrow> (\<And>k. 0 < k \<Longrightarrow> k \<le> length xs \<Longrightarrow> cs @ take k xs \<noteq> kp) \<Longrightarrow>
    lookupWalk s (absPath cs) nd xs ff d = Ok m \<Longrightarrow> lookupWalk s' (absPath cs) nd xs ff d = Ok m"
proof (induction xs arbitrary: cs nd)
  case (Cons x xs)
  have good: "goodPath cs" "goodName x" "goodPath xs" using Cons.prems by auto
  have "cs @ [x] \<noteq> kp" using Cons.prems(3) [of 1] by simp
  then have ch: "child s (absPath cs) nd x = Some n \<Longrightarrow> child s' (absPath cs) nd x = Some n" for n
    using agreeBut_child [OF ag good(1,2)] by blast
  have rest: "lookupWalk s (absPath (cs @ [x])) n xs ff d = Ok m \<Longrightarrow>
      lookupWalk s' (absPath (cs @ [x])) n xs ff d = Ok m" for n
  proof (rule Cons.IH)
    show "(cs @ [x]) @ take k xs \<noteq> kp" if "0 < k" "k \<le> length xs" for k
      using Cons.prems(3) [of "Suc k"] that by simp
  qed (use good in auto)
  show ?case using Cons.prems(4) good
    by (auto simp: lookupWalk.simps(2) split: if_splits option.splits sum.splits
        dest!: ch nested [simplified] rest)
qed simp

lemma lookupWalk_prefix:
  "goodPath cs \<Longrightarrow> goodPath xs \<Longrightarrow> xs \<noteq> [] \<or> ff \<Longrightarrow>
     lookupWalk s (absPath cs) nd (ys @ xs) ff d = Ok m \<Longrightarrow> goodPath ys \<Longrightarrow>
     \<exists>n. lookupWalk s (absPath cs) nd ys True d = Ok n"
proof (induction ys arbitrary: cs nd)
  case (Cons y ys)
  have "lookupWalk s (absPath (cs @ [y])) n (ys @ xs) ff d = Ok m \<Longrightarrow>
      \<exists>n'. lookupWalk s (absPath (cs @ [y])) n ys True d = Ok n'" for n
    using Cons.IH [of "cs @ [y]" n] Cons.prems by simp
  then show ?case using Cons.prems
    by (auto simp: lookupWalk.simps(2) split: if_splits option.splits sum.splits)
qed simp

text \<open>
  Where the parent of the key does not resolve at a depth, nothing that resolves from that depth on
  consults the key.
\<close>

lemma lookup_frame_deep:
  assumes ag: "agreeBut (absPath (P @ [nm])) s s'" "goodPath P" "goodName nm"
  shows "(\<And>n. lookup s (absPath P) True d \<noteq> Ok n) \<Longrightarrow> lookup s p ff d = Ok m \<Longrightarrow> lookup s' p ff d = Ok m"
proof (induction "Suc maxLinkDepth - d" arbitrary: d p ff m)
  case 0
  then show ?case by (auto simp: lookup.simps)
next
  case (Suc k)
  then have d: "\<not> maxLinkDepth < d" and k: "k = Suc maxLinkDepth - (d + 1)" by auto
  obtain ps where ps: "goodPath ps" "cleanAbs p = absPath ps" using cleanAbs_form by blast
  have ok: "lookup s (absPath ps) ff d = Ok m"
    using Suc.prems(2) ps lookup_cleanAbs by metis
  have nested: "lookup s' q True (d + 1) = Ok x" if "lookup s q True (d + 1) = Ok x" for q x
    using Suc.hyps(1) [OF k _ that] Suc.prems(1) lookup_depth_mono le_add1 by metis
  have nodel: "\<not> isDeleted s (absPath ps)" and
    walk: "lookupWalk s (absPath []) (fs_root (base s)) ps ff d = Ok m"
    using ok ps d by (auto simp: lookup_absPath split: if_splits)
  have "[] @ take j ps \<noteq> P @ [nm]" if "j \<le> length ps" for j
  proof
    assume j: "[] @ take j ps = P @ [nm]"
    obtain r where r: "ps = (P @ [nm]) @ r" using j by (metis append_Nil append_take_drop_id)
    have "\<not> isDeleted s (absPath P)"
      using nodel r ps isDeleted_prefix [of P "nm # r" s] by auto
    moreover have "\<exists>n. lookupWalk s (absPath []) (fs_root (base s)) P True d = Ok n"
      using lookupWalk_prefix [of "[]" "nm # r" ff s "fs_root (base s)" P d m] walk r ps by simp
    ultimately show False using Suc.prems(1) ag d by (auto simp: lookup_absPath)
  qed
  then have "lookupWalk s' (absPath []) (fs_root (base s)) ps ff d = Ok m"
    using lookupWalk_frame [OF ag(1) _ nested, of "[]" ps "fs_root (base s)" ff m] ag ps walk by auto
  then have "lookup s' (absPath ps) ff d = Ok m"
    using agreeBut_isDeleted [OF ag(1) ps(1) nodel] ag ps d by (auto simp: lookup_absPath agreeBut_def)
  then show ?case using ps lookup_cleanAbs by metis
qed

text \<open>The parent of a new key resolves to the same node before and after.\<close>

lemma lookup_frame_parent:
  assumes ag: "agreeBut (absPath (P @ [nm])) s s'" "goodPath P" "goodName nm"
    and ok: "lookup s (absPath P) True 0 = Ok n"
  shows "lookup s' (absPath P) True 0 = Ok n"
proof -
  let ?S = "\<lambda>d. lookup s (absPath P) True d = Ok n"
  have top: "\<not> ?S (Suc maxLinkDepth)" by (simp add: lookup.simps)
  obtain D where D: "?S D" "\<not> ?S (Suc D)"
    using ex_least_nat_less [of "\<lambda>d. \<not> ?S d", OF top] ok by auto
  then have no: "lookup s (absPath P) True (D + 1) \<noteq> Ok x" for x
    using lookup_depth_mono [of s "absPath P" True "D + 1" x D] by auto
  have nested: "lookup s' p True (D + 1) = Ok m" if "lookup s p True (D + 1) = Ok m" for p m
    using lookup_frame_deep [OF ag no that] .
  have dd: "\<not> maxLinkDepth < D" "\<not> isDeleted s (absPath P)"
    and walk: "lookupWalk s (absPath []) (fs_root (base s)) P True D = Ok n"
    using D(1) ag by (auto simp: lookup_absPath split: if_splits)
  have "[] @ take k P \<noteq> P @ [nm]" for k
  proof
    assume "[] @ take k P = P @ [nm]"
    then have "length (take k P) = Suc (length P)" by simp
    then show False by simp
  qed
  then have "lookupWalk s' (absPath []) (fs_root (base s)) P True D = Ok n"
    using lookupWalk_frame [OF ag(1) _ nested, of "[]" P] walk ag by simp
  then have "lookup s' (absPath P) True D = Ok n"
    using dd agreeBut_isDeleted [OF ag(1,2)] ag by (auto simp: lookup_absPath agreeBut_def)
  then show ?thesis by (rule lookup_depth_mono) simp
qed

section \<open>The session invariant\<close>

definition keyOk :: "string \<Rightarrow> bool" where
  "keyOk p = (cleanAbs p = p \<and> p \<noteq> ''/'')"

definition sessionInv :: "session \<Rightarrow> bool" where
  "sessionInv s = (mapok (overlay s) \<and> mapok (deleted s) \<and> cleanAbs (cwd s) = cwd s \<and>
     list_all (\<lambda>pn. keyOk (fst pn) \<and> Name (snd pn) = baseName (fst pn) \<and> children (snd pn) = []
        \<and> \<not> IsLink (snd pn) \<and> \<not> n_stub (info (snd pn)) \<and> fileBytes (snd pn) \<le> maxOverlayFileBytes)
       (overlay s) \<and>
     list_all (\<lambda>pb. keyOk (fst pb) \<and> snd pb \<and> mget (overlay s) (fst pb) = None) (deleted s) \<and>
     bytes s = msum fileBytes (overlay s) \<and> bytes s \<le> maxOverlayBytes)"

lemma keyOk_iff: "keyOk p \<longleftrightarrow> (\<exists>cs c. goodPath cs \<and> goodName c \<and> p = absPath (cs @ [c]))"
proof
  assume k: "keyOk p"
  obtain cs where cs: "goodPath cs" "cleanAbs p = absPath cs" using cleanAbs_form by blast
  with k show "\<exists>cs c. goodPath cs \<and> goodName c \<and> p = absPath (cs @ [c])"
    by (cases cs rule: rev_cases) (auto simp: keyOk_def)
qed (auto simp: keyOk_def)

lemma Resolve_key:
  assumes "cleanAbs (cwd s) = cwd s" "Resolve s p \<noteq> ''/''"
  obtains cs c where "goodPath cs" "goodName c" "Resolve s p = absPath (cs @ [c])"
proof -
  obtain cs where "goodPath cs" "Resolve s p = absPath cs"
    using Resolve_form [OF assms(1)] by blast
  with assms(2) that show thesis by (cases cs rule: rev_cases) auto
qed

lemma fileNode_simps [simp]:
  "IsDir (fileNode p now c) = False" "IsLink (fileNode p now c) = False"
  "Name (fileNode p now c) = baseName p" "children (fileNode p now c) = []"
  "n_stub (info (fileNode p now c)) = False" "Content (fileNode p now c) = c"
  "fileBytes (fileNode p now c) = int (length c)"
  by (simp_all add: fileNode_def IsDir_def IsLink_def Mode_def Name_def Content_def fileBytes_def
      ModeDir_def ModeSymlink_def emptyInode_def)

lemma dirNode_simps [simp]:
  "IsDir (dirNode p now) = True" "IsLink (dirNode p now) = False"
  "Name (dirNode p now) = baseName p" "children (dirNode p now) = []"
  "n_stub (info (dirNode p now)) = False" "fileBytes (dirNode p now) = 0"
  by (simp_all add: dirNode_def IsDir_def IsLink_def Mode_def Name_def fileBytes_def
      ModeDir_def ModeSymlink_def emptyInode_def)

lemma fileBytes_nonneg [simp]: "0 \<le> fileBytes n"
  by (simp add: fileBytes_def)

lemma oldLen_mweight:
  "(case mget ov ap of
      Some prev \<Rightarrow> if \<not> IsDir prev then int (length (n_content (info prev))) else 0
    | None \<Rightarrow> 0) = mweight fileBytes ov ap"
  by (simp add: mweight_def fileBytes_def split: option.splits)

text \<open>The successful branch of a write, with the charge written as the weight of the key.\<close>

lemma WriteFile_ok:
  assumes "WriteFile now s g p content = (None, s', g')"
  obtains pn where "Resolve s p \<noteq> ''/''" "lookup s (parentDir (Resolve s p)) True 0 = Ok pn" "IsDir pn"
    "int (length content) \<le> maxOverlayFileBytes"
    "bytes s - mweight fileBytes (overlay s) (Resolve s p) + int (length content) \<le> maxOverlayBytes"
    "mget (overlay s) (Resolve s p) \<noteq> None \<or> entries s < maxOverlayEntries"
    "reserveOverlay (int (length content) - mweight fileBytes (overlay s) (Resolve s p)) g = (True, g')"
    "s' = s\<lparr>deleted := mdel (Resolve s p) (deleted s),
             bytes := bytes s - mweight fileBytes (overlay s) (Resolve s p) + int (length content),
             overlay := mput (Resolve s p) (fileNode (Resolve s p) now content) (overlay s)\<rparr>"
  using assms
  by (auto simp: WriteFile_def Let_def oldLen_mweight not_less not_le
      split: if_splits sum.splits prod.splits bool.splits)

lemma WriteFile_fail:
  assumes "WriteFile now s g p content = (Some e, s', g')"
  shows "s' = s" "g' = g"
  using assms
  by (auto simp: WriteFile_def Let_def reserveOverlay_def split: if_splits sum.splits prod.splits bool.splits)

section \<open>Every operation keeps the invariant\<close>

named_theorems session_keeps \<open>operations keep the session invariant\<close>

lemma sessionInvD:
  assumes "sessionInv s"
  shows "mapok (overlay s)" "mapok (deleted s)" "cleanAbs (cwd s) = cwd s"
    "bytes s = msum fileBytes (overlay s)" "bytes s \<le> maxOverlayBytes"
    "\<And>p n. mget (overlay s) p = Some n \<Longrightarrow>
       keyOk p \<and> Name n = baseName p \<and> children n = [] \<and> \<not> IsLink n \<and> \<not> n_stub (info n) \<and>
       fileBytes n \<le> maxOverlayFileBytes"
    "\<And>p b. mget (deleted s) p = Some b \<Longrightarrow> keyOk p \<and> b \<and> mget (overlay s) p = None"
  using assms by (auto simp: sessionInv_def list_all_iff dest!: mget_in)

lemma NewSession_inv [session_keeps]: "sessionInv (NewSession f c)"
proof -
  have "cleanAbs (cleanAbs q) = cleanAbs q" for q
    using cleanAbs_form [of q] by auto
  then show ?thesis
    by (simp add: sessionInv_def NewSession_def maxOverlayBytes_def Let_def)
qed

lemma Resolve_keyOk: "sessionInv s \<Longrightarrow> Resolve s p \<noteq> ''/'' \<Longrightarrow> keyOk (Resolve s p)"
  using Resolve_key [OF sessionInvD(3)] keyOk_iff by metis

lemma put_node_inv:
  assumes inv: "sessionInv s" and k: "keyOk ap"
    and n: "Name n = baseName ap" "children n = []" "\<not> IsLink n" "\<not> n_stub (info n)"
      "fileBytes n \<le> maxOverlayFileBytes"
    and b: "b = bytes s - mweight fileBytes (overlay s) ap + fileBytes n" "b \<le> maxOverlayBytes"
  shows "sessionInv (s\<lparr>deleted := mdel ap (deleted s), bytes := b, overlay := mput ap n (overlay s)\<rparr>)"
proof -
  have "list_all (\<lambda>pb. keyOk (fst pb) \<and> snd pb \<and> mget (mput ap n (overlay s)) (fst pb) = None)
          (mdel ap (deleted s))"
    using inv list_all_mdel_key [of _ "deleted s" ap] by (auto simp: sessionInv_def list_all_iff mdel_def)
  with assms show ?thesis
    by (simp add: sessionInv_def msum_mput list_all_mput)
qed

lemma WriteFile_inv [session_keeps]:
  assumes "sessionInv s"
  shows "sessionInv (fst (snd (WriteFile now s g p content)))"
proof (cases "fst (WriteFile now s g p content)")
  case None
  then obtain s' g' where w: "WriteFile now s g p content = (None, s', g')"
    by (metis prod.collapse)
  then show ?thesis
  proof (rule WriteFile_ok, goal_cases)
    case (1 pn)
    have "sessionInv s'"
      unfolding 1(8) using 1 assms Resolve_keyOk [OF assms 1(1)] by (intro put_node_inv) auto
    then show ?case using w by simp
  qed
next
  case (Some e)
  then obtain s' g' where w: "WriteFile now s g p content = (Some e, s', g')"
    by (metis prod.collapse)
  then show ?thesis using WriteFile_fail [OF w] assms by simp
qed

lemma Mkdir_ok:
  assumes "Mkdir now s p = (None, s')"
  obtains pn where "Resolve s p \<noteq> ''/''" "lookup s (parentDir (Resolve s p)) True 0 = Ok pn" "IsDir pn"
    "\<not> isOk (lookup s (Resolve s p) False 0)"
    "mget (deleted s) (Resolve s p) \<noteq> None \<or> entries s < maxOverlayEntries"
    "s' = s\<lparr>deleted := mdel (Resolve s p) (deleted s),
             overlay := mput (Resolve s p) (dirNode (Resolve s p) now) (overlay s)\<rparr>"
  using assms by (auto simp: Mkdir_def Let_def split: if_splits sum.splits)

lemma Mkdir_fail: "Mkdir now s p = (Some e, s') \<Longrightarrow> s' = s"
  by (auto simp: Mkdir_def Let_def split: if_splits sum.splits)

text \<open>
  A directory is only made where nothing is visible, so it never replaces a file that was charged.
\<close>

lemma Mkdir_fresh:
  assumes inv: "sessionInv s" and mk: "Mkdir now s p = (None, s')"
  shows "mget (overlay s) (Resolve s p) = None"
proof (rule ccontr)
  assume "mget (overlay s) (Resolve s p) \<noteq> None"
  then obtain n where n: "mget (overlay s) (Resolve s p) = Some n" by auto
  have k: "keyOk (Resolve s p)" and nl: "\<not> IsLink n" using sessionInvD(6) [OF inv n] by auto
  then obtain cs c where cs: "goodPath cs" "goodName c" "Resolve s p = absPath (cs @ [c])"
    by (auto simp: keyOk_iff)
  from mk show False
  proof (rule Mkdir_ok)
    fix pn
    assume a: "lookup s (parentDir (Resolve s p)) True 0 = Ok pn" "IsDir pn"
      "\<not> isOk (lookup s (Resolve s p) False 0)"
    have nd: "\<not> isDeleted s (absPath cs)"
      using a cs by (auto simp: lookup_absPath split: if_splits)
    have "mget (deleted s) (absPath (cs @ [c])) = None"
      using sessionInvD(7) [OF inv] n cs by (metis option.exhaust option.distinct(1))
    then have "\<not> isDeleted s (absPath (cs @ [c]))"
      using nd cs by (simp add: isDeleted_snoc)
    then have "lookup s (absPath (cs @ [c])) False 0 = Ok n"
      using a cs n nl by (simp add: lookup_snoc lookupWalk.simps(2) child_absPath)
    then show False using a cs by simp
  qed
qed

lemma Mkdir_inv [session_keeps]:
  assumes inv: "sessionInv s"
  shows "sessionInv (snd (Mkdir now s p))"
proof (cases "Mkdir now s p")
  case (Pair r s')
  show ?thesis
  proof (cases r)
    case None
    with Pair have m: "Mkdir now s p = (None, s')" by simp
    from m show ?thesis
    proof (rule Mkdir_ok)
      assume a: "Resolve s p \<noteq> ''/''" and s': "s' = s\<lparr>deleted := mdel (Resolve s p) (deleted s),
             overlay := mput (Resolve s p) (dirNode (Resolve s p) now) (overlay s)\<rparr>"
      have "mweight fileBytes (overlay s) (Resolve s p) = 0"
        using Mkdir_fresh [OF inv m] by (simp add: mweight_def)
      then have "sessionInv (s\<lparr>deleted := mdel (Resolve s p) (deleted s), bytes := bytes s,
             overlay := mput (Resolve s p) (dirNode (Resolve s p) now) (overlay s)\<rparr>)"
        using inv a Resolve_keyOk sessionInvD(5) [OF inv]
        by (intro put_node_inv) (auto simp: maxOverlayFileBytes_def)
      then show ?thesis using m s' by simp
    qed
  next
    case (Some e)
    with Pair inv show ?thesis by (auto dest: Mkdir_fail)
  qed
qed

lemma Remove_ok:
  assumes "Remove s g p = (None, s', g')"
  obtains n where "Resolve s p \<noteq> ''/''" "lookup s (Resolve s p) False 0 = Ok n"
    "s' = s\<lparr>bytes := bytes s - mweight fileBytes (overlay s) (Resolve s p),
             overlay := mdel (Resolve s p) (overlay s), deleted := mput (Resolve s p) True (deleted s)\<rparr>"
    "g' = g - mweight fileBytes (overlay s) (Resolve s p)"
  using assms
  by (auto simp: Remove_def Let_def mweight_def fileBytes_def reserveOverlay_def
      split: if_splits sum.splits option.splits)

lemma Remove_fail: "Remove s g p = (Some e, s', g') \<Longrightarrow> s' = s \<and> g' = g"
  by (auto simp: Remove_def Let_def split: if_splits sum.splits option.splits)

lemma Remove_inv [session_keeps]:
  assumes inv: "sessionInv s"
  shows "sessionInv (fst (snd (Remove s g p)))"
proof (cases "Remove s g p")
  case (fields r s' g')
  show ?thesis
  proof (cases r)
    case None
    with fields have m: "Remove s g p = (None, s', g')" by simp
    from m show ?thesis
    proof (rule Remove_ok)
      let ?ap = "Resolve s p"
      assume a: "?ap \<noteq> ''/''" and s': "s' = s\<lparr>bytes := bytes s - mweight fileBytes (overlay s) ?ap,
             overlay := mdel ?ap (overlay s), deleted := mput ?ap True (deleted s)\<rparr>"
      have k: "keyOk ?ap" using inv a by (rule Resolve_keyOk)
      have ok: "list_all (\<lambda>pb. keyOk (fst pb) \<and> snd pb \<and> mget (mdel ?ap (overlay s)) (fst pb) = None)
              (mput ?ap True (deleted s))"
        using inv k by (intro list_all_mput) (auto simp: sessionInv_def list_all_iff)
      have "0 \<le> mweight fileBytes (overlay s) ?ap"
        by (simp add: mweight_def split: option.splits)
      with s' ok inv k have "sessionInv s'"
        by (simp add: sessionInv_def msum_mdel list_all_mdel)
      then show ?thesis using m by simp
    qed
  next
    case (Some e)
    with fields inv show ?thesis by (auto dest: Remove_fail)
  qed
qed

lemma Chdir_inv [session_keeps]:
  assumes inv: "sessionInv s"
  shows "sessionInv (snd (Chdir s p))"
proof -
  have "cleanAbs (Resolve s p) = Resolve s p"
    using Resolve_form [OF sessionInvD(3) [OF inv], of p] by auto
  with inv show ?thesis
    by (auto simp: Chdir_def Let_def sessionInv_def split: sum.splits)
qed

section \<open>Reading back what was written\<close>

lemma Resolve_cwd: "cwd s' = cwd s \<Longrightarrow> Resolve s' p = Resolve s p"
  by (simp add: Resolve_def)

lemma put_agreeBut:
  "agreeBut ap s (s\<lparr>deleted := mdel ap (deleted s), bytes := b, overlay := mput ap n (overlay s)\<rparr>)"
  by (auto simp: agreeBut_def split: if_splits)

text \<open>
  A node put at a key whose parent resolves to a directory is found under that key, whether or not
  the final link is followed.
\<close>

lemma lookup_put:
  assumes g: "goodPath cs" "goodName c" and ap: "ap = absPath (cs @ [c])"
    and par: "lookup s (absPath cs) True 0 = Ok pn" "IsDir pn" and nl: "\<not> IsLink n"
    and s': "s' = s\<lparr>deleted := mdel ap (deleted s), bytes := b, overlay := mput ap n (overlay s)\<rparr>"
  shows "lookup s' ap ff 0 = Ok n"
proof -
  have ag: "agreeBut (absPath (cs @ [c])) s s'"
    using put_agreeBut s' ap by simp
  have par': "lookup s' (absPath cs) True 0 = Ok pn"
    by (rule lookup_frame_parent [OF ag g par(1)])
  then have "\<not> isDeleted s' (absPath cs)"
    using g by (auto simp: lookup_absPath split: if_splits)
  then have nd: "\<not> isDeleted s' ap"
    using g ap s' by (simp add: isDeleted_snoc)
  then have "child s' (absPath cs) pn c = Some n"
    using g ap s' by (simp add: child_absPath)
  then show ?thesis
    using nd par' par(2) nl g ap by (simp add: lookup_snoc lookupWalk.simps(2))
qed

lemma WriteFile_lookup:
  assumes inv: "sessionInv s" and w: "WriteFile now s g p content = (None, s', g')"
  shows "lookup s' (Resolve s p) ff 0 = Ok (fileNode (Resolve s p) now content) \<and> cwd s' = cwd s"
  using w
proof (rule WriteFile_ok, goal_cases)
  case (1 pn)
  obtain cs c where cs: "goodPath cs" "goodName c" "Resolve s p = absPath (cs @ [c])"
    using Resolve_key [OF sessionInvD(3) [OF inv] 1(1)] .
  with 1 have "lookup s (absPath cs) True 0 = Ok pn" by simp
  from lookup_put [OF cs this 1(3) _ 1(8)] 1(8) show ?case by simp
qed

text \<open>A small tree for the witnesses: \<open>/etc/hosts\<close>, \<open>/tmp\<close> and the link \<open>/t -> tmp\<close>.\<close>

definition demoDir :: "string \<Rightarrow> (string, node) gomap \<Rightarrow> node" where
  "demoDir nm cs = Node (emptyInode\<lparr>n_name := nm, n_mode := ModeDir OR 0x1ED\<rparr>) cs"

definition demoFS :: FS where
  "demoFS = \<lparr>fs_root = demoDir ''/''
     [(''etc'', demoDir ''etc'' [(''hosts'', Node (emptyInode\<lparr>n_name := ''hosts'', n_mode := 0x1A4,
                                    n_content := ''localhost''\<rparr>) [])]),
      (''tmp'', demoDir ''tmp'' []),
      (''t'', Node (emptyInode\<lparr>n_name := ''t'', n_mode := ModeSymlink OR 0x1FF, n_link := ''tmp''\<rparr>) [])]\<rparr>"

abbreviation demoSession :: session where
  "demoSession \<equiv> NewSession demoFS ''/etc''"

text \<open>
  C1: after a successful write the session reads back exactly the bytes written, through any symbolic
  links and over any earlier deletion of the path.
\<close>

theorem write_then_read:
  assumes "sessionInv s" "WriteFile now s g p content = (None, s', g')"
  shows "ReadFile s' p = Ok content"
  using WriteFile_lookup [OF assms, of True] Resolve_cwd [of s' s p]
  by (simp add: ReadFile_def)

lemma write_then_read_witness:
  "ReadFile (fst (snd (WriteFile 7 demoSession 0 ''../t/x'' ''hello''))) ''../t/x'' = Ok ''hello''"
proof (rule write_then_read [OF NewSession_inv [of demoFS "''/etc''"]])
  show "WriteFile 7 demoSession 0 ''../t/x'' ''hello'' =
      (None, fst (snd (WriteFile 7 demoSession 0 ''../t/x'' ''hello'')),
       snd (snd (WriteFile 7 demoSession 0 ''../t/x'' ''hello'')))"
    by code_simp
qed

lemma Mkdir_lookup:
  assumes inv: "sessionInv s" and m: "Mkdir now s p = (None, s')"
  shows "lookup s' (Resolve s p) ff 0 = Ok (dirNode (Resolve s p) now) \<and> cwd s' = cwd s"
  using m
proof (rule Mkdir_ok, goal_cases)
  case (1 pn)
  obtain cs c where cs: "goodPath cs" "goodName c" "Resolve s p = absPath (cs @ [c])"
    using Resolve_key [OF sessionInvD(3) [OF inv] 1(1)] .
  have s': "s' = s\<lparr>deleted := mdel (Resolve s p) (deleted s), bytes := bytes s,
             overlay := mput (Resolve s p) (dirNode (Resolve s p) now) (overlay s)\<rparr>"
    using 1(6) by simp
  from 1 cs have "lookup s (absPath cs) True 0 = Ok pn" by simp
  from lookup_put [OF cs this 1(3) _ s'] 1(6) show ?case by simp
qed

lemma lookup_deleted_prefix:
  assumes "goodPath (cs @ ds)" "isDeleted s (absPath cs)"
  shows "lookup s (absPath (cs @ ds)) ff d = Err ErrNotExist"
  using isDeleted_prefix [OF assms] assms by (simp add: lookup_absPath)

lemma Remove_deleted:
  assumes "Remove s g p = (None, s', g')"
  shows "isDeleted s' (Resolve s p)"
  using assms
  by (rule Remove_ok) (simp add: isDeleted_def isDeletedFrom.simps [of _ _ "Resolve s p"])

section \<open>Listings\<close>

fun wfNode :: "node \<Rightarrow> bool" where
  "wfNode (Node i cs) =
     (mapok cs \<and> list_all (\<lambda>kc. goodName (fst kc) \<and> Name (snd kc) = fst kc \<and> wfNode (snd kc)) cs)"

lemma wfNode_child: "wfNode n \<Longrightarrow> childOf n k = Some c \<Longrightarrow> wfNode c \<and> Name c = k \<and> goodName k"
  by (cases n) (auto simp: childOf_def list_all_iff dest!: mget_in)

lemma wfNode_leaf: "children n = [] \<Longrightarrow> wfNode n"
  by (cases n) simp

lemma child_wf:
  assumes "sessionInv s" "wfNode nd" "child s cur nd nm = Some c"
  shows "wfNode c"
  using assms sessionInvD(6) [OF assms(1)] wfNode_child wfNode_leaf
  by (auto simp: child_def Let_def split: if_splits option.splits)

lemma lookup_wf_aux:
  "sessionInv s \<Longrightarrow> wfNode (fs_root (base s)) \<Longrightarrow> lookup s p ff d = Ok n \<Longrightarrow> wfNode n"
  "sessionInv s \<Longrightarrow> wfNode (fs_root (base s)) \<Longrightarrow> wfNode nd \<Longrightarrow>
     lookupWalk s cur nd ps ff d = Ok n \<Longrightarrow> wfNode n"
proof (induction s p ff d and s cur nd ps ff d arbitrary: n and n rule: lookup_lookupWalk.induct)
  case (1 s p ff d)
  then show ?case
    by (auto simp: lookup.simps [of s p ff d] Let_def split: if_splits)
next
  case (2 s cur nd ff d)
  then show ?case by simp
next
  case (3 s cur nd nm rest ff d)
  from 3(7) obtain c where c: "IsDir nd" "child s cur nd nm = Some c"
    by (auto simp: lookupWalk.simps(2) split: if_splits option.splits)
  have wc: "wfNode c" using child_wf [OF 3(4,6) c(2)] .
  have nn: "\<not> \<not> IsDir nd" using c by simp
  show ?case
  proof (cases "IsLink c \<and> (rest \<noteq> [] \<or> ff)")
    case True
    with 3(7) c obtain t where t: "lookup s (linkPath cur c) True (d + 1) = Ok t"
      "lookupWalk s (path_Join cur nm) t rest ff d = Ok n"
      by (auto simp: lookupWalk.simps(2) split: sum.splits)
    have "wfNode t" by (rule 3(1) [OF nn c(2) True 3(4,5) t(1)])
    then show ?thesis by (rule 3(2) [OF nn c(2) True t(1) 3(4,5) _ t(2)])
  next
    case False
    with 3(7) c have w: "lookupWalk s (path_Join cur nm) c rest ff d = Ok n"
      by (auto simp: lookupWalk.simps(2))
    show ?thesis by (rule 3(3) [OF nn c(2) False 3(4,5) wc w])
  qed
qed

lemmas lookup_wf = lookup_wf_aux(1)

lemma foldl_mput_map:
  "mapok m \<Longrightarrow> mget (foldl (\<lambda>seen nc. mput (fst nc) (snd nc) seen) acc m) k =
     (case mget m k of Some v \<Rightarrow> Some v | None \<Rightarrow> mget acc k)"
proof (induction m arbitrary: acc)
  case (Cons p m)
  then have "mapok m" "mget m (fst p) = None" by (auto simp: mapok_def mget_None)
  with Cons.IH [of "mput (fst p) (snd p) acc"] show ?case
    by (cases p) (auto split: option.splits)
qed simp

lemma foldl_overlay:
  assumes "goodPath cs" "goodName k"
  shows "mapok ov \<Longrightarrow> list_all (keyOk \<circ> fst) ov \<Longrightarrow>
    mget (foldl (\<lambda>seen on. if parentDir (fst on) = absPath cs
                          then mput (baseName (fst on)) (snd on) seen else seen) acc ov) k =
      (case mget ov (absPath (cs @ [k])) of Some v \<Rightarrow> Some v | None \<Rightarrow> mget acc k)"
proof (induction ov arbitrary: acc)
  case (Cons p ov)
  obtain q n where p: "p = (q, n)" by (cases p)
  obtain ds d where q: "goodPath ds" "goodName d" "q = absPath (ds @ [d])"
    using Cons.prems p by (auto simp: keyOk_iff)
  have key: "q = absPath (cs @ [k]) \<longleftrightarrow> parentDir q = absPath cs \<and> baseName q = k"
    using q assms by (auto simp: absPath_inj)
  have ov: "mapok ov" "list_all (keyOk \<circ> fst) ov" and "q \<notin> fst ` set ov"
    using Cons.prems p by (auto simp: mapok_def comp_def)
  then have "q = absPath (cs @ [k]) \<Longrightarrow> mget ov (absPath (cs @ [k])) = None"
    by (simp add: mget_None)
  with Cons.IH [OF ov] p key show ?case by (auto split: option.splits)
qed simp

lemma mapok_foldl: "(\<And>x m. mapok m \<Longrightarrow> mapok (f m x)) \<Longrightarrow> mapok acc \<Longrightarrow> mapok (foldl f acc xs)"
  by (induction xs arbitrary: acc) auto

lemma mapok_seenNames: "mapok (seenNames s ap nd)"
  unfolding seenNames_def by (rule mapok_foldl) (auto intro!: mapok_foldl)

lemma mget_seenNames:
  assumes inv: "sessionInv s" and wf: "wfNode nd" and g: "goodPath cs" "goodName k"
  shows "mget (seenNames s (absPath cs) nd) k =
    (case mget (overlay s) (absPath (cs @ [k])) of Some v \<Rightarrow> Some v | None \<Rightarrow> childOf nd k)"
proof -
  have mo: "mapok (children nd)" using wf by (cases nd) simp
  have "list_all (keyOk \<circ> fst) (overlay s)"
    using inv by (auto simp: sessionInv_def list_all_iff)
  then show ?thesis
    using foldl_overlay [OF g sessionInvD(1) [OF inv]] foldl_mput_map [OF mo]
    by (auto simp: seenNames_def childOf_def split: option.splits)
qed

lemma seenNames_name:
  assumes inv: "sessionInv s" and wf: "wfNode nd" and g: "goodPath cs"
    and k: "(k, c) \<in> set (seenNames s (absPath cs) nd)"
  shows "goodName k \<and> Name c = k"
proof -
  let ?P = "\<lambda>kc. goodName (fst kc) \<and> Name (snd kc) = fst kc"
  have fold: "list_all ?P (foldl f acc xs)"
    if "list_all ?P acc" "\<And>x m. x \<in> set xs \<Longrightarrow> list_all ?P m \<Longrightarrow> list_all ?P (f m x)"
    for f :: "(string, node) gomap \<Rightarrow> 'x \<Rightarrow> _" and acc xs
    using that by (induction xs arbitrary: acc) auto
  have bc: "list_all ?P (foldl (\<lambda>seen nc. mput (fst nc) (snd nc) seen) [] (children nd))"
  proof (rule fold)
    fix x and m :: "(string, node) gomap"
    assume "x \<in> set (children nd)" "list_all ?P m"
    moreover have "list_all ?P (children nd)" using wf by (cases nd) (auto simp: list_all_iff)
    ultimately show "list_all ?P (mput (fst x) (snd x) m)"
      by (intro list_all_mput) (auto simp: list_all_iff)
  qed simp
  have ov: "goodName (baseName q) \<and> Name n = baseName q" if "(q, n) \<in> set (overlay s)" for q n
  proof -
    have "mget (overlay s) q = Some n" using that sessionInvD(1) [OF inv] by (simp add: mget_iff)
    from sessionInvD(6) [OF inv this] show ?thesis by (auto simp: keyOk_iff)
  qed
  have "list_all ?P (seenNames s (absPath cs) nd)"
    unfolding seenNames_def by (rule fold [OF bc]) (auto intro!: list_all_mput dest: ov)
  with k show ?thesis by (auto simp: list_all_iff)
qed

lemma ReadDir_ok:
  assumes "ReadDir s p = Ok out"
  obtains nd where "lookup s (Resolve s p) True 0 = Ok nd" "IsDir nd"
    "out = sort_key Name (map snd (filter (\<lambda>nc. \<not> isDeleted s (path_Join (Resolve s p) (fst nc)))
             (seenNames s (Resolve s p) nd)))"
  using assms by (auto simp: ReadDir_def Let_def split: sum.splits if_splits)

lemma lookup_child:
  assumes inv: "sessionInv s" and wf: "wfNode (fs_root (base s))" and g: "goodPath cs" "goodName k"
    and nd: "lookup s (absPath cs) True 0 = Ok nd" "IsDir nd"
  shows "lookup s (absPath (cs @ [k])) False 0 = Ok c \<longleftrightarrow>
    \<not> isDeleted s (absPath (cs @ [k])) \<and> mget (seenNames s (absPath cs) nd) k = Some c"
  using mget_seenNames [OF inv lookup_wf [OF inv wf nd(1)] g] nd g
  by (auto simp: lookup_snoc lookupWalk.simps child_absPath split: option.splits)

lemma ReadDir_iff:
  assumes inv: "sessionInv s" and wf: "wfNode (fs_root (base s))" and rd: "ReadDir s p = Ok out"
    and g: "goodName k"
  shows "Lstat s (path_Join (Resolve s p) k) = Ok c \<longleftrightarrow> c \<in> set out \<and> Name c = k"
  using rd
proof (rule ReadDir_ok, goal_cases)
  case (1 nd)
  obtain cs where cs: "goodPath cs" "Resolve s p = absPath cs"
    using Resolve_form [OF sessionInvD(3) [OF inv]] by blast
  let ?seen = "seenNames s (absPath cs) nd"
  have wfn: "wfNode nd" using lookup_wf [OF inv wf 1(1)] .
  have out: "c \<in> set out \<longleftrightarrow> (\<exists>j. (j, c) \<in> set ?seen \<and> \<not> isDeleted s (path_Join (absPath cs) j))"
    using 1(3) cs by force
  have "Resolve s (absPath (cs @ [k])) = absPath (cs @ [k])"
    using cs g by (simp add: Resolve_def)
  then have "Lstat s (path_Join (Resolve s p) k) = lookup s (absPath (cs @ [k])) False 0"
    using cs g by (simp add: Lstat_def)
  also have "\<dots> = Ok c \<longleftrightarrow> \<not> isDeleted s (absPath (cs @ [k])) \<and> (k, c) \<in> set ?seen"
    using lookup_child [OF inv wf cs(1) g] 1 cs mapok_seenNames by (simp add: mget_iff)
  also have "\<dots> \<longleftrightarrow> c \<in> set out \<and> Name c = k"
    using out seenNames_name [OF inv wfn cs(1)] cs(1) g by fastforce
  finally show ?case .
qed

lemma ReadDir_sorted_distinct:
  assumes inv: "sessionInv s" and wf: "wfNode (fs_root (base s))" and rd: "ReadDir s p = Ok out"
  shows "sorted (map Name out) \<and> distinct (map Name out)"
  using rd
proof (rule ReadDir_ok, goal_cases)
  case (1 nd)
  obtain cs where cs: "goodPath cs" "Resolve s p = absPath cs"
    using Resolve_form [OF sessionInvD(3) [OF inv]] by blast
  let ?f = "filter (\<lambda>nc. \<not> isDeleted s (path_Join (Resolve s p) (fst nc))) (seenNames s (Resolve s p) nd)"
  have wfn: "wfNode nd" using lookup_wf [OF inv wf 1(1)] .
  have "map Name (map snd ?f) = map fst ?f"
    using seenNames_name [OF inv wfn cs(1)] cs by auto
  moreover have "distinct (map fst ?f)"
    using mapok_seenNames [of s "Resolve s p" nd] by (simp add: mapok_def distinct_map_filter)
  ultimately have "distinct (map Name (map snd ?f))" by (simp only:)
  then have "distinct (map Name (sort_key Name (map snd ?f)))"
    by (metis mset_map mset_sort mset_eq_imp_distinct_iff)
  with 1(3) show ?case by simp
qed

text \<open>
  C3: a listing and the lookups of a session agree: a name is listed exactly when \<open>Lstat\<close> finds a node
  under it in the listed directory, and it is that node; the listing is sorted by name with no name
  twice.
\<close>

theorem readdir_agrees_with_lstat:
  assumes "sessionInv s" "wfNode (fs_root (base s))" "ReadDir s p = Ok out"
  shows "(\<forall>c. c \<in> set out \<longrightarrow> Lstat s (path_Join (Resolve s p) (Name c)) = Ok c) \<and>
    (\<forall>k c. goodName k \<longrightarrow> Lstat s (path_Join (Resolve s p) k) = Ok c \<longrightarrow> c \<in> set out \<and> Name c = k) \<and>
    sorted (map Name out) \<and> distinct (map Name out)"
proof (intro conjI allI impI)
  fix c
  assume c: "c \<in> set out"
  from assms(3) have "goodName (Name c)"
  proof (rule ReadDir_ok, goal_cases)
    case (1 nd)
    obtain cs where cs: "goodPath cs" "Resolve s p = absPath cs"
      using Resolve_form [OF sessionInvD(3) [OF assms(1)]] by blast
    show ?case
      using 1 c cs seenNames_name [OF assms(1) lookup_wf [OF assms(1,2) 1(1)] cs(1)] by auto
  qed
  from ReadDir_iff [OF assms this, of c] c
  show "Lstat s (path_Join (Resolve s p) (Name c)) = Ok c" by simp
qed (use ReadDir_iff [OF assms] ReadDir_sorted_distinct [OF assms] in blast)+

lemma ReadDir_demo:
  "ReadDir demoSession ''/'' = Ok [the (childOf (fs_root demoFS) ''etc''),
      the (childOf (fs_root demoFS) ''t''), the (childOf (fs_root demoFS) ''tmp'')]"
  by code_simp

lemma readdir_agrees_with_lstat_witness:
  "Lstat demoSession (path_Join (Resolve demoSession ''/'') ''etc'') = Ok (the (childOf (fs_root demoFS) ''etc''))"
proof -
  have "wfNode (fs_root (base demoSession))" by code_simp
  from readdir_agrees_with_lstat [OF NewSession_inv this, of "''/''" "[the (childOf (fs_root demoFS) ''etc''),
      the (childOf (fs_root demoFS) ''t''), the (childOf (fs_root demoFS) ''tmp'')]"]
  have "Lstat demoSession (path_Join (Resolve demoSession ''/'') (Name (the (childOf (fs_root demoFS) ''etc'')))) =
      Ok (the (childOf (fs_root demoFS) ''etc''))"
    by (auto simp: ReadDir_demo)
  moreover have "Name (the (childOf (fs_root demoFS) ''etc'')) = ''etc''" by code_simp
  ultimately show ?thesis by simp
qed

text \<open>
  C4: a removed path is gone for the session, together with everything below it, whichever of its
  names existed before.
\<close>

theorem remove_hides_subtree:
  assumes "sessionInv s" "Remove s g p = (None, s', g')" "goodPath ds"
  shows "Lstat s' (foldl path_Join (Resolve s p) ds) = Err ErrNotExist \<and>
    Stat s' (foldl path_Join (Resolve s p) ds) = Err ErrNotExist"
proof -
  obtain cs where cs: "goodPath cs" "Resolve s p = absPath cs"
    using Resolve_form [OF sessionInvD(3) [OF assms(1)]] by blast
  have "foldl path_Join (absPath xs) ds = absPath (xs @ ds)" if "goodPath xs" for xs
    using that assms(3) by (induction ds arbitrary: xs) auto
  then have f: "foldl path_Join (Resolve s p) ds = absPath (cs @ ds)" using cs by simp
  have r: "Resolve s' (absPath (cs @ ds)) = absPath (cs @ ds)"
    using cs assms(3) by (simp add: Resolve_def)
  have "isDeleted s' (absPath cs)" using Remove_deleted [OF assms(2)] cs by simp
  then show ?thesis
    using lookup_deleted_prefix [of cs ds s'] cs assms(3) f r by (simp add: Lstat_def Stat_def)
qed

lemma remove_hides_subtree_witness:
  "Lstat (fst (snd (Remove demoSession 0 ''.''))) (foldl path_Join (Resolve demoSession ''.'') [''hosts'']) =
    Err ErrNotExist"
proof -
  have "Remove demoSession 0 ''.'' = (None, fst (snd (Remove demoSession 0 ''.'')), snd (snd (Remove demoSession 0 ''.'')))"
    by code_simp
  from remove_hides_subtree [OF NewSession_inv this, of "[''hosts'']"] show ?thesis
    by (simp add: goodName_def)
qed

section \<open>What removal leaves behind\<close>

lemma Resolve_absPath: "goodPath cs \<Longrightarrow> Resolve s (absPath cs) = absPath cs"
  by (simp add: Resolve_def)

text \<open>
  Removing a directory only hides it: the files written below it stay in the overlay and stay
  charged, and making a directory of the same name again brings them back with their old contents.
\<close>

theorem recreated_directory_shows_old_files:
  assumes inv: "sessionInv s" and g: "goodPath cs" "goodName d" "goodName f"
    and n: "mget (overlay s) (absPath (cs @ [d, f])) = Some n" "\<not> IsDir n"
    and nod: "mget (overlay s) (absPath (cs @ [d])) = None \<or> IsDir (the (mget (overlay s) (absPath (cs @ [d]))))"
    and rm: "Remove s g (absPath (cs @ [d])) = (None, s1, g1)"
    and mk: "Mkdir now s1 (absPath (cs @ [d])) = (None, s2)"
  shows "ReadFile s2 (absPath (cs @ [d, f])) = Ok (n_content (info n)) \<and> bytes s1 = bytes s"
proof -
  let ?d = "absPath (cs @ [d])" and ?f = "absPath (cs @ [d, f])"
  have gd: "goodPath (cs @ [d])" "goodPath (cs @ [d, f])" using g by auto
  have ne: "?f \<noteq> ?d" using gd absPath_inj [of "cs @ [d, f]" "cs @ [d]"] by simp
  have nf: "\<not> IsLink n" "\<not> n_stub (info n)" using sessionInvD(6) [OF inv n(1)] by auto
  have del: "mget (deleted s) ?f = None"
    using sessionInvD(7) [OF inv] n by (metis option.exhaust option.distinct(1))
  have "mweight fileBytes (overlay s) ?d = 0"
    using nod by (auto simp: mweight_def fileBytes_def split: option.splits)
  then have s1: "s1 = s\<lparr>overlay := mdel ?d (overlay s), deleted := mput ?d True (deleted s)\<rparr>"
    using rm gd by (auto elim!: Remove_ok simp: Resolve_absPath)
  have inv1: "sessionInv s1" using Remove_inv [OF inv, of g ?d] rm by simp
  have look: "lookup s2 ?d True 0 = Ok (dirNode ?d now)"
    using Mkdir_lookup [OF inv1 mk, of True] gd by (simp add: Resolve_absPath)
  have s2: "overlay s2 = mput ?d (dirNode ?d now) (overlay s1)" "deleted s2 = mdel ?d (deleted s1)"
    using mk gd by (auto elim!: Mkdir_ok simp: Resolve_absPath)
  have "\<not> isDeleted s2 ?d" using look gd by (auto simp: lookup_absPath split: if_splits)
  then have nd: "\<not> isDeleted s2 (absPath ((cs @ [d]) @ [f]))"
    using isDeleted_snoc [OF gd(1) g(3), of s2] del ne s1 s2 by simp
  have "child s2 ?d (dirNode ?d now) f = Some n"
    using child_absPath [OF gd(1) g(3)] nd n ne s1 s2 by simp
  then have "lookup s2 (absPath ((cs @ [d]) @ [f])) True 0 = Ok n"
    using lookup_snoc [OF gd(1) g(3), of s2 True 0] nd look nf by (simp add: lookupWalk.simps(2))
  then show ?thesis
    using nf n gd s1 by (simp add: ReadFile_def Resolve_absPath Content_def)
qed

text \<open>
  The entry budget: a write of a new path and a new directory are refused once the session holds
  the maximum of overlay nodes and tombstones, but a removal of a shared file always adds a tombstone,
  whatever the session already holds.
\<close>

theorem entry_budget:
  "(WriteFile now s g p content = (None, s', g') \<and> mget (overlay s) (Resolve s p) = None \<longrightarrow>
      entries s < maxOverlayEntries \<and> entries s' \<le> maxOverlayEntries) \<and>
   (Mkdir now s p = (None, s'') \<and> mget (deleted s) (Resolve s p) = None \<longrightarrow>
      entries s < maxOverlayEntries \<and> entries s'' \<le> maxOverlayEntries) \<and>
   (Remove s g p = (None, s', g') \<and> mget (overlay s) (Resolve s p) = None \<and>
      mget (deleted s) (Resolve s p) = None \<longrightarrow> entries s' = entries s + 1)"
proof (intro conjI impI, goal_cases)
  case 1
  then show ?case by (auto elim!: WriteFile_ok)
next
  case 2
  then show ?case
    using length_mdel_le [of "Resolve s p" "deleted s"]
    by (auto elim!: WriteFile_ok simp: entries_def length_mput)
next
  case 3
  then show ?case by (auto elim!: Mkdir_ok)
next
  case 4
  then show ?case
    using length_mdel_le [of "Resolve s p" "deleted s"]
    by (auto elim!: Mkdir_ok simp: entries_def length_mput)
next
  case 5
  then show ?case by (auto elim!: Remove_ok simp: entries_def length_mput mdel_absent)
qed

lemma entry_budget_witness:
  "entries (fst (snd (Remove demoSession 0 ''hosts''))) = entries demoSession + 1"
proof -
  have "Remove demoSession 0 ''hosts'' =
      (None, fst (snd (Remove demoSession 0 ''hosts'')), snd (snd (Remove demoSession 0 ''hosts'')))"
    "mget (overlay demoSession) (Resolve demoSession ''hosts'') = None"
    "mget (deleted demoSession) (Resolve demoSession ''hosts'') = None"
    by code_simp+
  then show ?thesis using entry_budget [of 0 demoSession 0 "''hosts''"] by metis
qed

end
