(* ===== verification/VfsPool.thy ===== *)
theory VfsPool
  imports Vfs
begin

text \<open>
  Overlay memory across sessions (\<^verbatim>\<open>internal/vfs/session.go\<close>).  The first part abstracts a session
  to what the process-wide ceiling needs, the locale \<open>metered_store\<close>: an operation moves the shared
  counter by exactly what it does to its own store and never past the ceiling.  Its consequence for a
  pool of stores is proved once and holds of the sessions by interpretation.  The second part drops the
  assumption that an operation is atomic: each \<open>reserveOverlay\<close> is the two atomic additions of the
  source, interleaved with those of every other session.
\<close>

section \<open>The operations of one session\<close>

datatype vfs_op =
    OpWrite gotime string bytes
  | OpMkdir gotime string
  | OpRemove string
  | OpChdir string

fun execOp :: "vfs_op \<Rightarrow> session \<Rightarrow> int \<Rightarrow> session \<times> int" where
  "execOp (OpWrite now p content) s g = snd (WriteFile now s g p content)"
| "execOp (OpMkdir now p) s g = (snd (Mkdir now s p), g)"
| "execOp (OpRemove p) s g = snd (Remove s g p)"
| "execOp (OpChdir p) s g = (snd (Chdir s p), g)"

section \<open>Pools of metered stores\<close>

datatype ('id, 's, 'op) pool_event = Open 'id 's | Do 'id 'op | Close 'id

record ('id, 's) pool =
  members :: "('id, 's) gomap"
  counter :: int

text \<open>
  One event of the process: a connection opens its session, a session executes an operation, a
  connection ends and its session is released and dropped.
\<close>

inductive pool_step ::
  "('s \<Rightarrow> bool) \<Rightarrow> ('op \<Rightarrow> 's \<Rightarrow> int \<Rightarrow> 's \<times> int) \<Rightarrow> ('s \<Rightarrow> int \<Rightarrow> 's \<times> int) \<Rightarrow>
   ('id, 's) pool \<Rightarrow> ('id, 's, 'op) pool_event \<Rightarrow> ('id, 's) pool \<Rightarrow> bool"
  for fresh exec rel
where
  step_open: "mget (members P) i = None \<Longrightarrow> fresh s \<Longrightarrow>
     pool_step fresh exec rel P (Open i s) (P\<lparr>members := mput i s (members P)\<rparr>)"
| step_do: "mget (members P) i = Some s \<Longrightarrow> exec f s (counter P) = (s', g') \<Longrightarrow>
     pool_step fresh exec rel P (Do i f) (P\<lparr>members := mput i s' (members P), counter := g'\<rparr>)"
| step_close: "mget (members P) i = Some s \<Longrightarrow> rel s (counter P) = (s', g') \<Longrightarrow>
     pool_step fresh exec rel P (Close i) (P\<lparr>members := mdel i (members P), counter := g'\<rparr>)"

inductive_cases pool_stepE: "pool_step fresh exec rel P e Q"

inductive pool_run ::
  "('s \<Rightarrow> bool) \<Rightarrow> ('op \<Rightarrow> 's \<Rightarrow> int \<Rightarrow> 's \<times> int) \<Rightarrow> ('s \<Rightarrow> int \<Rightarrow> 's \<times> int) \<Rightarrow>
   ('id, 's) pool \<Rightarrow> ('id, 's, 'op) pool_event list \<Rightarrow> ('id, 's) pool \<Rightarrow> bool"
  for fresh exec rel
where
  run_nil: "pool_run fresh exec rel P [] P"
| run_step: "pool_step fresh exec rel P e Q \<Longrightarrow> pool_run fresh exec rel Q es R \<Longrightarrow>
     pool_run fresh exec rel P (e # es) R"

definition emptyPool :: "('id, 's) pool" where
  "emptyPool = \<lparr>members = [], counter = 0\<rparr>"

locale metered_store =
  fixes inv :: "'s \<Rightarrow> bool"
    and used :: "'s \<Rightarrow> int"
    and cap :: int
    and fresh :: "'s \<Rightarrow> bool"
    and exec :: "'op \<Rightarrow> 's \<Rightarrow> int \<Rightarrow> 's \<times> int"
    and rel :: "'s \<Rightarrow> int \<Rightarrow> 's \<times> int"
  assumes fresh_inv: "fresh s \<Longrightarrow> inv s \<and> used s = 0"
    and exec_inv: "inv s \<Longrightarrow> exec f s g = (s', g') \<Longrightarrow> inv s'"
    and exec_conserves: "inv s \<Longrightarrow> exec f s g = (s', g') \<Longrightarrow> g' - g = used s' - used s"
    and exec_capped: "inv s \<Longrightarrow> exec f s g = (s', g') \<Longrightarrow> g \<le> cap \<Longrightarrow> g' \<le> cap"
    and rel_returns: "inv s \<Longrightarrow> rel s g = (s', g') \<Longrightarrow> g' = g - used s"
    and used_nonneg: "inv s \<Longrightarrow> 0 \<le> used s"
    and cap_nonneg: "0 \<le> cap"
begin

definition poolInv :: "('id, 's) pool \<Rightarrow> bool" where
  "poolInv P = (mapok (members P) \<and> list_all (inv \<circ> snd) (members P) \<and>
     counter P = msum used (members P) \<and> counter P \<le> cap)"

lemma member_inv: "poolInv P \<Longrightarrow> mget (members P) i = Some s \<Longrightarrow> inv s"
  by (auto simp: poolInv_def list_all_iff dest!: mget_in)

lemma step_keeps: "pool_step fresh exec rel P e Q \<Longrightarrow> poolInv P \<Longrightarrow> poolInv Q"
proof (induction rule: pool_step.induct)
  case (step_open P i s)
  then show ?case
    using fresh_inv [of s]
    by (auto simp: poolInv_def msum_mput mweight_def intro!: list_all_mput)
next
  case (step_do P i s f s' g')
  then have "inv s" by (blast intro: member_inv)
  with step_do exec_inv exec_conserves [of s f "counter P" s' g'] exec_capped show ?case
    by (auto simp: poolInv_def msum_mput mweight_def intro!: list_all_mput)
next
  case (step_close P i s s' g')
  then have i: "inv s" by (blast intro: member_inv)
  with step_close have "g' = counter P - used s" by (blast intro: rel_returns)
  with step_close used_nonneg [OF i] show ?case
    by (simp add: poolInv_def msum_mdel mweight_def list_all_mdel)
qed

lemma run_keeps: "pool_run fresh exec rel P es Q \<Longrightarrow> poolInv P \<Longrightarrow> poolInv Q"
  by (induction rule: pool_run.induct) (auto intro: step_keeps)

lemma empty_inv: "poolInv emptyPool"
  using cap_nonneg by (simp add: poolInv_def emptyPool_def)

lemma run_bounded:
  assumes "pool_run fresh exec rel emptyPool es Q"
  shows "counter Q = msum used (members Q) \<and> counter Q \<le> cap \<and> list_all (inv \<circ> snd) (members Q)"
  using run_keeps [OF assms empty_inv] by (simp add: poolInv_def)

lemma run_drained:
  assumes "pool_run fresh exec rel emptyPool es Q" "members Q = []"
  shows "counter Q = 0"
  using run_bounded [OF assms(1)] assms(2) by simp

end

section \<open>Sessions are metered stores\<close>

definition freshSession :: "session \<Rightarrow> bool" where
  "freshSession s = (s = NewSession (base s) (cwd s))"

lemma reserveOverlay_True: "reserveOverlay d g = (True, g') \<Longrightarrow> g' = g + d \<and> (g \<le> maxGlobalOverlayBytes \<longrightarrow> g' \<le> maxGlobalOverlayBytes)"
  by (auto simp: reserveOverlay_def split: if_splits)

lemma WriteFile_meter:
  assumes "sessionInv s" "WriteFile now s g p content = (r, s', g')"
  shows "g' - g = bytes s' - bytes s \<and> (g \<le> maxGlobalOverlayBytes \<longrightarrow> g' \<le> maxGlobalOverlayBytes)"
proof (cases r)
  case None
  with assms(2) have w: "WriteFile now s g p content = (None, s', g')" by simp
  from w show ?thesis
    by (rule WriteFile_ok) (auto dest: reserveOverlay_True)
next
  case (Some e)
  with assms(2) have "WriteFile now s g p content = (Some e, s', g')" by simp
  from WriteFile_fail [OF this] show ?thesis by simp
qed

lemma Remove_meter:
  assumes "sessionInv s" "Remove s g p = (r, s', g')"
  shows "g' - g = bytes s' - bytes s \<and> g' \<le> g"
proof (cases r)
  case None
  have "0 \<le> mweight fileBytes (overlay s) q" for q
    by (simp add: mweight_def split: option.splits)
  moreover from None assms(2) have w: "Remove s g p = (None, s', g')" by simp
  ultimately show ?thesis by (auto elim!: Remove_ok)
next
  case (Some e)
  with assms(2) show ?thesis by (auto dest: Remove_fail)
qed

lemma Mkdir_bytes: "bytes (snd (Mkdir now s p)) = bytes s"
  by (auto simp: Mkdir_def Let_def split: sum.splits)

lemma Chdir_bytes: "bytes (snd (Chdir s p)) = bytes s"
  by (auto simp: Chdir_def Let_def split: sum.splits)

lemma execOp_inv: "sessionInv s \<Longrightarrow> execOp f s g = (s', g') \<Longrightarrow> sessionInv s'"
  using WriteFile_inv Mkdir_inv Remove_inv Chdir_inv
  by (cases f) (metis execOp.simps prod.collapse fst_conv)+

lemma execOp_meter:
  assumes "sessionInv s" "execOp f s g = (s', g')"
  shows "g' - g = bytes s' - bytes s \<and> (g \<le> maxGlobalOverlayBytes \<longrightarrow> g' \<le> maxGlobalOverlayBytes)"
proof (cases f)
  case (OpWrite now p c)
  with assms show ?thesis
    using WriteFile_meter [OF assms(1), of now g p c "fst (WriteFile now s g p c)" s' g'] by (auto simp: prod_eq_iff)
next
  case (OpRemove p)
  with assms show ?thesis
    using Remove_meter [OF assms(1), of g p "fst (Remove s g p)" s' g'] by (auto simp: prod_eq_iff)
qed (use assms Mkdir_bytes Chdir_bytes in auto)

lemma sessionInv_bytes_nonneg: "sessionInv s \<Longrightarrow> 0 \<le> bytes s"
  using msum_nonneg [of fileBytes "overlay s"] by (simp add: sessionInv_def)

lemma Release_returns:
  assumes "0 \<le> bytes s"
  shows "Release s g = (s\<lparr>bytes := 0\<rparr>, g - bytes s)"
  using assms by (cases "bytes s = 0") (simp_all add: Release_def reserveOverlay_def)

interpretation sessions: metered_store sessionInv bytes maxGlobalOverlayBytes freshSession execOp Release
proof (unfold_locales, goal_cases)
  case (1 s)
  then show ?case
    using NewSession_inv [of "base s" "cwd s"] by (metis freshSession_def NewSession_def session.select_convs(5))
next
  case (2 s f g s' g')
  then show ?case by (rule execOp_inv)
next
  case (3 s f g s' g')
  then show ?case using execOp_meter by blast
next
  case (4 s f g s' g')
  then show ?case using execOp_meter by blast
next
  case (5 s g s' g')
  then show ?case by (simp add: Release_returns sessionInv_bytes_nonneg)
next
  case (6 s)
  then show ?case by (rule sessionInv_bytes_nonneg)
next
  case 7
  then show ?case by (simp add: maxGlobalOverlayBytes_def)
qed

text \<open>
  C2: under any interleaving of session openings, filesystem operations and session ends, the
  process-wide counter is exactly the bytes the live sessions hold, it never passes the global ceiling,
  and every live session keeps its invariant: its own count is the bytes of its overlay files, within
  the per-session ceiling, every file within the per-file ceiling.
\<close>

theorem overlay_memory_bounded:
  assumes "pool_run freshSession execOp Release emptyPool es Q"
  shows "counter Q = msum (\<lambda>s. msum fileBytes (overlay s)) (members Q) \<and>
    counter Q \<le> maxGlobalOverlayBytes \<and>
    (\<forall>i s. mget (members Q) i = Some s \<longrightarrow> sessionInv s \<and>
       msum fileBytes (overlay s) \<le> maxOverlayBytes)"
proof -
  note b = sessions.run_bounded [OF assms]
  then have inv: "list_all (sessionInv \<circ> snd) (members Q)" by blast
  then have "msum bytes (members Q) = msum (\<lambda>s. msum fileBytes (overlay s)) (members Q)"
    by (simp add: msum_def list_all_iff sessionInvD(4) cong: map_cong)
  moreover have "sessionInv s \<and> msum fileBytes (overlay s) \<le> maxOverlayBytes"
    if "mget (members Q) i = Some s" for i s
  proof -
    have "sessionInv s" using inv mget_in [OF that] by (auto simp: list_all_iff)
    then show ?thesis using sessionInvD(4,5) [of s] by simp
  qed
  ultimately show ?thesis using b by simp
qed

lemma overlay_memory_bounded_witness:
  "\<exists>Q. pool_run freshSession execOp Release emptyPool
      [Open (1::nat) demoSession, Do 1 (OpWrite 0 ''/t/a'' ''abc'')] Q \<and>
     counter Q \<le> maxGlobalOverlayBytes \<and> counter Q = 3"
proof -
  let ?a = "execOp (OpWrite 0 ''/t/a'' ''abc'') demoSession 0"
  let ?P = "emptyPool\<lparr>members := mput (1::nat) demoSession (members emptyPool)\<rparr>"
  let ?Q = "?P\<lparr>members := mput 1 (fst ?a) (members ?P), counter := snd ?a\<rparr>"
  have "freshSession demoSession" by code_simp
  then have "pool_step freshSession execOp Release emptyPool (Open 1 demoSession) ?P"
    by (intro step_open) (simp_all add: emptyPool_def)
  moreover have "pool_step freshSession execOp Release ?P (Do 1 (OpWrite 0 ''/t/a'' ''abc'')) ?Q"
    by (intro step_do [of _ _ demoSession]) (simp_all add: emptyPool_def)
  ultimately have r: "pool_run freshSession execOp Release emptyPool
      [Open (1::nat) demoSession, Do 1 (OpWrite 0 ''/t/a'' ''abc'')] ?Q"
    by (blast intro: pool_run.intros)
  have "snd ?a = 3" by code_simp
  then have "counter ?Q = 3" by simp
  moreover have "counter ?Q \<le> maxGlobalOverlayBytes" using overlay_memory_bounded [OF r] by blast
  ultimately show ?thesis using r by blast
qed

section \<open>The two additions of reserveOverlay, interleaved\<close>

text \<open>
  \<open>reserveOverlay\<close> is one atomic addition, and a second one when the first overshot.  Between the two
  other sessions run.  A session holds the bytes it has reserved; \<open>lost\<close> is an overshooting addition
  it has yet to take back.
\<close>

record racer =
  held :: int
  lost :: int

inductive reserve_step :: "(nat, racer) pool \<Rightarrow> (nat, racer) pool \<Rightarrow> bool"
where
  shrink: "mget (members P) i = Some r \<Longrightarrow> lost r = 0 \<Longrightarrow> delta \<le> 0 \<Longrightarrow> 0 \<le> held r + delta \<Longrightarrow>
     reserve_step P (P\<lparr>members := mput i (r\<lparr>held := held r + delta\<rparr>) (members P),
                       counter := counter P + delta\<rparr>)"
| grow: "mget (members P) i = Some r \<Longrightarrow> lost r = 0 \<Longrightarrow> 0 < delta \<Longrightarrow>
     \<not> counter P + delta > maxGlobalOverlayBytes \<Longrightarrow>
     reserve_step P (P\<lparr>members := mput i (r\<lparr>held := held r + delta\<rparr>) (members P),
                       counter := counter P + delta\<rparr>)"
| overshoot: "mget (members P) i = Some r \<Longrightarrow> lost r = 0 \<Longrightarrow> 0 < delta \<Longrightarrow>
     counter P + delta > maxGlobalOverlayBytes \<Longrightarrow>
     reserve_step P (P\<lparr>members := mput i (r\<lparr>lost := delta\<rparr>) (members P),
                       counter := counter P + delta\<rparr>)"
| rollback: "mget (members P) i = Some r \<Longrightarrow> 0 < lost r \<Longrightarrow>
     reserve_step P (P\<lparr>members := mput i (r\<lparr>lost := 0\<rparr>) (members P),
                       counter := counter P + (- lost r)\<rparr>)"

inductive_cases reserve_stepE: "reserve_step P Q"

definition raceInv :: "(nat, racer) pool \<Rightarrow> bool" where
  "raceInv P = (list_all (\<lambda>ir. 0 \<le> held (snd ir) \<and> 0 \<le> lost (snd ir)) (members P) \<and>
     counter P = msum held (members P) + msum lost (members P) \<and>
     msum held (members P) \<le> maxGlobalOverlayBytes)"

lemma mget_mweight: "mget m k = Some v \<Longrightarrow> mweight f m k = f v"
  by (simp add: mweight_def)

lemma msum_nonneg_on: "list_all (\<lambda>kv. 0 \<le> f (snd kv)) m \<Longrightarrow> 0 \<le> msum f m"
  by (induction m) (auto simp: msum_def)

lemma raceInv_lost: "raceInv P \<Longrightarrow> 0 \<le> msum lost (members P)"
  by (rule msum_nonneg_on) (auto simp: raceInv_def list_all_iff)

lemma held_nonneg: "raceInv P \<Longrightarrow> mget (members P) i = Some r \<Longrightarrow> 0 \<le> held r"
  by (auto simp: raceInv_def list_all_iff dest!: mget_in)

lemma reserve_step_keeps: "reserve_step P Q \<Longrightarrow> raceInv P \<Longrightarrow> raceInv Q"
proof (induction rule: reserve_step.induct)
  case (shrink P i r delta)
  then show ?case
    by (auto simp: raceInv_def msum_mput mget_mweight intro!: list_all_mput)
next
  case (grow P i r delta)
  then show ?case
    using raceInv_lost [of P] held_nonneg [of P i r]
    by (auto simp: raceInv_def msum_mput mget_mweight intro!: list_all_mput)
next
  case (overshoot P i r delta)
  then have "0 \<le> held r" by (blast intro: held_nonneg)
  with overshoot show ?case
    by (auto simp: raceInv_def msum_mput mget_mweight intro!: list_all_mput)
next
  case (rollback P i r)
  then have "0 \<le> held r" by (blast intro: held_nonneg)
  with rollback show ?case
    by (auto simp: raceInv_def msum_mput mget_mweight intro!: list_all_mput)
qed

lemma reserve_run_keeps: "reserve_step\<^sup>*\<^sup>* P Q \<Longrightarrow> raceInv P \<Longrightarrow> raceInv Q"
  by (induction rule: rtranclp_induct) (auto intro: reserve_step_keeps)

lemma msum_zero: "list_all (\<lambda>kv. f (snd kv) = 0) m \<Longrightarrow> msum f m = 0"
  by (induction m) (auto simp: msum_def)

text \<open>
  C5: however the atomic additions of concurrent reservations interleave, the bytes actually granted
  never exceed the ceiling, and whenever no rollback is outstanding the counter is exactly the bytes
  granted: a losing race leaves it untouched.
\<close>

theorem reserve_race_safe:
  assumes "reserve_step\<^sup>*\<^sup>* \<lparr>members = map (\<lambda>i. (i, \<lparr>held = 0, lost = 0\<rparr>)) ids, counter = 0\<rparr> Q"
  shows "msum held (members Q) \<le> maxGlobalOverlayBytes \<and>
    (list_all (\<lambda>ir. lost (snd ir) = 0) (members Q) \<longrightarrow> counter Q = msum held (members Q))"
proof -
  have "raceInv \<lparr>members = map (\<lambda>i. (i, \<lparr>held = 0, lost = 0\<rparr>)) ids, counter = 0\<rparr>"
    by (simp add: raceInv_def list_all_iff msum_zero maxGlobalOverlayBytes_def)
  from reserve_run_keeps [OF assms this] have "raceInv Q" .
  then show ?thesis using msum_zero [of lost "members Q"] by (auto simp: raceInv_def)
qed

lemma reserve_race_safe_witness:
  "\<exists>Q. reserve_step\<^sup>*\<^sup>* \<lparr>members = map (\<lambda>i. (i, \<lparr>held = 0, lost = 0\<rparr>)) [1, 2], counter = 0\<rparr> Q \<and>
     msum held (members Q) \<le> maxGlobalOverlayBytes \<and> msum held (members Q) = 5"
proof -
  let ?P = "\<lparr>members = map (\<lambda>i. (i, \<lparr>held = 0, lost = 0\<rparr>)) [1::nat, 2], counter = 0\<rparr>"
  let ?Q = "?P\<lparr>members := mput 1 (\<lparr>held = 0, lost = 0\<rparr>\<lparr>held := 0 + 5\<rparr>) (members ?P), counter := 0 + 5\<rparr>"
  have "reserve_step ?P ?Q"
    using grow [of ?P 1 "\<lparr>held = 0, lost = 0\<rparr>" 5] by (simp add: maxGlobalOverlayBytes_def)
  then have r: "reserve_step\<^sup>*\<^sup>* ?P ?Q" by blast
  moreover have "msum held (members ?Q) = 5" by (simp add: msum_def)
  ultimately show ?thesis using reserve_race_safe [OF r] by blast
qed

text \<open>Run without interference, the two additions are the sequential \<open>reserveOverlay\<close>.\<close>

lemma reserve_alone:
  assumes "mget (members P) i = Some r" "lost r = 0" "0 < delta" "fst (reserveOverlay delta (counter P)) = False"
  shows "\<exists>Q R. reserve_step P Q \<and> reserve_step Q R \<and> counter R = snd (reserveOverlay delta (counter P))"
proof -
  let ?Q = "P\<lparr>members := mput i (r\<lparr>lost := delta\<rparr>) (members P), counter := counter P + delta\<rparr>"
  let ?R = "?Q\<lparr>members := mput i ((r\<lparr>lost := delta\<rparr>)\<lparr>lost := 0\<rparr>) (members ?Q),
              counter := counter ?Q + (- lost (r\<lparr>lost := delta\<rparr>))\<rparr>"
  have "reserve_step P ?Q"
    using assms by (intro overshoot) (auto simp: reserveOverlay_def split: if_splits)
  moreover have "reserve_step ?Q ?R"
    using assms by (intro rollback) auto
  moreover have "counter ?R = snd (reserveOverlay delta (counter P))"
    using assms by (auto simp: reserveOverlay_def split: if_splits)
  ultimately show ?thesis by blast
qed

end
