(* ===== verification/VfsLoad.thy ===== *)
theory VfsLoad
  imports Vfs
begin

text \<open>
  Building the shared tree (\<^verbatim>\<open>internal/vfs/load.go\<close>).  The embedded file tree is a datatype walked in
  order; the JSON decoder and \<^verbatim>\<open>time.Parse\<close> are parameters.  The source mutates nodes through
  pointers; here \<open>modAt\<close> rewrites the node at a path.  The theorems say that whatever is loaded and
  grafted is a well-formed tree, which is what the listing theorem of \<open>Vfs\<close> needs of it.
\<close>

section \<open>The manifest\<close>

record manifestDefaults =
  d_uid :: int
  d_gid :: int
  d_uname :: string
  d_gname :: string
  d_dirmode :: string
  d_filemode :: string
  d_mtime :: string

record metaOverride =
  o_mode :: string
  o_uid :: "int option"
  o_gid :: "int option"
  o_uname :: string
  o_gname :: string
  o_mtime :: string

record dirEntry =
  de_path :: string
  de_mode :: string
  de_uname :: string
  de_gname :: string
  de_uid :: "int option"
  de_gid :: "int option"

record linkEntry =
  le_path :: string
  le_target :: string

record binGroup =
  bg_dir :: string
  bg_names :: "string list"
  bg_mode :: string
  bg_size :: int

record manifest =
  Defaults :: manifestDefaults
  Meta :: "(string, metaOverride) gomap"
  Dirs :: "dirEntry list"
  Links :: "linkEntry list"
  Binaries :: "binGroup list"

definition emptyManifest :: manifest where
  "emptyManifest =
     \<lparr>Defaults = \<lparr>d_uid = 0, d_gid = 0, d_uname = [], d_gname = [], d_dirmode = [], d_filemode = [], d_mtime = []\<rparr>,
      Meta = [], Dirs = [], Links = [], Binaries = []\<rparr>"

record loader =
  defDir :: filemode
  defFile :: filemode
  l_uid :: int
  l_gid :: int
  l_uname :: string
  l_gname :: string
  baseMtime :: gotime

section \<open>Small parsers\<close>

definition ModeSetuid :: filemode where "ModeSetuid = 0x00800000"
definition ModeSetgid :: filemode where "ModeSetgid = 0x00400000"
definition ModeSticky :: filemode where "ModeSticky = 0x00100000"
definition ModeType :: filemode where "ModeType = 0x8F280000"

text \<open>\<^verbatim>\<open>strconv.ParseUint(s, 8, 32)\<close>: octal digits only, below 2^32.\<close>

definition ParseUint8 :: "string \<Rightarrow> int option" where
  "ParseUint8 s =
     (if s \<noteq> [] \<and> list_all (\<lambda>c. 48 \<le> code c \<and> code c \<le> 55) s
      then let v = foldl (\<lambda>n c. 8 * n + (code c - 48)) 0 s in if v < 4294967296 then Some v else None
      else None)"

definition parseMode :: "string \<Rightarrow> filemode option" where
  "parseMode s =
     (if s = [] then None
      else case ParseUint8 s of
        None \<Rightarrow> None
      | Some n \<Rightarrow>
          let v = (of_int n :: filemode);
              mode = v AND 0x1FF;
              mode = (if v AND 0x800 \<noteq> 0 then mode OR ModeSetuid else mode);
              mode = (if v AND 0x400 \<noteq> 0 then mode OR ModeSetgid else mode);
              mode = (if v AND 0x200 \<noteq> 0 then mode OR ModeSticky else mode)
          in Some mode)"

definition modeOr :: "string \<Rightarrow> filemode \<Rightarrow> filemode" where
  "modeOr s def = (case parseMode s of Some pm \<Rightarrow> pm | None \<Rightarrow> def)"

definition orStr :: "string \<Rightarrow> string \<Rightarrow> string" where
  "orStr s def = (if s = [] then def else s)"

definition parseWhen :: "(string \<Rightarrow> string \<Rightarrow> gotime option) \<Rightarrow> string \<Rightarrow> gotime \<Rightarrow> gotime" where
  "parseWhen timeParse s now =
     (let absolute = (case timeParse ''RFC3339'' s of
              Some t \<Rightarrow> t
            | None \<Rightarrow> (case timeParse ''2006-01-02'' s of Some t \<Rightarrow> t | None \<Rightarrow> now))
      in if s = [] then now
         else if HasPrefix s ''-'' \<and> length s \<ge> 3
         then (case Atoi (butlast (tl s)) of
             None \<Rightarrow> absolute
           | Some n \<Rightarrow>
               (let unit = last s
                in if unit = CHR ''d'' then now + wrap64 (- wrap64 (wrap64 (n * 24) * hourNs))
                   else if unit = CHR ''h'' then now + wrap64 (- wrap64 (n * hourNs))
                   else if unit = CHR ''m'' then now + wrap64 (- wrap64 (n * 60000000000))
                   else if unit = CHR ''s'' then now + wrap64 (- wrap64 (n * 1000000000))
                   else now))
         else absolute)"

section \<open>Rewriting the tree\<close>

fun modAt :: "string list \<Rightarrow> (node \<Rightarrow> node) \<Rightarrow> node \<Rightarrow> node" where
  "modAt [] f n = f n"
| "modAt (k # ks) f (Node i cs) =
     (case mget cs k of
        None \<Rightarrow> Node i cs
      | Some c \<Rightarrow> Node i (mput k (modAt ks f c) cs))"

definition setInfo :: "(inode \<Rightarrow> inode) \<Rightarrow> node \<Rightarrow> node" where
  "setInfo f n = Node (f (info n)) (children n)"

definition putChild :: "string \<Rightarrow> node \<Rightarrow> node \<Rightarrow> node" where
  "putChild nm c n = Node (info n) (mput nm c (children n))"

definition applyOwner ::
  "string \<Rightarrow> string \<Rightarrow> int option \<Rightarrow> int option \<Rightarrow> inode \<Rightarrow> inode" where
  "applyOwner uname gname uid gid i =
     (let i = (if uname \<noteq> [] then i\<lparr>n_uname := uname\<rparr> else i);
          i = (if gname \<noteq> [] then i\<lparr>n_gname := gname\<rparr> else i);
          i = (case uid of Some u \<Rightarrow> i\<lparr>n_uid := u\<rparr> | None \<Rightarrow> i)
      in case gid of Some g \<Rightarrow> i\<lparr>n_gid := g\<rparr> | None \<Rightarrow> i)"

text \<open>
  \<open>ensureDir\<close> and \<open>mkdirAll\<close> recurse through \<open>parentDir\<close> down to the root and come back creating what
  is missing; on the components of a clean path that is a walk from the root.  \<open>mk\<close> builds a missing
  directory.
\<close>

fun ensureWalk :: "(string \<Rightarrow> node) \<Rightarrow> string list \<Rightarrow> node \<Rightarrow> node" where
  "ensureWalk mk [] n = n"
| "ensureWalk mk (k # ks) n =
     (case mget (children n) k of
        Some c \<Rightarrow> putChild k (ensureWalk mk ks (if IsDir c then c else mk k)) n
      | None \<Rightarrow> putChild k (ensureWalk mk ks (mk k)) n)"

definition loaderDir :: "loader \<Rightarrow> string \<Rightarrow> node" where
  "loaderDir ld nm = Node (emptyInode\<lparr>n_name := nm, n_mode := defDir ld, n_uid := l_uid ld, n_gid := l_gid ld,
       n_uname := l_uname ld, n_gname := l_gname ld, n_mtime := baseMtime ld\<rparr>) []"

definition ensureDir :: "loader \<Rightarrow> string \<Rightarrow> node \<Rightarrow> node" where
  "ensureDir ld p root =
     (if p = ''/'' \<or> p = ''.'' then root else ensureWalk (loaderDir ld) (splitPath p) root)"

definition addFile :: "loader \<Rightarrow> string \<Rightarrow> bytes \<Rightarrow> node \<Rightarrow> node" where
  "addFile ld p content root =
     modAt (splitPath (parentDir p))
       (putChild (baseName p)
         (Node (emptyInode\<lparr>n_name := baseName p, n_mode := defFile ld, n_uid := l_uid ld, n_gid := l_gid ld,
            n_uname := l_uname ld, n_gname := l_gname ld, n_mtime := baseMtime ld, n_content := content\<rparr>) []))
       (ensureDir ld (parentDir p) root)"

fun getNodeAt :: "string list \<Rightarrow> node \<Rightarrow> node option" where
  "getNodeAt [] n = Some n"
| "getNodeAt (k # ks) n = (case mget (children n) k of None \<Rightarrow> None | Some c \<Rightarrow> getNodeAt ks c)"

definition getNode :: "FS \<Rightarrow> string \<Rightarrow> node option" where
  "getNode f p = (if p = ''/'' then Some (fs_root f) else getNodeAt (splitPath p) (fs_root f))"

section \<open>Grafting after Load: Mkdir, mkdirAll, Place\<close>

definition mkdirAllNode :: "node \<Rightarrow> string \<Rightarrow> node" where
  "mkdirAllNode root nm = Node (emptyInode\<lparr>n_name := nm, n_mode := ModeDir OR 0x1ED,
     n_uname := n_uname (info root), n_gname := n_gname (info root), n_mtime := n_mtime (info root)\<rparr>) []"

definition mkdirAll :: "string \<Rightarrow> node \<Rightarrow> node" where
  "mkdirAll p root =
     (let ap = cleanAbs p
      in if ap = ''/'' \<or> ap = ''.'' then root else ensureWalk (mkdirAllNode root) (splitPath ap) root)"

definition FS_Mkdir :: "FS \<Rightarrow> string \<Rightarrow> filemode \<Rightarrow> string \<Rightarrow> string \<Rightarrow> gotime \<Rightarrow> FS" where
  "FS_Mkdir f p mode uname gname mtime =
     (let ap = cleanAbs p
      in if ap = ''/'' then f
         else let root = mkdirAll (parentDir ap) (fs_root f);
                  nm = baseName ap;
                  graft = (\<lambda>parent.
                    let n = (case mget (children parent) nm of
                          Some n \<Rightarrow> if IsDir n then n else Node (emptyInode\<lparr>n_name := nm\<rparr>) []
                        | None \<Rightarrow> Node (emptyInode\<lparr>n_name := nm\<rparr>) [])
                    in putChild nm
                         (setInfo (\<lambda>i. i\<lparr>n_mode := ModeDir OR mode, n_uname := uname, n_gname := gname,
                                          n_mtime := mtime\<rparr>) n) parent)
              in f\<lparr>fs_root := modAt (splitPath (parentDir ap)) graft root\<rparr>)"

definition FS_Place :: "FS \<Rightarrow> string \<Rightarrow> bytes \<Rightarrow> filemode \<Rightarrow> string \<Rightarrow> string \<Rightarrow> gotime \<Rightarrow> FS" where
  "FS_Place f p content mode uname gname mtime =
     (let ap = cleanAbs p
      in if ap = ''/'' then f
         else let root = mkdirAll (parentDir ap) (fs_root f);
                  nm = baseName ap
              in f\<lparr>fs_root := modAt (splitPath (parentDir ap))
                     (putChild nm (Node (emptyInode\<lparr>n_name := nm, n_mode := mode, n_uname := uname,
                        n_gname := gname, n_mtime := mtime, n_content := content\<rparr>) [])) root\<rparr>)"

section \<open>Load\<close>

text \<open>The embedded tree below its root; reading a file of it may fail.\<close>

datatype 'e embed = EFile string "'e + bytes" | EDir string "'e embed list"

fun walkEmbed ::
  "loader \<Rightarrow> (string \<Rightarrow> bytes \<Rightarrow> bytes) option \<Rightarrow> string \<Rightarrow> 'e embed \<Rightarrow> node \<Rightarrow> 'e + node"
and walkEmbeds ::
  "loader \<Rightarrow> (string \<Rightarrow> bytes \<Rightarrow> bytes) option \<Rightarrow> string \<Rightarrow> 'e embed list \<Rightarrow> node \<Rightarrow> 'e + node"
where
  "walkEmbed ld transform dir (EFile nm body) root =
     (let p = dir @ slash # nm
      in if nm = ''manifest.json'' \<or> nm = ''.DS_Store'' then Ok root
         else case body of
             Inl e \<Rightarrow> Err e
           | Inr content \<Rightarrow>
               Ok (addFile ld p (case transform of Some f \<Rightarrow> f p content | None \<Rightarrow> content) root))"
| "walkEmbed ld transform dir (EDir nm es) root =
     (let p = dir @ slash # nm
      in if nm = ''manifest.json'' \<or> nm = ''.DS_Store'' then Ok root
         else walkEmbeds ld transform p es (ensureDir ld p root))"
| "walkEmbeds ld transform dir [] root = Ok root"
| "walkEmbeds ld transform dir (e # es) root =
     (case walkEmbed ld transform dir e root of
        Inl err \<Rightarrow> Err err
      | Inr root' \<Rightarrow> walkEmbeds ld transform dir es root')"

definition newLoader :: "(string \<Rightarrow> string \<Rightarrow> gotime option) \<Rightarrow> gotime \<Rightarrow> manifest \<Rightarrow> loader" where
  "newLoader timeParse now m =
     \<lparr>defDir = ModeDir OR modeOr (d_dirmode (Defaults m)) 0x1ED,
      defFile = modeOr (d_filemode (Defaults m)) 0x1A4,
      l_uid = d_uid (Defaults m), l_gid = d_gid (Defaults m),
      l_uname = orStr (d_uname (Defaults m)) ''root'',
      l_gname = orStr (d_gname (Defaults m)) ''root'',
      baseMtime = parseWhen timeParse (d_mtime (Defaults m)) now\<rparr>"

definition loaderRoot :: "loader \<Rightarrow> node" where
  "loaderRoot ld = Node (emptyInode\<lparr>n_name := ''/'', n_mode := ModeDir OR 0x1ED,
     n_uname := l_uname ld, n_gname := l_gname ld, n_mtime := baseMtime ld\<rparr>) []"

definition loadDir :: "loader \<Rightarrow> dirEntry \<Rightarrow> node \<Rightarrow> node" where
  "loadDir ld de root =
     (let ap = cleanAbs (de_path de)
      in modAt (splitPath ap)
           (setInfo (\<lambda>i. applyOwner (de_uname de) (de_gname de) (de_uid de) (de_gid de)
              (case parseMode (de_mode de) of Some pm \<Rightarrow> i\<lparr>n_mode := ModeDir OR pm\<rparr> | None \<Rightarrow> i)))
           (ensureDir ld ap root))"

definition loadBin :: "loader \<Rightarrow> binGroup \<Rightarrow> node \<Rightarrow> node" where
  "loadBin ld bg root =
     (let mode = (case parseMode (bg_mode bg) of Some pm \<Rightarrow> pm | None \<Rightarrow> 0x1ED);
          size = (if bg_size bg = 0 then 35112 else bg_size bg);
          ap = cleanAbs (bg_dir bg);
          stub = (\<lambda>nm. Node (emptyInode\<lparr>n_name := nm, n_mode := mode, n_uid := l_uid ld, n_gid := l_gid ld,
              n_uname := l_uname ld, n_gname := l_gname ld, n_mtime := baseMtime ld,
              n_stub := True, n_size := size\<rparr>) [])
      in modAt (splitPath ap) (\<lambda>dir. foldl (\<lambda>d nm. putChild nm (stub nm) d) dir (bg_names bg))
           (ensureDir ld ap root))"

definition loadLink :: "loader \<Rightarrow> linkEntry \<Rightarrow> node \<Rightarrow> node" where
  "loadLink ld le root =
     (let ap = cleanAbs (le_path le);
          nm = baseName ap
      in modAt (splitPath (parentDir ap))
           (putChild nm (Node (emptyInode\<lparr>n_name := nm, n_mode := ModeSymlink OR 0x1FF,
              n_uname := l_uname ld, n_gname := l_gname ld, n_mtime := baseMtime ld,
              n_link := le_target le\<rparr>) []))
           (ensureDir ld (parentDir ap) root))"

definition metaInfo ::
  "(string \<Rightarrow> string \<Rightarrow> gotime option) \<Rightarrow> gotime \<Rightarrow> metaOverride \<Rightarrow> inode \<Rightarrow> inode" where
  "metaInfo timeParse now ov i =
     (let i = (case parseMode (o_mode ov) of
            Some pm \<Rightarrow> i\<lparr>n_mode := (n_mode i AND ModeType) OR pm\<rparr>
          | None \<Rightarrow> i);
          i = applyOwner (o_uname ov) (o_gname ov) (o_uid ov) (o_gid ov) i
      in if o_mtime ov \<noteq> [] then i\<lparr>n_mtime := parseWhen timeParse (o_mtime ov) now\<rparr> else i)"

definition loadMeta ::
  "(string \<Rightarrow> string \<Rightarrow> gotime option) \<Rightarrow> gotime \<Rightarrow> string \<times> metaOverride \<Rightarrow> node \<Rightarrow> node" where
  "loadMeta timeParse now po root =
     (let ap = cleanAbs (fst po)
      in case getNode \<lparr>fs_root = root\<rparr> ap of
           None \<Rightarrow> root
         | Some _ \<Rightarrow> modAt (splitPath ap) (setInfo (metaInfo timeParse now (snd po))) root)"

definition Load ::
  "(string \<Rightarrow> string \<Rightarrow> gotime option) \<Rightarrow> (bytes \<Rightarrow> 'e + manifest) \<Rightarrow> gotime \<Rightarrow> bytes option \<Rightarrow>
   (string \<Rightarrow> bytes \<Rightarrow> bytes) option \<Rightarrow> 'e embed list \<Rightarrow> 'e + FS" where
  "Load timeParse unmarshal now manifestData transform tree =
     (case (case manifestData of None \<Rightarrow> Ok emptyManifest | Some data \<Rightarrow> unmarshal data) of
        Inl e \<Rightarrow> Err e
      | Inr m \<Rightarrow>
          let ld = newLoader timeParse now m
          in case walkEmbeds ld transform [] tree (loaderRoot ld) of
               Inl e \<Rightarrow> Err e
             | Inr root \<Rightarrow>
                 let root = foldl (\<lambda>r de. loadDir ld de r) root (Dirs m);
                     root = foldl (\<lambda>r bg. loadBin ld bg r) root (Binaries m);
                     root = foldl (\<lambda>r le. loadLink ld le r) root (Links m);
                     root = foldl (\<lambda>r po. loadMeta timeParse now po r) root (Meta m)
                 in Ok \<lparr>fs_root = root\<rparr>)"

section \<open>Well-formedness is kept\<close>

text \<open>
  A rewriting of a node that keeps trees well formed, names unchanged and directories directories.
\<close>

named_theorems keeps_rules \<open>rewritings that keep well-formed trees\<close>

definition keeps :: "(node \<Rightarrow> node) \<Rightarrow> bool" where
  "keeps f = (\<forall>n. wfNode n \<longrightarrow> wfNode (f n) \<and> Name (f n) = Name n \<and> (IsDir n \<longrightarrow> IsDir (f n)))"

lemma keepsD: "keeps f \<Longrightarrow> wfNode n \<Longrightarrow> wfNode (f n) \<and> Name (f n) = Name n \<and> (IsDir n \<longrightarrow> IsDir (f n))"
  by (simp add: keeps_def)

lemma keeps_comp: "keeps f \<Longrightarrow> keeps h \<Longrightarrow> keeps (\<lambda>n. f (h n))"
  by (simp add: keeps_def)

lemma keeps_id [keeps_rules]: "keeps (\<lambda>n. n)"
  by (simp add: keeps_def)

lemma keeps_foldl [keeps_rules]: "(\<And>x. x \<in> set xs \<Longrightarrow> keeps (\<lambda>n. f n x)) \<Longrightarrow> keeps (\<lambda>n. foldl f n xs)"
proof (induction xs)
  case (Cons x xs)
  then have "keeps (\<lambda>n. foldl f n xs)" "keeps (\<lambda>n. f n x)" by auto
  from keeps_comp [OF this] show ?case by simp
qed (simp add: keeps_def)

lemma wfNode_put:
  "wfNode n \<Longrightarrow> wfNode c \<Longrightarrow> goodName k \<Longrightarrow> Name c = k \<Longrightarrow> wfNode (putChild k c n)"
  by (cases n) (simp add: putChild_def list_all_mput)

lemma putChild_same [simp]: "Name (putChild k c n) = Name n" "IsDir (putChild k c n) = IsDir n"
  by (simp_all add: putChild_def Name_def IsDir_def Mode_def)

lemma keeps_putChild [keeps_rules]: "goodName k \<Longrightarrow> Name c = k \<Longrightarrow> wfNode c \<Longrightarrow> keeps (putChild k c)"
  by (simp add: keeps_def wfNode_put)

lemma keeps_setInfo [keeps_rules]:
  "(\<And>i. n_name (f i) = n_name i) \<Longrightarrow>
   (\<And>i. n_mode i AND ModeDir \<noteq> 0 \<Longrightarrow> n_mode (f i) AND ModeDir \<noteq> 0) \<Longrightarrow> keeps (setInfo f)"
  unfolding keeps_def
proof (intro allI impI, goal_cases)
  case (1 n)
  then show ?case by (cases n) (simp add: setInfo_def Name_def IsDir_def Mode_def)
qed

lemma keeps_modAt [keeps_rules]: "keeps f \<Longrightarrow> keeps (modAt ks f)"
proof (induction ks)
  case (Cons k ks)
  then have IH: "keeps (modAt ks f)" by simp
  show ?case
    unfolding keeps_def
  proof (intro allI impI)
    fix n
    assume wf: "wfNode n"
    obtain i cs where n: "n = Node i cs" by (cases n)
    show "wfNode (modAt (k # ks) f n) \<and> Name (modAt (k # ks) f n) = Name n \<and>
        (IsDir n \<longrightarrow> IsDir (modAt (k # ks) f n))"
    proof (cases "mget cs k")
      case (Some c)
      then have c: "wfNode c" "Name c = k" "goodName k"
        using wfNode_child [OF wf, of k c] n by (auto simp: childOf_def)
      have "modAt (k # ks) f n = putChild k (modAt ks f c) n" using Some n by (simp add: putChild_def)
      then show ?thesis using wfNode_put [OF wf] keepsD [OF IH c(1)] c by simp
    qed (use wf n in simp)
  qed
qed (simp add: keeps_def)

lemma ensureWalk_same: "Name (ensureWalk mk ks n) = Name n \<and> (IsDir n \<longrightarrow> IsDir (ensureWalk mk ks n))"
  by (cases ks) (auto split: option.splits)

lemma ensureWalk_wf:
  "(\<And>k. wfNode (mk k) \<and> Name (mk k) = k) \<Longrightarrow> goodPath ks \<Longrightarrow> wfNode n \<Longrightarrow> wfNode (ensureWalk mk ks n)"
proof (induction ks arbitrary: n)
  case (Cons k ks)
  have "wfNode (ensureWalk mk ks (mk k))" "Name (ensureWalk mk ks (mk k)) = k"
    using Cons ensureWalk_same by auto
  moreover have "wfNode (ensureWalk mk ks c) \<and> Name (ensureWalk mk ks c) = k"
    if "mget (children n) k = Some c" for c
    using that Cons wfNode_child [of n k c] ensureWalk_same by (auto simp: childOf_def)
  ultimately show ?case using Cons.prems
    by (auto intro!: wfNode_put split: option.splits)
qed simp

lemma keeps_ensureDir [keeps_rules]:
  assumes "goodPath cs"
  shows "keeps (ensureDir ld (absPath cs))"
proof -
  have "wfNode (loaderDir ld k) \<and> Name (loaderDir ld k) = k" for k
    by (simp add: loaderDir_def Name_def)
  then show ?thesis
    using assms ensureWalk_same ensureWalk_wf [of "loaderDir ld" cs] by (auto simp: keeps_def ensureDir_def)
qed

lemma absPath_parent:
  assumes "goodPath cs"
  obtains ds where "goodPath ds" "parentDir (absPath cs) = absPath ds"
proof (cases cs rule: rev_cases)
  case Nil
  with that [of "[]"] show thesis by simp
next
  case (snoc ds d)
  with assms that [of ds] show thesis by simp
qed

lemma keeps_graft [keeps_rules]:
  "goodPath cs \<Longrightarrow> keeps f \<Longrightarrow> keeps (\<lambda>root. modAt ks f (ensureDir ld (absPath cs) root))"
  using keeps_comp [OF keeps_modAt keeps_ensureDir] by blast

lemma keeps_addFile [keeps_rules]:
  assumes "goodPath cs" "goodName c"
  shows "keeps (addFile ld (absPath (cs @ [c])) content)"
proof -
  have "keeps (putChild c (Node (emptyInode\<lparr>n_name := c, n_mode := defFile ld, n_uid := l_uid ld,
      n_gid := l_gid ld, n_uname := l_uname ld, n_gname := l_gname ld, n_mtime := baseMtime ld,
      n_content := content\<rparr>) []))"
    using assms by (intro keeps_putChild) (simp_all add: Name_def)
  from keeps_graft [OF assms(1) this] assms show ?thesis by (simp add: addFile_def [abs_def])
qed

lemma applyOwner_same [simp]:
  "n_name (applyOwner u g a b i) = n_name i" "n_mode (applyOwner u g a b i) = n_mode i"
  by (auto simp: applyOwner_def Let_def split: option.splits)

lemma mode_keeps_dir: "m AND ModeDir \<noteq> 0 \<Longrightarrow> ((m AND ModeType) OR pm) AND ModeDir \<noteq> 0"
proof -
  assume m: "m AND ModeDir \<noteq> 0"
  have "((m AND ModeType) OR pm) AND ModeDir = (m AND (ModeType AND ModeDir)) OR (pm AND ModeDir)"
    by (rule bit_eqI) (auto simp: bit_simps)
  also have "ModeType AND ModeDir = ModeDir" by (simp add: ModeType_def ModeDir_def)
  finally show ?thesis using m by (metis or_eq_0_iff)
qed

lemma ModeDir_or [simp]: "(ModeDir OR pm) AND ModeDir \<noteq> 0"
proof -
  have "(ModeDir OR pm) AND ModeDir = ModeDir" by (rule bit_eqI) (auto simp: bit_simps)
  then show ?thesis by (simp add: ModeDir_def)
qed

lemma keeps_loadDir [keeps_rules]: "keeps (loadDir ld de)"
proof -
  obtain cs where cs: "goodPath cs" "cleanAbs (de_path de) = absPath cs" using cleanAbs_form by blast
  let ?f = "\<lambda>i. applyOwner (de_uname de) (de_gname de) (de_uid de) (de_gid de)
              (case parseMode (de_mode de) of Some pm \<Rightarrow> i\<lparr>n_mode := ModeDir OR pm\<rparr> | None \<Rightarrow> i)"
  have "keeps (setInfo ?f)"
    by (intro keeps_setInfo) (auto split: option.splits)
  from keeps_graft [OF cs(1) this] cs show ?thesis by (simp add: loadDir_def [abs_def])
qed

lemma keeps_loadBin [keeps_rules]:
  assumes "list_all goodName (bg_names bg)"
  shows "keeps (loadBin ld bg)"
proof -
  obtain cs where cs: "goodPath cs" "cleanAbs (bg_dir bg) = absPath cs" using cleanAbs_form by blast
  have "keeps (\<lambda>dir. foldl (\<lambda>d nm. putChild nm (Node (i nm) []) d) dir (bg_names bg))"
    if "\<And>nm. n_name (i nm) = nm" for i
    using assms that by (intro keeps_foldl keeps_putChild) (auto simp: Name_def list_all_iff)
  from keeps_graft [OF cs(1) this] cs show ?thesis by (simp add: loadBin_def [abs_def] Let_def)
qed

lemma keeps_loadLink [keeps_rules]:
  assumes "cleanAbs (le_path le) \<noteq> ''/''"
  shows "keeps (loadLink ld le)"
proof -
  obtain cs c where cs: "goodPath cs" "goodName c" "cleanAbs (le_path le) = absPath (cs @ [c])"
    using assms keyOk_iff [of "cleanAbs (le_path le)"] cleanAbs_form [of "le_path le"] by (auto simp: keyOk_def)
  have "keeps (putChild c (Node i []))" if "n_name i = c" for i
    using cs that by (intro keeps_putChild) (simp_all add: Name_def)
  from keeps_graft [OF cs(1) this] cs show ?thesis by (simp add: loadLink_def [abs_def] Let_def)
qed

lemma keeps_loadMeta [keeps_rules]: "keeps (loadMeta timeParse now po)"
proof -
  have "keeps (setInfo (metaInfo timeParse now ov))" for ov
    using mode_keeps_dir
    by (intro keeps_setInfo) (auto simp: metaInfo_def Let_def split: option.splits)
  from keepsD [OF keeps_modAt [OF this]] show ?thesis
    by (auto simp: loadMeta_def keeps_def Let_def split: option.splits)
qed

fun embedOk :: "'e embed \<Rightarrow> bool" where
  "embedOk (EFile nm body) = goodName nm"
| "embedOk (EDir nm es) = (goodName nm \<and> list_all embedOk es)"

lemma absPath_slash: "goodPath cs \<Longrightarrow> (if cs = [] then [] else absPath cs) @ slash # nm = absPath (cs @ [nm])"
  by (simp add: absPath_snoc)

lemma walkEmbed_keeps:
  fixes dirOf :: "string list \<Rightarrow> string" and e :: "'e embed" and es :: "'e embed list"
  defines "dirOf \<equiv> \<lambda>cs. if cs = [] then [] else absPath cs"
  shows "embedOk e \<Longrightarrow> goodPath cs \<Longrightarrow> dir = dirOf cs \<Longrightarrow> wfNode n \<and> IsDir n \<Longrightarrow>
      walkEmbed ld tr dir e n = Ok m \<Longrightarrow> wfNode m \<and> IsDir m"
    and "list_all embedOk es \<Longrightarrow> goodPath cs \<Longrightarrow> dir = dirOf cs \<Longrightarrow> wfNode n \<and> IsDir n \<Longrightarrow>
      walkEmbeds ld tr dir es n = Ok m \<Longrightarrow> wfNode m \<and> IsDir m"
proof (induction ld tr dir e n and ld tr dir es n arbitrary: cs m and cs m rule: walkEmbed_walkEmbeds.induct)
  case (1 ld transform dir nm body root)
  have p: "dir @ slash # nm = absPath (cs @ [nm])" using 1 by (simp add: dirOf_def absPath_slash)
  have k: "wfNode (addFile ld (dir @ slash # nm) b root) \<and> IsDir (addFile ld (dir @ slash # nm) b root)" for b
    using keepsD [OF keeps_addFile [of cs nm ld b], of root] 1(1,2,4) p by simp
  show ?case
    using 1(4,5) k by (cases body) (simp_all add: Let_def split: if_splits, blast+)
next
  case (2 ld transform dir nm es root)
  have g: "goodPath (cs @ [nm])" "list_all embedOk es" using 2(2,3) by simp_all
  have p: "dir @ slash # nm = absPath (cs @ [nm])" using 2(3,4) by (simp add: dirOf_def absPath_slash)
  show ?case
  proof (cases "nm = ''manifest.json'' \<or> nm = ''.DS_Store''")
    case False
    have k: "wfNode (ensureDir ld (dir @ slash # nm) root) \<and> IsDir (ensureDir ld (dir @ slash # nm) root)"
      using keepsD [OF keeps_ensureDir [OF g(1)]] 2(5) p by simp
    have "walkEmbeds ld transform (dir @ slash # nm) es (ensureDir ld (dir @ slash # nm) root) = Ok m"
      using 2(6) False by (simp add: Let_def)
    from 2(1) [OF refl False g(2,1) _ k this] show ?thesis by (simp add: dirOf_def p)
  qed (use 2(5,6) in auto)
next
  case (3 ld transform dir root)
  then show ?case by simp
next
  case (4 ld transform dir e es root)
  obtain r where r: "walkEmbed ld transform dir e root = Ok r" "walkEmbeds ld transform dir es r = Ok m"
    using 4(7) by (auto split: sum.splits)
  have "wfNode r \<and> IsDir r" using 4(1) [OF _ 4(4,5,6) r(1)] 4(3) by simp
  from 4(2) [OF r(1) _ 4(4,5) this r(2)] 4(3) show ?case by simp
qed

section \<open>Properties of the loaded tree\<close>

definition manifestOk :: "manifest \<Rightarrow> bool" where
  "manifestOk m = (list_all (\<lambda>bg. list_all goodName (bg_names bg)) (Binaries m) \<and>
     list_all (\<lambda>le. cleanAbs (le_path le) \<noteq> ''/'') (Links m))"

lemma loaderRoot_ok: "wfNode (loaderRoot ld) \<and> IsDir (loaderRoot ld)"
  by (simp add: loaderRoot_def IsDir_def Mode_def ModeDir_def)



section \<open>Grafted files are read back\<close>

text \<open>No node is a directory and a link at once.\<close>

fun typedTree :: "node \<Rightarrow> bool" where
  "typedTree (Node i cs) =
     (\<not> (IsDir (Node i []) \<and> IsLink (Node i [])) \<and> list_all (\<lambda>kc. typedTree (snd kc)) cs)"

lemma typedTree_here: "typedTree n \<Longrightarrow> IsDir n \<Longrightarrow> \<not> IsLink n"
  by (cases n) (auto simp: IsDir_def IsLink_def Mode_def)

lemma typedTree_child: "typedTree n \<Longrightarrow> mget (children n) k = Some c \<Longrightarrow> typedTree c"
  by (cases n) (auto simp: list_all_iff dest!: mget_in)

lemma typedTree_put: "typedTree n \<Longrightarrow> typedTree c \<Longrightarrow> typedTree (putChild k c n)"
  by (cases n) (simp add: putChild_def list_all_mput)

lemma ensureWalk_typed:
  "(\<And>k. typedTree (mk k)) \<Longrightarrow> typedTree n \<Longrightarrow> typedTree (ensureWalk mk ks n)"
proof (induction ks arbitrary: n)
  case (Cons k ks)
  then show ?case
    using typedTree_child [of n k] by (auto intro!: typedTree_put split: option.splits)
qed simp

text \<open>A path of directories that are no links.\<close>

fun dirPath :: "string list \<Rightarrow> node \<Rightarrow> bool" where
  "dirPath [] n = (IsDir n \<and> \<not> IsLink n)"
| "dirPath (k # ks) n = (IsDir n \<and> \<not> IsLink n \<and>
     (case mget (children n) k of None \<Rightarrow> False | Some c \<Rightarrow> dirPath ks c))"

lemma putChild_link [simp]: "IsLink (putChild k c n) = IsLink n"
  by (simp add: putChild_def IsLink_def Mode_def)

lemma children_putChild [simp]: "children (putChild k c n) = mput k c (children n)"
  by (simp add: putChild_def)

lemma ensureWalk_dirPath:
  "(\<And>k. IsDir (mk k) \<and> typedTree (mk k)) \<Longrightarrow> typedTree n \<Longrightarrow> IsDir n \<Longrightarrow> dirPath ks (ensureWalk mk ks n)"
proof (induction ks arbitrary: n)
  case (Cons k ks)
  then show ?case
    using typedTree_here [of n] typedTree_child [of n k] by (auto split: option.splits)
qed (use typedTree_here in auto)

lemma lookupWalk_dirPath:
  assumes "overlay s = []" "deleted s = []" "\<not> IsLink c" "goodName k"
  shows "goodPath cs \<Longrightarrow> goodPath ks \<Longrightarrow> dirPath ks n \<Longrightarrow>
    lookupWalk s (absPath cs) (modAt ks (putChild k c) n) (ks @ [k]) ff d = Ok c"
proof (induction ks arbitrary: n cs)
  case Nil
  then show ?case using assms
    by (simp add: lookupWalk.simps(2) child_absPath childOf_def isDeleted_absPath)
next
  case (Cons x xs)
  obtain i ch where n: "n = Node i ch" by (cases n)
  with Cons.prems obtain e where e: "mget ch x = Some e" "dirPath xs e" by (auto split: option.splits)
  let ?e = "modAt xs (putChild k c) e"
  have m: "modAt (x # xs) (putChild k c) n = putChild x ?e n" using n e by (simp add: putChild_def)
  have "\<not> IsLink ?e"
  proof (cases xs)
    case (Cons y ys)
    obtain ei ech where "e = Node ei ech" by (cases e)
    with Cons e(2) show ?thesis by (auto simp: IsLink_def Mode_def split: option.splits)
  qed (use e(2) in simp)
  moreover have "IsDir n" using Cons.prems by simp
  ultimately show ?case
    using m assms Cons.IH [of "cs @ [x]" e] e(2) Cons.prems
    by (simp add: lookupWalk.simps(2) child_absPath childOf_def isDeleted_absPath)
qed

text \<open>
  A file grafted into the shared tree at a randomised path, its missing ancestors made on the way,
  is what every new session reads under that path.
\<close>

theorem placed_file_is_read:
  assumes "typedTree (fs_root f)" "IsDir (fs_root f)" "cleanAbs p \<noteq> ''/''"
    and "mode AND ModeDir = 0" "mode AND ModeSymlink = 0"
  shows "ReadFile (NewSession (FS_Place f p content mode uname gname mtime) c0) (cleanAbs p) = Ok content"
proof -
  obtain cs c where cs: "goodPath cs" "goodName c" "cleanAbs p = absPath (cs @ [c])"
    using assms(3) keyOk_iff [of "cleanAbs p"] cleanAbs_form [of p] by (auto simp: keyOk_def)
  let ?root = "mkdirAll (absPath cs) (fs_root f)"
  let ?n = "Node (emptyInode\<lparr>n_name := c, n_mode := mode, n_uname := uname, n_gname := gname,
              n_mtime := mtime, n_content := content\<rparr>) []"
  let ?s = "NewSession (FS_Place f p content mode uname gname mtime) c0"
  have mk: "IsDir (mkdirAllNode (fs_root f) k) \<and> typedTree (mkdirAllNode (fs_root f) k)" for k
    by (simp add: mkdirAllNode_def IsDir_def IsLink_def Mode_def ModeDir_def ModeSymlink_def)
  have "dirPath cs ?root"
    using ensureWalk_dirPath [of "mkdirAllNode (fs_root f)" "fs_root f" cs] mk cs
      typedTree_here [OF assms(1,2)] assms(1,2)
    by (auto simp: mkdirAll_def Let_def)
  moreover have "\<not> IsLink ?n" "\<not> IsDir ?n" using assms(4,5) by (simp_all add: IsLink_def IsDir_def Mode_def)
  moreover have "fs_root (base ?s) = modAt cs (putChild c ?n) ?root"
    using cs by (simp add: NewSession_def FS_Place_def Let_def)
  moreover have "overlay ?s = []" "deleted ?s = []" by (simp_all add: NewSession_def Let_def)
  ultimately have "lookup ?s (absPath (cs @ [c])) True 0 = Ok ?n"
    using cs lookupWalk_dirPath [of ?s ?n c "[]" cs ?root True 0]
    by (simp add: lookup_absPath isDeleted_absPath)
  then show ?thesis
    using cs \<open>\<not> IsDir ?n\<close> by (simp add: ReadFile_def Resolve_absPath Content_def emptyInode_def)
qed

lemma placed_file_is_read_witness:
  "ReadFile (NewSession (FS_Place demoFS ''/t/keys/id_rsa'' ''secret'' 0x180 ''root'' ''root'' 5) ''/'')
     (cleanAbs ''/t/keys/id_rsa'') = Ok ''secret''"
  by (rule placed_file_is_read) code_simp+

end
