(* ===== verification/Util.thy ===== *)
theory Util
  imports Prelude
begin

text \<open>
  The helpers of \<^verbatim>\<open>internal/util/util.go\<close>, with the parts of packages \<^verbatim>\<open>unicode/utf8\<close> and \<^verbatim>\<open>net\<close> they
  rest on.  Randomness is an explicit list of draws.
\<close>

section \<open>Trimming, URLs and hosts\<close>

definition TrimCRLF :: "string \<Rightarrow> string" where
  "TrimCRLF s = TrimRight s [CR, LF, NUL]"

fun SliceContains :: "string list \<Rightarrow> string \<Rightarrow> bool" where
  "SliceContains [] v = False"
| "SliceContains (x # xs) v = (x = v \<or> SliceContains xs v)"

fun ExtractURL :: "string list \<Rightarrow> string" where
  "ExtractURL [] = []"
| "ExtractURL (p # ps) =
     (if HasPrefix p ''http://'' \<or> HasPrefix p ''https://'' \<or> HasPrefix p ''ftp://'' then p
      else ExtractURL ps)"

definition ExtractHost :: "string \<Rightarrow> string" where
  "ExtractHost raw =
     (let s = (case Index raw ''://'' of Some i \<Rightarrow> drop (i + 3) raw | None \<Rightarrow> raw);
          s = (case IndexAny s ''/?#'' of Some i \<Rightarrow> take i s | None \<Rightarrow> s)
      in case LastIndexByte s (CHR ''@'') of Some i \<Rightarrow> drop (i + 1) s | None \<Rightarrow> s)"

text \<open>\<^verbatim>\<open>mrand.IntN(n)\<close> is a draw below \<open>n\<close>.\<close>

definition RandomDelay :: "int \<Rightarrow> int \<Rightarrow> int \<Rightarrow> int" where
  "RandomDelay minMs maxMs draw =
     (if maxMs \<le> minMs then minMs * 1000000 else (minMs + draw mod (maxMs - minMs)) * 1000000)"

section \<open>Hexadecimal\<close>

definition hexDigit :: "int \<Rightarrow> char" where
  "hexDigit n = (if n < 10 then char_of (48 + n) else char_of (87 + n))"

definition hex2 :: "char \<Rightarrow> string" where
  "hex2 c = [hexDigit (code c div 16), hexDigit (code c mod 16)]"

definition HexDump :: "bytes \<Rightarrow> string" where
  "HexDump b = joinByte (CHR '' '') (map hex2 (take 32 b))"

section \<open>Base58\<close>

definition base58Alphabet :: string where
  "base58Alphabet = ''123456789ABCDEFGHJKLMNPQRSTUVWXYZabcdefghijkmnopqrstuvwxyz''"

definition base58Unbiased :: int where
  "base58Unbiased = 256 - (256 mod 58)"

text \<open>One buffer of random bytes: the letters kept, until the wanted number is reached.\<close>

fun base58Take :: "nat \<Rightarrow> bytes \<Rightarrow> string \<Rightarrow> string" where
  "base58Take len [] out = out"
| "base58Take len (x # xs) out =
     (if code x \<ge> base58Unbiased then base58Take len xs out
      else let out = out @ [base58Alphabet ! nat (code x mod 58)]
           in if length out = len then out else base58Take len xs out)"

text \<open>
  The list of reads is what \<^verbatim>\<open>crand.Read\<close> returns call by call, an error or a buffer; \<open>None\<close> means that
  the loop is still short of letters when the list ends.
\<close>

fun Base58Loop :: "nat \<Rightarrow> ('e + bytes) list \<Rightarrow> string \<Rightarrow> ('e + string) option" where
  "Base58Loop len rs out =
     (if length out \<ge> len then Some (Ok out)
      else case rs of
          [] \<Rightarrow> None
        | Inl e # _ \<Rightarrow> Some (Err e)
        | Inr buf # rs' \<Rightarrow> Base58Loop len rs' (base58Take len buf out))"

definition Base58GenStrict :: "nat \<Rightarrow> ('e + bytes) list \<Rightarrow> ('e + string) option" where
  "Base58GenStrict len rs = Base58Loop len rs []"

definition Base58Gen :: "nat \<Rightarrow> ('e + bytes) list \<Rightarrow> nat list \<Rightarrow> string option" where
  "Base58Gen len rs draws =
     (case Base58GenStrict len rs of
        None \<Rightarrow> None
      | Some (Inr s) \<Rightarrow> Some s
      | Some (Inl _) \<Rightarrow> Some (map (\<lambda>d. base58Alphabet ! (d mod 58)) (take len draws)))"

section \<open>Host and port (package net)\<close>

definition JoinHostPort :: "string \<Rightarrow> string \<Rightarrow> string" where
  "JoinHostPort host port =
     (if CHR '':'' \<in> set host then CHR ''['' # host @ '']:'' @ port else host @ CHR '':'' # port)"

definition SplitHostPort :: "string \<Rightarrow> (string \<times> string) option" where
  "SplitHostPort hp =
     (case LastIndexByte hp (CHR '':'') of
        None \<Rightarrow> None
      | Some i \<Rightarrow>
          if HasPrefix hp ''['' then
            (case IndexByte hp (CHR '']'') of
               None \<Rightarrow> None
             | Some e \<Rightarrow>
                 if e + 1 = i \<and> CHR ''['' \<notin> set (drop 1 hp) \<and> CHR '']'' \<notin> set (drop (e + 1) hp)
                 then Some (drop 1 (take e hp), drop (i + 1) hp) else None)
          else if CHR '':'' \<in> set (take i hp) \<or> CHR ''['' \<in> set hp \<or> CHR '']'' \<in> set hp then None
          else Some (take i hp, drop (i + 1) hp))"

definition HostOnly :: "string \<Rightarrow> string" where
  "HostOnly addr = (case SplitHostPort addr of Some (h, _) \<Rightarrow> h | None \<Rightarrow> addr)"

section \<open>Runes (package utf8)\<close>

definition contByte :: "int \<Rightarrow> int \<Rightarrow> char \<Rightarrow> bool" where
  "contByte lo hi c = (lo \<le> code c \<and> code c \<le> hi)"

text \<open>The rune at the front of a string and its width; an invalid encoding is U+FFFD of width one.\<close>

fun decodeRune :: "string \<Rightarrow> int \<times> nat" where
  "decodeRune [] = (0xFFFD, 1)"
| "decodeRune (a # s) =
    (let p = code a
     in if p < 0x80 then (p, 1)
        else if 0xC2 \<le> p \<and> p \<le> 0xDF then
          (case s of
             b # _ \<Rightarrow> if contByte 0x80 0xBF b then ((p - 0xC0) * 64 + (code b - 0x80), 2) else (0xFFFD, 1)
           | _ \<Rightarrow> (0xFFFD, 1))
        else if 0xE0 \<le> p \<and> p \<le> 0xEF then
          (case s of
             b # c # _ \<Rightarrow>
               if contByte (if p = 0xE0 then 0xA0 else 0x80) (if p = 0xED then 0x9F else 0xBF) b
                  \<and> contByte 0x80 0xBF c
               then ((p - 0xE0) * 4096 + (code b - 0x80) * 64 + (code c - 0x80), 3) else (0xFFFD, 1)
           | _ \<Rightarrow> (0xFFFD, 1))
        else if 0xF0 \<le> p \<and> p \<le> 0xF4 then
          (case s of
             b # c # d # _ \<Rightarrow>
               if contByte (if p = 0xF0 then 0x90 else 0x80) (if p = 0xF4 then 0x8F else 0xBF) b
                  \<and> contByte 0x80 0xBF c \<and> contByte 0x80 0xBF d
               then ((p - 0xF0) * 262144 + (code b - 0x80) * 4096 + (code c - 0x80) * 64 + (code d - 0x80), 4)
               else (0xFFFD, 1)
           | _ \<Rightarrow> (0xFFFD, 1))
        else (0xFFFD, 1))"

declare decodeRune.simps(2) [simp del]

lemma decodeRune_width: "1 \<le> snd (decodeRune s)"
  by (cases s) (auto simp: decodeRune.simps(2) Let_def split: list.splits)

function runes :: "string \<Rightarrow> int list" where
  "runes s = (if s = [] then [] else fst (decodeRune s) # runes (drop (snd (decodeRune s)) s))"
  by pat_completeness auto
termination
proof (relation "measure length", goal_cases)
  case (2 s)
  then show ?case using decodeRune_width [of s] by (cases s) auto
qed simp

declare runes.simps [simp del]

definition encodeRune :: "int \<Rightarrow> string" where
  "encodeRune r =
     (if r < 0x80 then [char_of r]
      else if r < 0x800 then [char_of (0xC0 + r div 64), char_of (0x80 + r mod 64)]
      else if r < 0x10000 then
        [char_of (0xE0 + r div 4096), char_of (0x80 + r div 64 mod 64), char_of (0x80 + r mod 64)]
      else [char_of (0xF0 + r div 262144), char_of (0x80 + r div 4096 mod 64),
            char_of (0x80 + r div 64 mod 64), char_of (0x80 + r mod 64)])"

section \<open>Display\<close>

definition isTerminalControl :: "int \<Rightarrow> bool" where
  "isTerminalControl r = (r < 0x20 \<or> (r \<ge> 0x7F \<and> r \<le> 0x9F))"

definition sanitizeRune :: "int \<Rightarrow> string" where
  "sanitizeRune r =
     (if r = 9 then '' '' else if isTerminalControl r then ''.'' else encodeRune r)"

definition SanitizeDisplay :: "string \<Rightarrow> string" where
  "SanitizeDisplay s = concat (map sanitizeRune (runes s))"

section \<open>Lemmas\<close>

definition validRune :: "int \<Rightarrow> bool" where
  "validRune r = (0 \<le> r \<and> r < 0x110000 \<and> \<not> (0xD800 \<le> r \<and> r \<le> 0xDFFF))"

lemma decodeRune_valid: "s \<noteq> [] \<Longrightarrow> validRune (fst (decodeRune s))"
  by (cases s)
    (auto simp: decodeRune.simps(2) Let_def validRune_def contByte_def split: list.splits if_splits)

lemma runes_valid: "r \<in> set (runes s) \<Longrightarrow> validRune r"
proof (induction s rule: runes.induct)
  case (1 s)
  then show ?case using decodeRune_valid [of s] by (subst (asm) runes.simps) (auto split: if_splits)
qed

lemma decode_encode2:
  assumes "0x80 \<le> r" "r < 0x800"
  shows "decodeRune (char_of (0xC0 + r div 64) # char_of (0x80 + r mod 64) # s) = (r, 2)"
proof -
  have "2 \<le> r div 64" "r div 64 < 32" "0 \<le> r mod 64" "r mod 64 < 64" using assms by auto
  then show ?thesis
    by (simp add: decodeRune.simps(2) contByte_def)
qed

lemma decode_encode3:
  assumes "0x800 \<le> r" "r < 0x10000" "\<not> (0xD800 \<le> r \<and> r \<le> 0xDFFF)"
  shows "decodeRune (char_of (0xE0 + r div 4096) # char_of (0x80 + r div 64 mod 64) # char_of (0x80 + r mod 64) # s)
    = (r, 3)"
proof -
  define a b c where abc: "a = r div 4096" "b = r div 64 mod 64" "c = r mod 64"
  have "r div 4096 = r div 64 div 64" using zdiv_zmult2_eq [of 64 r 64] by simp
  then have r: "r = a * 4096 + b * 64 + c"
    unfolding abc using div_mult_mod_eq [of r 64] div_mult_mod_eq [of "r div 64" 64] by linarith
  have bnd: "0 \<le> a" "a < 16" "0 \<le> b" "b < 64" "0 \<le> c" "c < 64" using assms unfolding abc by auto
  have e0: "a = 0 \<Longrightarrow> 32 \<le> b" and ed: "a = 13 \<Longrightarrow> b \<le> 31" using assms r bnd by auto
  have codes: "code (char_of (0xE0 + a)) = 0xE0 + a" "code (char_of (0x80 + b)) = 0x80 + b"
    "code (char_of (0x80 + c)) = 0x80 + c" using bnd by simp_all
  show ?thesis
    unfolding abc [symmetric] using bnd e0 ed r
    by (simp add: decodeRune.simps(2) contByte_def codes Let_def)
qed

lemma decode_encode4:
  assumes "0x10000 \<le> r" "r < 0x110000"
  shows "decodeRune (char_of (0xF0 + r div 262144) # char_of (0x80 + r div 4096 mod 64)
      # char_of (0x80 + r div 64 mod 64) # char_of (0x80 + r mod 64) # s) = (r, 4)"
proof -
  define a b c d where abc: "a = r div 262144" "b = r div 4096 mod 64" "c = r div 64 mod 64" "d = r mod 64"
  have "r div 4096 = r div 64 div 64" "r div 262144 = r div 4096 div 64"
    using zdiv_zmult2_eq [of 64 r 64] zdiv_zmult2_eq [of 64 r 4096] by simp_all
  then have r: "r = a * 262144 + b * 4096 + c * 64 + d"
    unfolding abc using div_mult_mod_eq [of r 64] div_mult_mod_eq [of "r div 64" 64]
      div_mult_mod_eq [of "r div 4096" 64] by linarith
  have bnd: "0 \<le> a" "a < 5" "0 \<le> b" "b < 64" "0 \<le> c" "c < 64" "0 \<le> d" "d < 64"
    using assms unfolding abc by auto
  have f0: "a = 0 \<Longrightarrow> 16 \<le> b" and f4: "a = 4 \<Longrightarrow> b \<le> 15" using assms r bnd by auto
  have codes: "code (char_of (0xF0 + a)) = 0xF0 + a" "code (char_of (0x80 + b)) = 0x80 + b"
    "code (char_of (0x80 + c)) = 0x80 + c" "code (char_of (0x80 + d)) = 0x80 + d" using bnd by simp_all
  show ?thesis
    unfolding abc [symmetric] using bnd f0 f4 r
    by (simp add: decodeRune.simps(2) contByte_def codes Let_def)
qed

lemma decode_encode:
  assumes "validRune r"
  shows "decodeRune (encodeRune r @ s) = (r, length (encodeRune r))"
proof -
  consider "0 \<le> r" "r < 0x80" | "0x80 \<le> r" "r < 0x800" | "0x800 \<le> r" "r < 0x10000" | "0x10000 \<le> r" "r < 0x110000"
    using assms unfolding validRune_def by linarith
  then show ?thesis
  proof cases
    case 1
    then show ?thesis by (simp add: encodeRune_def decodeRune.simps(2))
  next
    case 2
    then show ?thesis using decode_encode2 [of r s] by (simp add: encodeRune_def)
  next
    case 3
    then show ?thesis using decode_encode3 [of r s] assms by (simp add: encodeRune_def validRune_def)
  next
    case 4
    then show ?thesis using decode_encode4 [of r s] by (simp add: encodeRune_def)
  qed
qed

lemma runes_encode: "validRune r \<Longrightarrow> runes (encodeRune r @ s) = r # runes s"
proof -
  assume v: "validRune r"
  have "encodeRune r \<noteq> []" by (simp add: encodeRune_def)
  then show ?thesis using decode_encode [OF v, of s] by (subst runes.simps) simp
qed

lemma runes_concat: "\<forall>r\<in>set rs. validRune r \<Longrightarrow> runes (concat (map encodeRune rs)) = rs"
  by (induction rs) (simp_all add: runes_encode runes.simps [of "[]"])

definition cleanRune :: "int \<Rightarrow> int" where
  "cleanRune r = (if r = 9 then 32 else if isTerminalControl r then 46 else r)"

lemma sanitizeRune_encode: "sanitizeRune r = encodeRune (cleanRune r)"
  by (auto simp: sanitizeRune_def cleanRune_def encodeRune_def char_of_def)

lemma SanitizeDisplay_runes: "runes (SanitizeDisplay s) = map cleanRune (runes s)"
proof -
  have "\<forall>r\<in>set (map cleanRune (runes s)). validRune r"
    using runes_valid by (auto simp: cleanRune_def validRune_def)
  from runes_concat [OF this] show ?thesis
    by (simp add: SanitizeDisplay_def sanitizeRune_encode [abs_def] comp_def)
qed



section \<open>Base58 is unbiased\<close>

lemma base58Take_ok:
  "set out \<subseteq> set base58Alphabet \<Longrightarrow> length out < len \<Longrightarrow>
     set (base58Take len xs out) \<subseteq> set base58Alphabet \<and> length (base58Take len xs out) \<le> len"
proof (induction xs arbitrary: out)
  case (Cons x xs)
  have "nat (code x mod 58) < length base58Alphabet"
    by (simp add: base58Alphabet_def nat_less_iff)
  then have "base58Alphabet ! nat (code x mod 58) \<in> set base58Alphabet" by (rule nth_mem)
  with Cons show ?case by (auto simp: Let_def)
qed simp

lemma Base58Loop_ok:
  "set out \<subseteq> set base58Alphabet \<Longrightarrow> length out \<le> len \<Longrightarrow> Base58Loop len rs out = Some (Ok s) \<Longrightarrow>
     length s = len \<and> set s \<subseteq> set base58Alphabet"
proof (induction len rs out rule: Base58Loop.induct)
  case (1 len rs out)
  show ?case
  proof (cases "length out \<ge> len")
    case False
    with 1(4) obtain buf rs' where "rs = Inr buf # rs'" "Base58Loop len rs' (base58Take len buf out) = Some (Ok s)"
      by (auto simp: Base58Loop.simps [of len rs] split: list.splits sum.splits)
    with 1(1) [OF False] base58Take_ok [OF 1(2), of len buf] False show ?thesis by auto
  qed (use 1 in \<open>simp add: Base58Loop.simps [of len rs]\<close>)
qed

text \<open>
  A token from the strict generator has exactly the requested length and only base58 letters, an
  entropy error is never papered over, and the rejection makes every letter the image of exactly four of
  the accepted byte values.
\<close>

theorem base58_strict:
  "(Base58GenStrict len rs = Some (Ok s) \<longrightarrow> length s = len \<and> set s \<subseteq> set base58Alphabet) \<and>
   (0 < len \<longrightarrow> Base58GenStrict len (Inl e # rs) = Some (Err e)) \<and>
   (\<forall>i. 0 \<le> i \<and> i < 58 \<longrightarrow> length (filter (\<lambda>x. x < base58Unbiased \<and> x mod 58 = i) [0..255]) = 4)"
proof (intro conjI allI impI)
  fix i :: int
  assume "0 \<le> i \<and> i < 58"
  then have "i \<in> set [0..57]" by simp
  moreover have "list_all (\<lambda>i. length (filter (\<lambda>x. x < base58Unbiased \<and> x mod 58 = i) [0..255]) = 4) [0..57]"
    by code_simp
  ultimately show "length (filter (\<lambda>x. x < base58Unbiased \<and> x mod 58 = i) [0..255]) = 4"
    by (simp only: list_all_iff)
qed (use Base58Loop_ok [of "[]" len rs s] in \<open>auto simp: Base58GenStrict_def Base58Loop.simps [of len "Inl e # rs"]\<close>)

end
