(* ===== verification/SessionIO.thy ===== *)
theory SessionIO
  imports Util
begin

text \<open>
  The byte-level helpers of \<^verbatim>\<open>internal/server/session.go\<close> every protocol reads and writes with.  The reader
  is the list of bytes still to come, after which a read fails; time is in nanoseconds, the zero
  \<^verbatim>\<open>time.Time\<close> is \<^const>\<open>None\<close>.
\<close>

section \<open>Deadlines\<close>

definition maxSessionLifetime :: int where "maxSessionLifetime = 3600000000000"
definition defaultIdleTimeout :: int where "defaultIdleTimeout = 600000000000"

definition readDeadline :: "int \<Rightarrow> int \<Rightarrow> int option \<Rightarrow> int" where
  "readDeadline now idle deadline =
     (let d = now + idle
      in case deadline of Some dl \<Rightarrow> if d > dl then dl else d | None \<Rightarrow> d)"

definition HoldOpen_until :: "int \<Rightarrow> int \<Rightarrow> int option \<Rightarrow> int" where
  "HoldOpen_until now d deadline =
     (let hold = now + d
      in case deadline of Some dl \<Rightarrow> if hold > dl then dl else hold | None \<Rightarrow> hold)"

section \<open>Reading\<close>

definition maxLineBytes :: int where "maxLineBytes = 65536"
definition maxReadN :: int where "maxReadN = 1048576"

definition ReadN :: "int \<Rightarrow> string \<Rightarrow> bytes \<times> string" where
  "ReadN n reader =
     (if n \<le> 0 then ([], reader)
      else let n = (if n > maxReadN then maxReadN else n)
           in (take (nat n) reader, drop (nat n) reader))"

fun readLineLoop :: "string \<Rightarrow> string \<Rightarrow> (string \<times> bool) \<times> string" where
  "readLineLoop b [] = ((TrimCRLF b, False), [])"
| "readLineLoop b (c # r) =
     (if c = LF then ((TrimCRLF b, True), r)
      else if c = CR then
        ((TrimCRLF b, True), (case r of nb # r' \<Rightarrow> if nb = LF \<or> nb = NUL then r' else r | [] \<Rightarrow> r))
      else let b = b @ [c]
           in if int (length b) \<ge> maxLineBytes then ((TrimCRLF b, True), r) else readLineLoop b r)"

definition ReadLine :: "bool \<Rightarrow> string \<Rightarrow> (string \<times> bool) \<times> string" where
  "ReadLine capturing reader = (if capturing then (([], False), reader) else readLineLoop [] reader)"

section \<open>Writing\<close>

text \<open>What reached the connection, and the capture buffer when output is diverted.\<close>

record sessionOut =
  wire :: string
  captureBuf :: "string option"

definition Write :: "string \<Rightarrow> sessionOut \<Rightarrow> sessionOut" where
  "Write str s =
     (case captureBuf s of
        Some b \<Rightarrow> s\<lparr>captureBuf := Some (b @ str)\<rparr>
      | None \<Rightarrow> s\<lparr>wire := wire s @ str\<rparr>)"

definition Writeln :: "string \<Rightarrow> sessionOut \<Rightarrow> sessionOut" where
  "Writeln str = Write (str @ [CR, LF])"

definition CaptureOutput :: "(sessionOut \<Rightarrow> sessionOut) \<Rightarrow> sessionOut \<Rightarrow> string \<times> sessionOut" where
  "CaptureOutput fn s =
     (let s' = fn (s\<lparr>captureBuf := Some []\<rparr>)
      in (case captureBuf s' of Some b \<Rightarrow> b | None \<Rightarrow> [], s'\<lparr>captureBuf := captureBuf s\<rparr>))"

definition progressBar :: "int \<Rightarrow> string" where
  "progressBar pct =
     (let filled = pct * 20 div 100;
          filled = (if filled > 20 then 20 else filled)
      in CHR ''['' # map (\<lambda>i. if i < filled then CHR ''='' else if i = filled then CHR ''>'' else CHR '' '') [0..19] @ '']'')"

section \<open>Lines\<close>

lemma TrimCRLF_length: "length (TrimCRLF s) \<le> length s"
  unfolding TrimCRLF_def TrimRight_def TrimRightFunc_def by (metis length_dropWhile_le length_rev)

lemma TrimCRLF_id: "w = [] \<or> last w \<notin> {CR, LF, NUL} \<Longrightarrow> TrimCRLF w = w"
  by (cases w rule: rev_cases) (auto simp: TrimCRLF_def TrimRight_def TrimRightFunc_def)

lemma readLineLoop_bounded:
  "int (length b) < maxLineBytes \<Longrightarrow> int (length (fst (fst (readLineLoop b r)))) \<le> maxLineBytes"
proof (induction b r rule: readLineLoop.induct)
  case (1 b)
  then show ?case using TrimCRLF_length [of b] by simp
next
  case (2 b c r)
  show ?case
    using 2 TrimCRLF_length [of b] TrimCRLF_length [of "b @ [c]"] by (auto simp: Let_def)
qed

lemma readLineLoop_consumes:
  "r \<noteq> [] \<Longrightarrow> length (snd (readLineLoop b r)) < length r"
proof (induction b r rule: readLineLoop.induct)
  case (2 b c r)
  show ?case
  proof (cases r)
    case Nil
    then show ?thesis by (simp add: Let_def)
  next
    case (Cons d r')
    then show ?thesis using 2 by (auto simp: Let_def)
  qed
qed simp

lemma readLineLoop_suffix: "\<exists>used. r = used @ snd (readLineLoop b r)"
proof (induction b r rule: readLineLoop.induct)
  case (2 b c r)
  show ?case
  proof (cases "c = LF \<or> c = CR \<or> int (length (b @ [c])) \<ge> maxLineBytes")
    case True
    then show ?thesis
      by (cases r) (auto simp: Let_def intro: exI [of _ "[c]"] exI [of _ "[c, d]" for d])
  next
    case False
    then have "\<exists>used. r = used @ snd (readLineLoop (b @ [c]) r)" using 2 by auto
    then obtain used where "r = used @ snd (readLineLoop (b @ [c]) r)" ..
    with False show ?thesis by (auto simp: Let_def intro: exI [of _ "c # used"])
  qed
qed simp

text \<open>Reading to the end of the input, line by line.\<close>

function readAll :: "string \<Rightarrow> string list" where
  "readAll r = (if r = [] then [] else fst (fst (readLineLoop [] r)) # readAll (snd (readLineLoop [] r)))"
  by pat_completeness auto
termination
  by (relation "measure length") (auto simp: readLineLoop_consumes)

declare readAll.simps [simp del]

text \<open>The line endings of real clients: LF, CR LF, CR NUL.\<close>

definition lineEnds :: "string list" where
  "lineEnds = [[LF], [CR, LF], [CR, NUL]]"

definition plainLine :: "string \<Rightarrow> bool" where
  "plainLine w = (CR \<notin> set w \<and> LF \<notin> set w \<and> NUL \<notin> set w \<and> int (length w) < maxLineBytes)"

lemma readLineLoop_plain:
  "CR \<notin> set w \<Longrightarrow> LF \<notin> set w \<Longrightarrow> int (length b + length w) < maxLineBytes \<Longrightarrow>
     readLineLoop b (w @ c # r) = readLineLoop (b @ w) (c # r)"
proof (induction w arbitrary: b)
  case (Cons x w)
  then have "readLineLoop b ((x # w) @ c # r) = readLineLoop (b @ [x]) (w @ c # r)"
    by (auto simp: Let_def)
  also have "\<dots> = readLineLoop ((b @ [x]) @ w) (c # r)"
    using Cons by (intro Cons.IH) auto
  finally show ?case by simp
qed simp

lemma readLineLoop_end:
  assumes "plainLine w" "e \<in> set lineEnds"
  shows "readLineLoop [] (w @ e @ r) = ((w, True), r)"
proof -
  have t: "TrimCRLF w = w"
    using assms(1) by (intro TrimCRLF_id) (cases w rule: rev_cases; auto simp: plainLine_def)
  obtain c e' where e: "e = c # e'" using assms(2) by (auto simp: lineEnds_def)
  have "readLineLoop [] (w @ e @ r) = readLineLoop w (e @ r)"
    using readLineLoop_plain [of w "[]" c "e' @ r"] assms(1) e by (simp add: plainLine_def)
  also have "\<dots> = ((w, True), r)"
    using assms(2) t by (auto simp: lineEnds_def CR_def LF_def)
  finally show ?thesis .
qed

lemma readAll_lines:
  "\<forall>(w, e)\<in>set ls. plainLine w \<and> e \<in> set lineEnds \<Longrightarrow> readAll (concat (map (\<lambda>(w, e). w @ e) ls)) = map fst ls"
proof (induction ls)
  case (Cons l ls)
  obtain w e where l: "l = (w, e)" by (cases l)
  then have we: "plainLine w" "e \<in> set lineEnds" using Cons.prems by auto
  then have ne: "w @ e @ concat (map (\<lambda>(w, e). w @ e) ls) \<noteq> []" by (auto simp: lineEnds_def)
  show ?case
    using readLineLoop_end [OF we] Cons ne l by (subst readAll.simps) auto
qed (simp add: readAll.simps)

text \<open>
  C22: lines sent with LF, CR LF or CR NUL endings, in any mixture, are read back one by one exactly as
  typed, with no phantom line in between.
\<close>

theorem lines_read_back:
  assumes "\<forall>(w, e)\<in>set ls. plainLine w \<and> e \<in> set lineEnds"
  shows "readAll (concat (map (\<lambda>(w, e). w @ e) ls)) = map fst ls"
  using assms by (rule readAll_lines)

lemma lines_read_back_witness:
  "readAll (concat (map (\<lambda>(w, e). w @ e) [(''root'', [CR, NUL]), ([], [LF]), (''id'', [CR, LF])])) = [''root'', [], ''id'']"
  using lines_read_back [of "[(''root'', [CR, NUL]), ([], [LF]), (''id'', [CR, LF])]"]
  by (simp add: plainLine_def lineEnds_def maxLineBytes_def CR_def LF_def NUL_def)



end
