(* ===== verification/Admission.thy ===== *)
theory Admission
  imports Prelude
begin

text \<open>
  Connection admission (\<^verbatim>\<open>internal/server/server.go\<close>): the process-wide limiter, the per-source cap of each
  listener and the shed notices, as the path of \<open>handle\<close> takes them.  Every mutex or channel operation
  is one atomic step; between two of them any other connection may run.
\<close>

definition maxConnsPerIP :: int where "maxConnsPerIP = 128"
definition maxConns :: int where "maxConns = 4096"
definition shedLogInterval :: int where "shedLogInterval = 10000000000"

section \<open>The limiter, the per-source table and the shed notices\<close>

text \<open>The channel of the limiter holds one token per admitted connection.\<close>

definition tryAcquire :: "int \<Rightarrow> bool \<times> int" where
  "tryAcquire n = (if n < maxConns then (True, n + 1) else (False, n))"

definition limiterRelease :: "int \<Rightarrow> int" where
  "limiterRelease n = n - 1"

definition connCount :: "('k, int) gomap \<Rightarrow> 'k \<Rightarrow> int" where
  "connCount conns k = (case mget conns k of Some n \<Rightarrow> n | None \<Rightarrow> 0)"

definition acquire :: "'k \<Rightarrow> ('k, int) gomap \<Rightarrow> bool \<times> ('k, int) gomap" where
  "acquire k conns =
     (if connCount conns k \<ge> maxConnsPerIP then (False, conns)
      else (True, mput k (connCount conns k + 1) conns))"

definition release :: "'k \<Rightarrow> ('k, int) gomap \<Rightarrow> ('k, int) gomap" where
  "release k conns = (if connCount conns k \<le> 1 then mdel k conns else mput k (connCount conns k - 1) conns)"

record shedState =
  shedN :: int
  shedLast :: int

definition noteShed :: "int \<Rightarrow> shedState \<Rightarrow> int option \<times> shedState" where
  "noteShed now s =
     (let s = s\<lparr>shedN := shedN s + 1\<rparr>
      in if now - shedLast s < shedLogInterval then (None, s)
         else (Some (shedN s), s\<lparr>shedLast := now, shedN := 0\<rparr>))"

section \<open>Connections\<close>

text \<open>
  A connection holds the process-wide slot while its PROXY header is read, then also a slot of its
  source at its listener.
\<close>

datatype phase = Holding | Live "int \<times> string"

record 'c server =
  slots :: int
  conns :: "(int \<times> string, int) gomap"
  phases :: "('c, phase) gomap"

inductive srv_step :: "'c server \<Rightarrow> 'c server \<Rightarrow> bool"
where
  shed_global: "tryAcquire (slots S) = (False, n) \<Longrightarrow> srv_step S S"
| admit: "mget (phases S) i = None \<Longrightarrow> tryAcquire (slots S) = (True, n) \<Longrightarrow>
     srv_step S (S\<lparr>slots := n, phases := mput i Holding (phases S)\<rparr>)"
| bad_header: "mget (phases S) i = Some Holding \<Longrightarrow>
     srv_step S (S\<lparr>slots := limiterRelease (slots S), phases := mdel i (phases S)\<rparr>)"
| shed_source: "mget (phases S) i = Some Holding \<Longrightarrow> acquire k (conns S) = (False, cs) \<Longrightarrow>
     srv_step S (S\<lparr>slots := limiterRelease (slots S), phases := mdel i (phases S)\<rparr>)"
| go_live: "mget (phases S) i = Some Holding \<Longrightarrow> acquire k (conns S) = (True, cs) \<Longrightarrow>
     srv_step S (S\<lparr>conns := cs, phases := mput i (Live k) (phases S)\<rparr>)"
| finish: "mget (phases S) i = Some (Live k) \<Longrightarrow>
     srv_step S (S\<lparr>conns := release k (conns S), slots := limiterRelease (slots S), phases := mdel i (phases S)\<rparr>)"

inductive_cases srv_stepE: "srv_step S T"

definition emptyServer :: "'c server" where
  "emptyServer = \<lparr>slots = 0, conns = [], phases = []\<rparr>"

definition liveAt :: "int \<times> string \<Rightarrow> phase \<Rightarrow> int" where
  "liveAt k p = (if p = Live k then 1 else 0)"

definition srvInv :: "'c server \<Rightarrow> bool" where
  "srvInv S = (mapok (phases S) \<and> slots S = int (length (phases S)) \<and> slots S \<le> maxConns \<and>
     (\<forall>k. connCount (conns S) k = msum (liveAt k) (phases S)) \<and>
     (\<forall>k n. mget (conns S) k = Some n \<longrightarrow> 1 \<le> n \<and> n \<le> maxConnsPerIP))"

lemma connCount_mput [simp]: "connCount (mput k n m) k' = (if k' = k then n else connCount m k')"
  by (simp add: connCount_def)

lemma connCount_mdel [simp]: "connCount (mdel k m) k' = (if k' = k then 0 else connCount m k')"
  by (simp add: connCount_def)

lemma length_mput_int: "int (length (mput k v m)) = int (length m) + (if mget m k = None then 1 else 0)"
  by (simp add: length_mput)

lemma length_mdel_int: "mapok m \<Longrightarrow> mget m k \<noteq> None \<Longrightarrow> int (length (mdel k m)) = int (length m) - 1"
  using length_mdel [of m k] by linarith

lemma live_weight: "mget m i = Some p \<Longrightarrow> mweight (liveAt k) m i = liveAt k p"
  by (simp add: mweight_def)

lemma no_weight: "mget m i = None \<Longrightarrow> mweight f m i = 0"
  by (simp add: mweight_def)

lemma liveAt_simps [simp]: "liveAt k Holding = 0" "liveAt k (Live k') = (if k' = k then 1 else 0)"
  by (simp_all add: liveAt_def)

lemma live_counted:
  assumes "mget m i = Some (Live k)"
  shows "1 \<le> msum (liveAt k) m"
  using mweight_le_msum [of "liveAt k" m i] assms by (simp add: live_weight liveAt_def)

lemma srvInvD:
  assumes "srvInv S"
  shows "connCount (conns S) k = msum (liveAt k) (phases S)"
    and "mget (conns S) k = Some n \<Longrightarrow> 1 \<le> n \<and> n \<le> maxConnsPerIP"
    and "0 \<le> connCount (conns S) k" "connCount (conns S) k \<le> maxConnsPerIP"
proof -
  show c: "connCount (conns S) k = msum (liveAt k) (phases S)"
    and m: "mget (conns S) k = Some n \<Longrightarrow> 1 \<le> n \<and> n \<le> maxConnsPerIP" for n
    using assms unfolding srvInv_def by blast+
  show "0 \<le> connCount (conns S) k"
    unfolding c by (rule msum_nonneg) (simp add: liveAt_def)
  show "connCount (conns S) k \<le> maxConnsPerIP"
    using m by (auto simp: connCount_def maxConnsPerIP_def split: option.splits)
qed

lemma srv_step_keeps: "srv_step S T \<Longrightarrow> srvInv S \<Longrightarrow> srvInv T"
proof (induction rule: srv_step.induct)
  case (shed_global S n)
  then show ?case by simp
next
  case (admit S i n)
  then show ?case
    by (auto simp: srvInv_def tryAcquire_def msum_mput no_weight length_mput_int split: if_splits)
next
  case (bad_header S i)
  then show ?case
    by (auto simp: srvInv_def limiterRelease_def msum_mdel live_weight length_mdel_int)
next
  case (shed_source S i k cs)
  then show ?case
    by (auto simp: srvInv_def limiterRelease_def msum_mdel live_weight length_mdel_int)
next
  case (go_live S i k cs)
  then have "0 \<le> connCount (conns S) k" by (intro srvInvD)
  with go_live show ?case
    by (auto simp: srvInv_def acquire_def msum_mput live_weight length_mput_int split: if_splits)
next
  case (finish S i k)
  then have c: "1 \<le> connCount (conns S) k"
    using live_counted [of "phases S" i k] srvInvD(1) [of S k] by simp
  have b: "connCount (conns S) k \<le> maxConnsPerIP" using finish(2) by (rule srvInvD)
  show ?case
    using finish c b
    by (auto simp: srvInv_def release_def limiterRelease_def msum_mdel live_weight length_mdel_int split: if_splits)
qed

lemma srv_run_keeps: "srv_step\<^sup>*\<^sup>* S T \<Longrightarrow> srvInv S \<Longrightarrow> srvInv T"
  by (induction rule: rtranclp_induct) (auto intro: srv_step_keeps)

lemma emptyServer_inv: "srvInv emptyServer"
  by (simp add: srvInv_def emptyServer_def maxConns_def connCount_def)

text \<open>
  C24: under any interleaving of arrivals, header reads and endings, at most the process-wide number of
  connections is admitted and at most the per-source number from one address at one listener, the
  counters are exactly the connections that exist, and none leaks: when every connection has ended the
  limiter is empty and no source is remembered.
\<close>

theorem admission_bounded:
  assumes "srv_step\<^sup>*\<^sup>* emptyServer S"
  shows "int (length (phases S)) \<le> maxConns \<and> slots S = int (length (phases S)) \<and>
    (\<forall>k. connCount (conns S) k = msum (liveAt k) (phases S) \<and> connCount (conns S) k \<le> maxConnsPerIP) \<and>
    (phases S = [] \<longrightarrow> slots S = 0 \<and> conns S = [])"
proof -
  have inv: "srvInv S" using srv_run_keeps [OF assms emptyServer_inv] .
  have le: "connCount (conns S) k \<le> maxConnsPerIP" for k using inv by (rule srvInvD)
  have "conns S = []" if "phases S = []"
  proof (rule ccontr)
    assume "conns S \<noteq> []"
    then obtain k n m where m: "conns S = (k, n) # m" by (metis list.exhaust prod.exhaust)
    then have "1 \<le> n" "connCount (conns S) k = n" using srvInvD(2) [OF inv, of k n] by (auto simp: connCount_def)
    moreover have "connCount (conns S) k = 0" using srvInvD(1) [OF inv, of k] that by simp
    ultimately show False by simp
  qed
  with inv le show ?thesis by (auto simp: srvInv_def)
qed

lemma admission_bounded_witness:
  "\<exists>S. srv_step\<^sup>*\<^sup>* emptyServer S \<and> phases S = [(1::nat, Live (22, ''203.0.113.9''))] \<and>
     connCount (conns S) (22, ''203.0.113.9'') \<le> maxConnsPerIP"
proof -
  let ?A = "emptyServer\<lparr>slots := 1, phases := mput (1::nat) Holding []\<rparr>"
  let ?B = "?A\<lparr>conns := [((22, ''203.0.113.9''), 1)], phases := mput 1 (Live (22, ''203.0.113.9'')) (phases ?A)\<rparr>"
  have "srv_step emptyServer ?A"
    using admit [of emptyServer "1::nat" 1] by (simp add: emptyServer_def tryAcquire_def maxConns_def)
  moreover have "srv_step ?A ?B"
    using go_live [of ?A 1 "(22, ''203.0.113.9'')" "[((22, ''203.0.113.9''), 1)]"]
    by (simp add: emptyServer_def acquire_def connCount_def maxConnsPerIP_def)
  ultimately have r: "srv_step\<^sup>*\<^sup>* emptyServer ?B" by (meson converse_rtranclp_into_rtranclp r_into_rtranclp)
  moreover have "phases ?B = [(1::nat, Live (22, ''203.0.113.9''))]" by simp
  ultimately show ?thesis using admission_bounded [OF r] by blast
qed

section \<open>Shed notices\<close>

fun shedRun :: "int list \<Rightarrow> shedState \<Rightarrow> (int \<times> int) list \<times> shedState" where
  "shedRun [] s = ([], s)"
| "shedRun (now # ts) s =
     (case noteShed now s of
        (r, s') \<Rightarrow> (case shedRun ts s' of
          (ns, s'') \<Rightarrow> ((case r of Some n \<Rightarrow> [(now, n)] | None \<Rightarrow> []) @ ns, s'')))"

lemma shedRun_total:
  "sum_list (map snd (fst (shedRun ts s))) + shedN (snd (shedRun ts s)) = shedN s + int (length ts)"
proof (induction ts arbitrary: s)
  case (Cons t ts)
  obtain r s' where n: "noteShed t s = (r, s')" by (cases "noteShed t s")
  obtain ns s'' where r: "shedRun ts s' = (ns, s'')" by (cases "shedRun ts s'")
  have "(case r of Some n \<Rightarrow> n | None \<Rightarrow> 0) + shedN s' = shedN s + 1"
    using n by (auto simp: noteShed_def Let_def split: if_splits)
  with Cons [of s'] n r show ?case by (cases r) auto
qed simp

lemma shedRun_spaced:
  "sorted ts \<Longrightarrow> \<forall>t\<in>set ts. shedLast s \<le> t \<Longrightarrow>
     \<forall>n\<in>set (fst (shedRun ts s)). shedLast s + shedLogInterval \<le> fst n"
proof (induction ts arbitrary: s)
  case (Cons t ts)
  obtain r s' where n: "noteShed t s = (r, s')" by (cases "noteShed t s")
  obtain ns s'' where r: "shedRun ts s' = (ns, s'')" by (cases "shedRun ts s'")
  have le: "shedLast s \<le> shedLast s'" "shedLast s' \<le> t"
    and due: "\<And>k. r = Some k \<Longrightarrow> shedLast s + shedLogInterval \<le> t"
    using n Cons.prems(2) by (auto simp: noteShed_def Let_def split: if_splits)
  have "\<forall>u\<in>set ts. shedLast s' \<le> u" using Cons.prems(1) le(2) by auto
  with Cons.IH [of s'] Cons.prems(1) r le(1) have "\<forall>m\<in>set ns. shedLast s + shedLogInterval \<le> fst m" by fastforce
  with due n r show ?case by (cases r) auto
qed simp

end
