(* ===== verification/ProxyProto.thy ===== *)
theory ProxyProto
  imports Util
begin

text \<open>
  The PROXY protocol header reader (\<^verbatim>\<open>internal/proxyproto/proxyproto.go\<close>).  The buffered reader is the
  list of bytes still to come, after which reads fail; every function returns what is left of it.
  \<open>parseIP\<close> and \<open>ipString\<close> stand for \<^verbatim>\<open>net.ParseIP\<close> succeeding and \<^verbatim>\<open>net.IP.String\<close>.
\<close>

record Addr =
  Src :: string
  Dst :: string

datatype proxy_error =
    EOF
  | TruncatedV1 | TooLongV1 | MalformedV1 | BadAddressV1 | BadPortV1
  | TruncatedV2 | BadVersionV2 | ShortIPv4 | ShortIPv6

type_synonym proxy_result = "(proxy_error + Addr option) \<times> string"

definition v2sig :: bytes where
  "v2sig = [CHR 0x0D, CHR 0x0A, CHR 0x0D, CHR 0x0A, CHR 0x00, CHR 0x0D,
            CHR 0x0A, CHR 0x51, CHR 0x55, CHR 0x49, CHR 0x54, CHR 0x0A]"

definition maxV1Len :: nat where "maxV1Len = 107"

fun readV1Loop :: "nat \<Rightarrow> string \<Rightarrow> string \<Rightarrow> (proxy_error + string) \<times> string" where
  "readV1Loop 0 b br = (Err TooLongV1, br)"
| "readV1Loop (Suc k) b [] = (Err TruncatedV1, [])"
| "readV1Loop (Suc k) b (c # br) =
     (if c = LF then (Ok (b @ [c]), br) else readV1Loop k (b @ [c]) br)"

definition readV1Line :: "string \<Rightarrow> (proxy_error + string) \<times> string" where
  "readV1Line br = readV1Loop maxV1Len [] br"

definition validPort :: "string \<Rightarrow> bool" where
  "validPort s = (case Atoi s of Some n \<Rightarrow> 0 \<le> n \<and> n \<le> 65535 | None \<Rightarrow> False)"

definition be16 :: "bytes \<Rightarrow> int" where
  "be16 b = code (b ! 0) * 256 + code (b ! 1)"

definition itoaU16 :: "bytes \<Rightarrow> string" where
  "itoaU16 b = Itoa (be16 b)"

definition parseV1 :: "(string \<Rightarrow> bool) \<Rightarrow> string \<Rightarrow> proxy_result" where
  "parseV1 parseIP br =
     (if length br < 6 \<or> take 6 br \<noteq> ''PROXY '' then (Ok None, br)
      else case readV1Line br of
          (Inl e, br') \<Rightarrow> (Err e, br')
        | (Inr line, br') \<Rightarrow>
            (let f = splitByte (CHR '' '') (TrimRight line [CR, LF])
             in if length f \<ge> 2 \<and> f ! 1 = ''UNKNOWN'' then (Ok None, br')
                else if length f \<noteq> 6 \<or> (f ! 1 \<noteq> ''TCP4'' \<and> f ! 1 \<noteq> ''TCP6'') then (Err MalformedV1, br')
                else if \<not> parseIP (f ! 2) \<or> \<not> parseIP (f ! 3) then (Err BadAddressV1, br')
                else if \<not> validPort (f ! 4) \<or> \<not> validPort (f ! 5) then (Err BadPortV1, br')
                else (Ok (Some \<lparr>Src = JoinHostPort (f ! 2) (f ! 4), Dst = JoinHostPort (f ! 3) (f ! 5)\<rparr>), br')))"

definition slice :: "nat \<Rightarrow> nat \<Rightarrow> bytes \<Rightarrow> bytes" where
  "slice i j b = take (j - i) (drop i b)"

definition parseV2 :: "(bytes \<Rightarrow> string) \<Rightarrow> string \<Rightarrow> proxy_result" where
  "parseV2 ipString br =
     (if length br < 16 \<or> take 12 br \<noteq> v2sig then (Ok None, br)
      else let len = nat (be16 (slice 14 16 br))
           in if length br < 16 + len then (Err TruncatedV2, [])
              else let full = take (16 + len) br;
                       rest = drop (16 + len) br;
                       verCmd = code (full ! 12);
                       addrs = drop 16 full
                   in if verCmd div 16 \<noteq> 2 then (Err BadVersionV2, rest)
                      else if verCmd mod 16 = 0 then (Ok None, rest)
                      else if code (full ! 13) = 0x11 then
                        (if length addrs < 12 then (Err ShortIPv4, rest)
                         else (Ok (Some
                           \<lparr>Src = JoinHostPort (ipString (slice 0 4 addrs)) (itoaU16 (slice 8 10 addrs)),
                            Dst = JoinHostPort (ipString (slice 4 8 addrs)) (itoaU16 (slice 10 12 addrs))\<rparr>), rest))
                      else if code (full ! 13) = 0x21 then
                        (if length addrs < 36 then (Err ShortIPv6, rest)
                         else (Ok (Some
                           \<lparr>Src = JoinHostPort (ipString (slice 0 16 addrs)) (itoaU16 (slice 32 34 addrs)),
                            Dst = JoinHostPort (ipString (slice 16 32 addrs)) (itoaU16 (slice 34 36 addrs))\<rparr>), rest))
                      else (Ok None, rest))"

definition Parse :: "(string \<Rightarrow> bool) \<Rightarrow> (bytes \<Rightarrow> string) \<Rightarrow> string \<Rightarrow> proxy_result" where
  "Parse parseIP ipString br =
     (case br of
        [] \<Rightarrow> (Err EOF, br)
      | c # _ \<Rightarrow>
          if c = CHR ''P'' then parseV1 parseIP br
          else if c = CR then parseV2 ipString br
          else (Ok None, br))"

section \<open>What is consumed\<close>

lemma readV1Loop_consumes:
  "readV1Loop k b br = (r, br') \<Longrightarrow>
     \<exists>used. br = used @ br' \<and> length used \<le> k \<and> (\<forall>line. r = Inr line \<longrightarrow> line = b @ used)"
proof (induction k b br rule: readV1Loop.induct)
  case (3 k b c br)
  show ?case
  proof (cases "c = LF")
    case True
    with 3(2) show ?thesis by (intro exI [of _ "[c]"]) auto
  next
    case False
    with 3(2) have "readV1Loop k (b @ [c]) br = (r, br')" by simp
    from 3(1) [OF False this] obtain used where
      "br = used @ br'" "length used \<le> k" "\<forall>line. r = Inr line \<longrightarrow> line = (b @ [c]) @ used" by blast
    then show ?thesis by (intro exI [of _ "c # used"]) auto
  qed
qed auto

lemma readV1Loop_line:
  "LF \<notin> set w \<Longrightarrow> length w < k \<Longrightarrow> readV1Loop k b (w @ LF # rest) = (Ok (b @ w @ [LF]), rest)"
proof (induction w arbitrary: k b)
  case Nil
  then show ?case by (cases k) auto
next
  case (Cons c w)
  then obtain j where "k = Suc j" "length w < j" by (cases k) auto
  with Cons show ?case by auto
qed

lemma parseV1_consumes:
  assumes "parseV1 parseIP br = (r, br')"
  shows "\<exists>used. br = used @ br' \<and> length used \<le> maxV1Len \<and> (\<not> HasPrefix br ''PROXY '' \<longrightarrow> used = [])"
proof (cases "length br < 6 \<or> take 6 br \<noteq> ''PROXY ''")
  case True
  then show ?thesis using assms by (simp add: parseV1_def)
next
  case False
  obtain q br'' where q: "readV1Line br = (q, br'')" by (cases "readV1Line br")
  then obtain used where used: "br = used @ br''" "length used \<le> maxV1Len"
    using readV1Loop_consumes unfolding readV1Line_def by blast
  have "br' = br''"
    using assms False q by (auto simp: parseV1_def Let_def split: sum.splits if_splits)
  moreover have "HasPrefix br ''PROXY ''"
    using False by (metis HasPrefix_append append_take_drop_id)
  ultimately show ?thesis using used by blast
qed

lemma parseV2_consumes:
  assumes "parseV2 ipString br = (r, br')"
  shows "\<exists>used. br = used @ br' \<and> length used \<le> 16 + 65535 \<or> (r = Err TruncatedV2 \<and> br' = [])"
proof -
  have b: "nat (be16 x) \<le> 65535" for x
    using code_range(2) [of "x ! 0"] code_range(2) [of "x ! 1"] unfolding be16_def nat_le_iff by linarith
  consider "br' = br" | n where "br' = drop (16 + n) br" "n \<le> 65535" | "r = Err TruncatedV2" "br' = []"
    using assms b [of "slice 14 16 br"]
    by (auto simp: parseV2_def Let_def split: if_splits)
  then show ?thesis
  proof cases
    case 1
    then have "br = [] @ br'" by simp
    then show ?thesis by (metis le0 list.size(3))
  next
    case (2 n)
    then have "br = take (16 + n) br @ br'" by simp
    moreover have "length (take (16 + n) br) \<le> 16 + 65535" using 2 by simp
    ultimately show ?thesis by blast
  qed blast
qed

text \<open>
  C15: a stream that does not open with a PROXY signature is handed to the emulated service untouched,
  and a text header never takes more than the 107 bytes of the specification from the stream.
\<close>

theorem proxy_header_framing:
  assumes "Parse parseIP ipString br = (r, rest)"
  shows "(\<not> HasPrefix br ''PROXY '' \<and> \<not> HasPrefix br v2sig \<longrightarrow>
      rest = br \<and> (r = Ok None \<or> br = [])) \<and>
    (HasPrefix br ''P'' \<longrightarrow> (\<exists>used. br = used @ rest \<and> length used \<le> 107))"
proof (cases br)
  case Nil
  with assms show ?thesis by (simp add: Parse_def)
next
  case (Cons c cs)
  have v2: "HasPrefix br v2sig" if "take 12 br = v2sig"
    using that by (metis HasPrefix_append append_take_drop_id)
  have v1: "HasPrefix br ''PROXY ''" if "take 6 br = ''PROXY ''"
    using that by (metis HasPrefix_append append_take_drop_id)
  show ?thesis
  proof (cases "c = CHR ''P''")
    case True
    with assms Cons have p: "parseV1 parseIP br = (r, rest)" by (simp add: Parse_def)
    have "r = Ok None" if "\<not> HasPrefix br ''PROXY ''"
    proof -
      have "take 6 br \<noteq> ''PROXY ''" using v1 that by blast
      with p show ?thesis by (simp add: parseV1_def)
    qed
    with parseV1_consumes [OF p] show ?thesis by (auto simp: maxV1Len_def)
  next
    case False
    with assms Cons v2 show ?thesis
      by (auto simp: Parse_def parseV2_def split: if_splits)
  qed
qed

lemma proxy_header_framing_witness:
  "\<exists>used. ''PROXY UNKNOWN'' @ [CR, LF] @ ''GET /'' = used @ ''GET /'' \<and> length used \<le> 107"
proof -
  have "Parse (\<lambda>_. True) (\<lambda>_. []) (''PROXY UNKNOWN'' @ [CR, LF] @ ''GET /'') = (Ok None, ''GET /'')" by code_simp
  from proxy_header_framing [OF this] show ?thesis by simp
qed

section \<open>Round trips\<close>

lemma LastIndexByte_last: "c \<notin> set p \<Longrightarrow> LastIndexByte (h @ c # p) c = Some (length h)"
proof -
  assume "c \<notin> set p"
  then have "IndexFunc (\<lambda>x. x = c) (rev p @ c # rev h) = Some (length (rev p))"
    by (intro IndexFunc_append) auto
  then show ?thesis by (simp add: LastIndexByte_def IndexByte_def)
qed

lemma HostOnly_JoinHostPort:
  assumes "CHR ''['' \<notin> set h" "CHR '']'' \<notin> set h" "CHR '':'' \<notin> set p" "CHR ''['' \<notin> set p" "CHR '']'' \<notin> set p"
  shows "HostOnly (JoinHostPort h p) = h"
proof (cases "CHR '':'' \<in> set h")
  case False
  have "\<not> HasPrefix (h @ CHR '':'' # p) ''[''" using assms by (cases h) auto
  then show ?thesis using False assms LastIndexByte_last [of "CHR '':''" p h]
    by (simp add: HostOnly_def JoinHostPort_def SplitHostPort_def)
next
  case True
  have l: "LastIndexByte ((CHR ''['' # h @ '']'') @ CHR '':'' # p) (CHR '':'') = Some (length h + 2)"
    using assms by (subst LastIndexByte_last) auto
  have i: "IndexByte ((CHR ''['' # h) @ CHR '']'' # CHR '':'' # p) (CHR '']'') = Some (length (CHR ''['' # h))"
    using assms unfolding IndexByte_def by (intro IndexFunc_append) auto
  show ?thesis using True assms l i
    by (simp add: HostOnly_def JoinHostPort_def SplitHostPort_def)
qed

lemma validPort_Itoa: "0 \<le> n \<Longrightarrow> n \<le> 65535 \<Longrightarrow> validPort (Itoa n)"
  using Atoi_Itoa [of n] by (simp add: validPort_def minInt64_def maxInt64_def)

lemma Itoa_digits: "0 \<le> n \<Longrightarrow> \<forall>c\<in>set (Itoa n). isDigit c"
  using natDigits_digits [of n] by (simp add: Itoa_def list_all_iff)

lemma Itoa_avoids: "0 \<le> n \<Longrightarrow> \<not> isDigit c \<Longrightarrow> c \<notin> set (Itoa n)"
  using Itoa_digits by blast

definition v1Header :: "string \<Rightarrow> string \<Rightarrow> int \<Rightarrow> int \<Rightarrow> string" where
  "v1Header src dst sport dport =
     joinByte (CHR '' '') [''PROXY'', ''TCP4'', src, dst, Itoa sport, Itoa dport]"

lemma TrimRight_line: "c \<notin> {CR, LF} \<Longrightarrow> TrimRight (w @ [c, CR, LF]) [CR, LF] = w @ [c]"
  by (simp add: TrimRight_def TrimRightFunc_def)



end
