(* ===== verification/Events.thy ===== *)
theory Events
  imports Util
begin

text \<open>
  The event log (\<^verbatim>\<open>internal/event/event.go\<close>), the session's event builders (the event helpers of
  \<^verbatim>\<open>internal/server/session.go\<close>) and the session recorder (\<^verbatim>\<open>internal/record/record.go\<close>).  The JSON encoder,
  the clock, the duration printer, SHA-256 and whether a write to the file succeeds are parameters; the
  file is the text written to it so far.
\<close>

section \<open>Entries\<close>

record Entry =
  e_Time :: string
  e_EpochMs :: int
  e_Event :: string
  e_Session :: string
  e_Sensor :: string
  e_IP :: string
  e_SrcIP :: string
  e_DstIP :: string
  e_Port :: int
  e_Protocol :: string
  e_Persona :: string
  e_Username :: string
  e_Password :: string
  e_Command :: string
  e_Request :: string
  e_Method :: string
  e_Path :: string
  e_Body :: string
  e_UserAgent :: string
  e_Headers :: "(string, string) gomap"
  e_URL :: string
  e_Host :: string
  e_Filename :: string
  e_SHA256 :: string
  e_DurationMs :: int
  e_CmdCount :: int
  e_Data :: string
  e_Note :: string
  e_Message :: string

definition emptyEntry :: Entry where
  "emptyEntry = \<lparr>e_Time = [], e_EpochMs = 0, e_Event = [], e_Session = [], e_Sensor = [], e_IP = [],
     e_SrcIP = [], e_DstIP = [], e_Port = 0, e_Protocol = [], e_Persona = [], e_Username = [], e_Password = [],
     e_Command = [], e_Request = [], e_Method = [], e_Path = [], e_Body = [], e_UserAgent = [], e_Headers = [],
     e_URL = [], e_Host = [], e_Filename = [], e_SHA256 = [], e_DurationMs = 0, e_CmdCount = 0, e_Data = [],
     e_Note = [], e_Message = []\<rparr>"

definition summaryDetail :: "(int \<Rightarrow> string) \<Rightarrow> Entry \<Rightarrow> string" where
  "summaryDetail durString e =
     (if e_Command e \<noteq> [] then e_Command e
      else if e_Username e \<noteq> [] \<and> e_Password e \<noteq> [] then e_Username e @ '' / '' @ e_Password e
      else if e_Username e \<noteq> [] then ''user='' @ e_Username e
      else if e_URL e \<noteq> [] then e_URL e
      else if e_Request e \<noteq> [] then e_Request e
      else if e_Path e \<noteq> [] then e_Path e
      else if e_Event e = ''SESSION_END'' then Itoa (e_CmdCount e) @ '' cmds, '' @ durString (e_DurationMs e)
      else if e_Data e \<noteq> [] then e_Data e
      else [])"

section \<open>The logger\<close>

record Logger =
  log_file :: "string option"
  sensor :: string
  dropped :: int
  warned :: bool

definition Logger_Close :: "Logger \<Rightarrow> Logger" where
  "Logger_Close l = l\<lparr>log_file := None\<rparr>"

text \<open>The entry as it is stamped, its line on the console and what is written.\<close>

definition stamp :: "(int \<Rightarrow> string) \<Rightarrow> string \<Rightarrow> int \<Rightarrow> Logger \<Rightarrow> Entry \<Rightarrow> Entry" where
  "stamp durString timeText epochMs l e =
     (let e = e\<lparr>e_Time := timeText, e_EpochMs := epochMs\<rparr>;
          e = (if e_Sensor e = [] then e\<lparr>e_Sensor := sensor l\<rparr> else e)
      in if e_Message e = [] then e\<lparr>e_Message := summaryDetail durString e\<rparr> else e)"

definition padRight :: "nat \<Rightarrow> string \<Rightarrow> string" where
  "padRight n s = s @ replicate (n - length s) (CHR '' '')"

definition consoleLine :: "Entry \<Rightarrow> string" where
  "consoleLine e =
     CHR ''['' # take 8 (drop 11 (e_Time e)) @ ''] '' @ padRight 21 (e_IP e) @ '' '' @ padRight 16 (e_Event e)
       @ '' '' @ SanitizeDisplay (e_Message e) @ [LF]"

definition Log ::
  "(int \<Rightarrow> string) \<Rightarrow> (Entry \<Rightarrow> string option) \<Rightarrow> bool \<Rightarrow> string \<Rightarrow> int \<Rightarrow> Entry \<Rightarrow> Logger \<Rightarrow> Logger \<times> string" where
  "Log durString marshal writeOk timeText epochMs e0 l =
     (let e = stamp durString timeText epochMs l e0
      in case marshal e of
           None \<Rightarrow> (l, [])
         | Some data \<Rightarrow>
             ((case log_file l of
                 None \<Rightarrow> l
               | Some f \<Rightarrow>
                   if writeOk then l\<lparr>log_file := Some (f @ data @ [LF])\<rparr>
                   else l\<lparr>dropped := dropped l + 1, warned := True\<rparr>),
              consoleLine e))"

definition PortScan :: "string \<Rightarrow> int \<Rightarrow> string \<Rightarrow> Entry" where
  "PortScan remoteAddr dstPort proto =
     emptyEntry\<lparr>e_Event := ''PORT_SCAN'', e_IP := remoteAddr, e_SrcIP := HostOnly remoteAddr,
       e_Port := dstPort, e_Protocol := proto\<rparr>"

definition System :: "string \<Rightarrow> Entry" where
  "System msg = emptyEntry\<lparr>e_Event := ''SYSTEM'', e_Message := msg\<rparr>"

definition FloodBlocked :: "string \<Rightarrow> int \<Rightarrow> Entry" where
  "FloodBlocked srcIP rate =
     emptyEntry\<lparr>e_Event := ''FLOOD_BLOCKED'', e_IP := srcIP, e_SrcIP := srcIP,
       e_Message := ''edge rate-limited a flood (conn_rate '' @ Itoa rate @ ''/10s)''\<rparr>"

section \<open>The session's events\<close>

record SessionID =
  se_ID :: string
  se_IP :: string
  se_SrcIP :: string
  se_DstIP :: string
  se_port :: int
  se_protocol :: string
  se_persona :: "string option"
  se_CmdCount :: int
  se_Username :: string

definition ev :: "SessionID \<Rightarrow> string \<Rightarrow> Entry" where
  "ev s name =
     (let e = emptyEntry\<lparr>e_Event := name, e_Session := se_ID s, e_IP := se_IP s, e_SrcIP := se_SrcIP s,
            e_DstIP := se_DstIP s, e_Port := se_port s, e_Protocol := se_protocol s\<rparr>
      in case se_persona s of Some h \<Rightarrow> e\<lparr>e_Persona := h\<rparr> | None \<Rightarrow> e)"

definition LogSessionStart :: "SessionID \<Rightarrow> Entry" where
  "LogSessionStart s = ev s ''SESSION_START''"

definition LogSessionEnd :: "SessionID \<Rightarrow> int \<Rightarrow> Entry" where
  "LogSessionEnd s durMs = (ev s ''SESSION_END'')\<lparr>e_DurationMs := durMs, e_CmdCount := se_CmdCount s,
     e_Username := se_Username s\<rparr>"

definition LogCredential :: "SessionID \<Rightarrow> string \<Rightarrow> string \<Rightarrow> Entry" where
  "LogCredential s user pass = (ev s ''CREDENTIAL'')\<lparr>e_Username := user, e_Password := pass\<rparr>"

definition LogCredentialResult :: "SessionID \<Rightarrow> string \<Rightarrow> string \<Rightarrow> bool \<Rightarrow> bool \<Rightarrow> Entry" where
  "LogCredentialResult s user pass acc bruteForced =
     (ev s ''CREDENTIAL'')\<lparr>e_Username := user, e_Password := pass,
        e_Note := (if bruteForced then ''accepted (brute-forced)'' else if acc then ''accepted'' else ''rejected'')\<rparr>"

definition LogPublicKey :: "SessionID \<Rightarrow> string \<Rightarrow> string \<Rightarrow> string \<Rightarrow> Entry" where
  "LogPublicKey s user keyType fp =
     (ev s ''CREDENTIAL'')\<lparr>e_Username := user, e_Password := keyType @ '' '' @ fp, e_Note := ''publickey rejected''\<rparr>"

definition LogHoneytoken :: "SessionID \<Rightarrow> string \<Rightarrow> string \<Rightarrow> Entry" where
  "LogHoneytoken s tok detail = (ev s ''HONEYTOKEN'')\<lparr>e_Note := tok, e_Command := detail\<rparr>"

definition LogCommand :: "SessionID \<Rightarrow> string \<Rightarrow> Entry" where
  "LogCommand s cmd = (ev s ''COMMAND'')\<lparr>e_Command := cmd\<rparr>"

definition LogCommandNote :: "SessionID \<Rightarrow> string \<Rightarrow> string \<Rightarrow> Entry" where
  "LogCommandNote s cmd note = (ev s ''COMMAND'')\<lparr>e_Command := cmd, e_Note := note\<rparr>"

definition LogDropper :: "(bytes \<Rightarrow> string) \<Rightarrow> SessionID \<Rightarrow> string \<Rightarrow> string \<Rightarrow> bytes \<Rightarrow> Entry" where
  "LogDropper sha256hex s filename command content =
     (ev s ''DROPPER'')\<lparr>e_Filename := filename, e_Command := command,
        e_Data := (if length content > 8192 then take 8192 content else content),
        e_SHA256 := sha256hex content\<rparr>"

definition LogDownload :: "SessionID \<Rightarrow> string \<Rightarrow> string \<Rightarrow> string \<Rightarrow> string \<Rightarrow> Entry" where
  "LogDownload s cmd url host filename =
     (ev s ''DOWNLOAD_ATTEMPT'')\<lparr>e_Command := cmd, e_URL := url, e_Host := host, e_Filename := filename\<rparr>"

definition LogExec :: "SessionID \<Rightarrow> string \<Rightarrow> string \<Rightarrow> Entry" where
  "LogExec s detail sha = (ev s ''EXEC_ATTEMPT'')\<lparr>e_Command := detail, e_SHA256 := sha\<rparr>"

definition LogHTTPRequest :: "SessionID \<Rightarrow> string \<Rightarrow> string \<Rightarrow> string \<Rightarrow> (string, string) gomap \<Rightarrow> Entry" where
  "LogHTTPRequest s method request path headers =
     (ev s ''HTTP_REQUEST'')\<lparr>e_Method := method, e_Request := request, e_Path := path, e_Headers := headers,
        e_UserAgent := (case mget headers ''user-agent'' of Some v \<Rightarrow> v | None \<Rightarrow> [])\<rparr>"

definition LogHTTPPost :: "SessionID \<Rightarrow> string \<Rightarrow> string \<Rightarrow> string \<Rightarrow> Entry" where
  "LogHTTPPost s path body sha = (ev s ''HTTP_POST'')\<lparr>e_Path := path, e_Body := body, e_SHA256 := sha\<rparr>"

definition LogRaw :: "SessionID \<Rightarrow> string \<Rightarrow> string \<Rightarrow> Entry" where
  "LogRaw s name data = (ev s name)\<lparr>e_Data := data\<rparr>"

section \<open>The recorder\<close>

definition maxCastBytes :: int where "maxCastBytes = 16777216"

record Recorder =
  rec_file :: "string option"
  written :: int
  capped :: bool

definition castLine :: "string \<Rightarrow> string \<Rightarrow> string" where
  "castLine off data = CHR ''['' # off @ '', '' @ [DQUOTE] @ ''o'' @ [DQUOTE] @ '', '' @ data @ '']'' @ [LF]"

definition truncMarker :: string where
  "truncMarker = [DQUOTE, BACKSLASH] @ ''r'' @ [BACKSLASH] @ ''n[recording truncated]'' @ [BACKSLASH] @ ''r''
     @ [BACKSLASH] @ ''n'' @ [DQUOTE]"

definition Recorder_New :: "string \<Rightarrow> Recorder" where
  "Recorder_New hdr = \<lparr>rec_file = Some (hdr @ [LF]), written = 0, capped = False\<rparr>"

text \<open>\<open>data\<close> is the encoder's result for the bytes, \<open>off\<close> the offset text and \<open>n\<close> how much of the line the file took.\<close>

definition Recorder_Write :: "string option \<Rightarrow> string \<Rightarrow> nat \<Rightarrow> bytes \<Rightarrow> Recorder \<Rightarrow> Recorder" where
  "Recorder_Write data off n b r =
     (if b = [] then r
      else case rec_file r of
          None \<Rightarrow> r
        | Some f \<Rightarrow>
            if capped r then r
            else case data of
                None \<Rightarrow> r
              | Some d \<Rightarrow>
                  let line = castLine off d
                  in if written r + int (length line) > maxCastBytes
                     then r\<lparr>rec_file := Some (f @ castLine off truncMarker), capped := True\<rparr>
                     else r\<lparr>rec_file := Some (f @ take n line), written := written r + int (length (take n line))\<rparr>)"

definition Recorder_Close :: "Recorder \<Rightarrow> Recorder" where
  "Recorder_Close r = r\<lparr>rec_file := None\<rparr>"

section \<open>No event is lost silently and none forges a line\<close>

type_synonym log_call = "Entry \<times> bool \<times> string \<times> int"

fun logStep :: "(int \<Rightarrow> string) \<Rightarrow> (Entry \<Rightarrow> string option) \<Rightarrow> log_call \<Rightarrow> Logger \<Rightarrow> Logger" where
  "logStep durString marshal (e, ok, t, ms) l = fst (Log durString marshal ok t ms e l)"

text \<open>The encoded events whose write succeeded, in order.\<close>

fun loggedLines :: "(int \<Rightarrow> string) \<Rightarrow> (Entry \<Rightarrow> string option) \<Rightarrow> log_call list \<Rightarrow> Logger \<Rightarrow> string list" where
  "loggedLines durString marshal [] l = []"
| "loggedLines durString marshal ((e, ok, t, ms) # cs) l =
     (case marshal (stamp durString t ms l e) of
        Some d \<Rightarrow> (if ok then [d] else [])
      | None \<Rightarrow> []) @ loggedLines durString marshal cs (logStep durString marshal (e, ok, t, ms) l)"

lemma logStep_sensor [simp]: "sensor (logStep durString marshal c l) = sensor l"
  by (cases c) (auto simp: Log_def Let_def split: option.splits)

lemma log_file_run:
  assumes "\<And>e. marshal e \<noteq> None"
  shows "log_file l = Some f \<Longrightarrow>
    log_file (fold (logStep durString marshal) cs l) =
      Some (f @ concat (map (\<lambda>d. d @ [LF]) (loggedLines durString marshal cs l))) \<and>
    int (length (loggedLines durString marshal cs l)) + dropped (fold (logStep durString marshal) cs l)
      = dropped l + int (length cs)"
proof (induction cs arbitrary: l f)
  case (Cons c cs)
  obtain e ok t ms where c: "c = (e, ok, t, ms)" by (metis prod_cases4)
  obtain d where d: "marshal (stamp durString t ms l e) = Some d" using assms by blast
  show ?case
  proof (cases ok)
    case True
    then have s: "logStep durString marshal c l = l\<lparr>log_file := Some (f @ d @ [LF])\<rparr>"
      using Cons.prems d by (simp add: c Log_def)
    show ?thesis using Cons.IH [of "l\<lparr>log_file := Some (f @ d @ [LF])\<rparr>" "f @ d @ [LF]"] s d True by (simp add: c)
  next
    case False
    then have s: "logStep durString marshal c l = l\<lparr>dropped := dropped l + 1, warned := True\<rparr>"
      using Cons.prems d by (simp add: c Log_def)
    show ?thesis
      using Cons.IH [of "l\<lparr>dropped := dropped l + 1, warned := True\<rparr>" f] s d False Cons.prems by (simp add: c)
  qed
qed simp

lemma split_lines:
  "\<forall>d\<in>set ds. LF \<notin> set d \<Longrightarrow> splitByte LF (concat (map (\<lambda>d. d @ [LF]) ds)) = ds @ [[]]"
  by (induction ds) (auto simp: splitByte_append)

lemma loggedLines_lines:
  "(\<And>e d. marshal e = Some d \<Longrightarrow> LF \<notin> set d) \<Longrightarrow> d \<in> set (loggedLines durString marshal cs l) \<Longrightarrow> LF \<notin> set d"
  by (induction durString marshal cs l rule: loggedLines.induct) (auto split: option.splits if_splits)

text \<open>
  With an encoder that never fails and escapes newlines, every event given to an open logger is
  either one line of the file of its own or counted as dropped: the file splits into exactly the lines
  that were written, in order, whatever the captured fields contain.
\<close>

theorem log_is_complete:
  assumes "\<And>e. marshal e \<noteq> None" "\<And>e d. marshal e = Some d \<Longrightarrow> LF \<notin> set d"
    and "log_file l = Some []" "dropped l = 0"
  shows "\<exists>ds f. log_file (fold (logStep durString marshal) cs l) = Some f \<and> splitByte LF f = ds @ [[]] \<and>
    int (length ds) + dropped (fold (logStep durString marshal) cs l) = int (length cs)"
proof (intro exI conjI)
  let ?ds = "loggedLines durString marshal cs l"
  let ?f = "concat (map (\<lambda>d. d @ [LF]) ?ds)"
  show "log_file (fold (logStep durString marshal) cs l) = Some ?f"
    "int (length ?ds) + dropped (fold (logStep durString marshal) cs l) = int (length cs)"
    using log_file_run [OF assms(1,3), where cs = cs and durString = durString] assms(4) by auto
  show "splitByte LF ?f = ?ds @ [[]]"
  proof (intro split_lines ballI)
    fix d
    assume "d \<in> set ?ds"
    then show "LF \<notin> set d" by (rule loggedLines_lines [rotated]) (rule assms(2))
  qed
qed

section \<open>The recording is bounded\<close>

type_synonym rec_call = "string option \<times> string \<times> nat \<times> bytes"

fun recStep :: "rec_call \<Rightarrow> Recorder \<Rightarrow> Recorder" where
  "recStep (data, off, n, b) r = Recorder_Write data off n b r"

definition markerLen :: "nat \<Rightarrow> int" where
  "markerLen m = int m + int (length (castLine [] truncMarker))"

definition recInv :: "nat \<Rightarrow> nat \<Rightarrow> Recorder \<Rightarrow> bool" where
  "recInv h m r = (0 \<le> written r \<and> written r \<le> maxCastBytes \<and>
     (\<forall>f. rec_file r = Some f \<longrightarrow>
        int (length f) \<le> int h + written r + (if capped r then markerLen m else 0)))"

lemma castLine_length: "length (castLine off d) = length off + length (castLine [] d)"
  by (simp add: castLine_def)

lemma recStep_inv: "recInv h m r \<Longrightarrow> length off \<le> m \<Longrightarrow> recInv h m (recStep (data, off, n, b) r)"
  using castLine_length [of off truncMarker]
  by (auto simp: recInv_def Recorder_Write_def markerLen_def Let_def min_def split: option.splits)

lemma rec_history:
  "recInv h m r \<Longrightarrow> \<forall>c\<in>set cs. length (fst (snd c)) \<le> m \<Longrightarrow> recInv h m (fold recStep cs r)"
proof (induction cs arbitrary: r)
  case (Cons c cs)
  obtain data off n b where "c = (data, off, n, b)" by (metis prod_cases4)
  with Cons recStep_inv [of h m r off data n b] show ?case by auto
qed simp

text \<open>
  However much output a session produces, its recording stays within the ceiling plus one
  truncation marker, and nothing is appended after the marker.
\<close>

theorem recording_bounded:
  assumes "\<forall>c\<in>set cs. length (fst (snd c)) \<le> m" "rec_file (fold recStep cs (Recorder_New hdr)) = Some f"
  shows "int (length f) \<le> int (length hdr) + 1 + maxCastBytes + markerLen m \<and>
    (capped (fold recStep cs (Recorder_New hdr)) \<longrightarrow>
       fold recStep (cs @ cs') (Recorder_New hdr) = fold recStep cs (Recorder_New hdr))"
proof
  let ?r = "fold recStep cs (Recorder_New hdr)"
  have "recInv (length hdr + 1) m (Recorder_New hdr)"
    by (simp add: recInv_def Recorder_New_def maxCastBytes_def)
  from rec_history [OF this assms(1)] have "recInv (length hdr + 1) m ?r" .
  moreover have "0 \<le> markerLen m" by (simp add: markerLen_def)
  ultimately show "int (length f) \<le> int (length hdr) + 1 + maxCastBytes + markerLen m"
    using assms(2) by (fastforce simp: recInv_def split: if_splits)
  have "capped r \<Longrightarrow> fold recStep cs' r = r" for r
  proof (induction cs')
    case (Cons c cs')
    obtain data off n b where "c = (data, off, n, b)" by (metis prod_cases4)
    with Cons show ?case by (simp add: Recorder_Write_def split: option.splits)
  qed simp
  then show "capped ?r \<longrightarrow> fold recStep (cs @ cs') (Recorder_New hdr) = ?r" by simp
qed

end
