(* ===== verification/ServerHandle.thy ===== *)
theory ServerHandle
  imports Admission ProxyProto Events "HOL-Library.Word"
begin

unbundle bit_operations_syntax

text \<open>
  The listener (\<^verbatim>\<open>internal/server/server.go\<close>) and the session wrapper of \<^verbatim>\<open>session.go\<close>: which peers may
  name a source, the accept loop's back-off, and the whole of \<open>handle\<close>, from the process-wide slot to the
  session's last event.  The reading and printing of addresses (package \<open>netip\<close>) and the protocol's own
  handler are parameters.  What the peer sends is the byte string that arrives before a deadline passes.
\<close>

section \<open>Addresses and networks (package netip)\<close>

datatype netAddr = V4 "32 word" | V6 "128 word" string

type_synonym netPrefix = "netAddr \<times> nat"

definition Is4In6 :: "netAddr \<Rightarrow> bool" where
  "Is4In6 a = (case a of V4 _ \<Rightarrow> False | V6 w _ \<Rightarrow> drop_bit 32 w = 0xffff)"

definition Unmap :: "netAddr \<Rightarrow> netAddr" where
  "Unmap a = (case a of V6 w z \<Rightarrow> (if Is4In6 a then V4 (ucast w) else a) | _ \<Rightarrow> a)"

definition IsLoopback :: "netAddr \<Rightarrow> bool" where
  "IsLoopback a = (case Unmap a of V4 w \<Rightarrow> drop_bit 24 w = 127 | V6 w _ \<Rightarrow> w = 1)"

definition Masked :: "netPrefix \<Rightarrow> netPrefix" where
  "Masked p = (case p of
      (V4 w, b) \<Rightarrow> (V4 (w AND NOT (mask (32 - b))), b)
    | (V6 w _, b) \<Rightarrow> (V6 (w AND NOT (mask (128 - b))) [], b))"

definition PrefixContains :: "netPrefix \<Rightarrow> netAddr \<Rightarrow> bool" where
  "PrefixContains p a = (case (fst p, a) of
      (V4 w, V4 i) \<Rightarrow> drop_bit (32 - snd p) (i XOR w) = 0
    | (V6 w _, V6 i z) \<Rightarrow> z = [] \<and> drop_bit (128 - snd p) (i XOR w) = 0
    | _ \<Rightarrow> False)"

section \<open>Trusted proxies\<close>

record listener =
  sv_port :: int
  sv_name :: string
  sv_clientFirst :: bool
  ProxyProtocol :: bool
  trustedProxyNets :: "netPrefix list"
  RecordDir :: string
  sv_conns :: "(string, int) gomap"
  sv_shed :: shedState

fun SetTrustedProxies_loop :: "(string \<Rightarrow> string + netPrefix) \<Rightarrow> (string \<Rightarrow> string) \<Rightarrow> string list \<Rightarrow> netPrefix list \<times> Entry list" where
  "SetTrustedProxies_loop parsePrefix quote [] = ([], [])"
| "SetTrustedProxies_loop parsePrefix quote (c # cs) =
     (case SetTrustedProxies_loop parsePrefix quote cs of (ns, es) \<Rightarrow>
        (case parsePrefix c of
           Inr p \<Rightarrow> (Masked p # ns, es)
         | Inl err \<Rightarrow> (ns, System (''ignoring invalid proxy_trusted_cidrs entry '' @ quote c @ '': '' @ err) # es)))"

definition SetTrustedProxies :: "(string \<Rightarrow> string + netPrefix) \<Rightarrow> (string \<Rightarrow> string) \<Rightarrow> string list \<Rightarrow> listener \<Rightarrow> listener \<times> Entry list" where
  "SetTrustedProxies parsePrefix quote cidrs srv =
     (case SetTrustedProxies_loop parsePrefix quote cidrs of (ns, es) \<Rightarrow> (srv\<lparr>trustedProxyNets := ns\<rparr>, es))"

definition peerTrusted :: "(string \<Rightarrow> netAddr option) \<Rightarrow> listener \<Rightarrow> string \<Rightarrow> bool" where
  "peerTrusted parseAddrPort srv remoteAddr =
     (case parseAddrPort remoteAddr of
        None \<Rightarrow> True
      | Some ip \<Rightarrow> IsLoopback ip \<or> list_ex (\<lambda>n. PrefixContains n ip) (trustedProxyNets srv))"

section \<open>The accept loop\<close>

datatype accepted = Conn | Closed | Failing string

text \<open>
  The results of successive \<open>Accept\<close> calls; the loop yields, per failure, how long it sleeps (in
  milliseconds) and whether it logs, and the number of connections handed on.
\<close>

definition nextDelay :: "int \<Rightarrow> int" where
  "nextDelay d = (if d = 0 then 5 else if d * 2 > 1000 then 1000 else d * 2)"

fun accept :: "int \<Rightarrow> int \<Rightarrow> accepted list \<Rightarrow> (int \<times> Entry list) list \<times> nat" where
  "accept port delay [] = ([], 0)"
| "accept port delay (Closed # as) = ([], 0)"
| "accept port delay (Failing e # as) =
     (case accept port (nextDelay delay) as of
        (ss, n) \<Rightarrow>
          ((nextDelay delay, if delay = 0 then [System (''accept on :'' @ Itoa port @ '' erroring, backing off: '' @ e)] else []) # ss, n))"
| "accept port delay (Conn # as) = (case accept port 0 as of (ss, n) \<Rightarrow> (ss, n + 1))"

section \<open>A session\<close>

text \<open>
  What a protocol's handler does is given by its events, the panic it may end with, the session's
  state at the end and the duration.
\<close>

record outcome =
  o_events :: "Entry list"
  o_panic :: "string option"
  o_session :: SessionID
  o_durMs :: int

definition Session_handle :: "(SessionID \<Rightarrow> string \<Rightarrow> outcome) \<Rightarrow> SessionID \<Rightarrow> string \<Rightarrow> Entry list" where
  "Session_handle handler s input =
     (let r = handler s input
      in LogSessionStart s # o_events r
           @ (case o_panic r of Some m \<Rightarrow> [LogRaw (o_session r) ''PANIC'' m] | None \<Rightarrow> [])
           @ [LogSessionEnd (o_session r) (o_durMs r)])"

section \<open>One connection\<close>

definition shedNotice :: "string \<Rightarrow> int \<Rightarrow> int \<Rightarrow> listener \<Rightarrow> Entry list \<times> listener" where
  "shedNotice what cap now srv =
     (case noteShed now (sv_shed srv) of
        (r, sh) \<Rightarrow>
          ((case r of
              Some n \<Rightarrow> [System (what @ '' cap ('' @ Itoa cap @ '') reached on :'' @ Itoa (sv_port srv) @
                 ''; shed '' @ Itoa n @ '' connection(s) recently'')]
            | None \<Rightarrow> []), srv\<lparr>sv_shed := sh\<rparr>))"

text \<open>
  The environment of a connection: the parsers of package \<open>net\<close>, the session id drawn for it, the error of
  starting a recording if that fails, the clock and the protocol.
\<close>

record environment =
  env_parseAddrPort :: "string \<Rightarrow> netAddr option"
  env_parseIP :: "string \<Rightarrow> bool"
  env_ipString :: "bytes \<Rightarrow> string"
  env_id :: string
  env_recordErr :: "string option"
  env_now :: int
  env_handler :: "SessionID \<Rightarrow> string \<Rightarrow> outcome"

definition newSession :: "environment \<Rightarrow> listener \<Rightarrow> string \<Rightarrow> string \<Rightarrow> SessionID" where
  "newSession env srv remote dst =
     \<lparr>se_ID = env_id env, se_IP = remote, se_SrcIP = HostOnly remote, se_DstIP = HostOnly dst,
      se_port = sv_port srv, se_protocol = sv_name srv, se_persona = None, se_CmdCount = 0, se_Username = []\<rparr>"

text \<open>The endpoints a connection is attributed to and the bytes left for the protocol; none if the header is malformed.\<close>

definition endpoints :: "environment \<Rightarrow> listener \<Rightarrow> string \<Rightarrow> string \<Rightarrow> string \<Rightarrow> ((string \<times> string) \<times> string) option" where
  "endpoints env srv remote dst br =
     (if ProxyProtocol srv \<and> peerTrusted (env_parseAddrPort env) srv remote then
        (case Parse (env_parseIP env) (env_ipString env) br of
           (Inl _, _) \<Rightarrow> None
         | (Inr None, br') \<Rightarrow> Some ((remote, dst), br')
         | (Inr (Some hdr), br') \<Rightarrow> Some ((Src hdr, Dst hdr), br'))
      else Some ((remote, dst), br))"

definition protocolRun :: "environment \<Rightarrow> listener \<Rightarrow> string \<Rightarrow> string \<Rightarrow> string \<Rightarrow> Entry list" where
  "protocolRun env srv remote dst br =
     (if sv_clientFirst srv \<and> br = [] then [PortScan remote (sv_port srv) (sv_name srv)]
      else (case env_recordErr env of
              Some e \<Rightarrow> if RecordDir srv \<noteq> [] then [System (''session recording could not start: '' @ e)] else []
            | None \<Rightarrow> [])
           @ Session_handle (env_handler env) (newSession env srv remote dst) br)"

definition handle :: "environment \<Rightarrow> string \<Rightarrow> string \<Rightarrow> string \<Rightarrow> int \<times> listener \<Rightarrow> Entry list \<times> int \<times> listener" where
  "handle env remote0 dst0 br0 st =
     (case st of (n0, srv) \<Rightarrow>
        (case tryAcquire n0 of
           (False, n) \<Rightarrow> (case shedNotice ''connection'' maxConns (env_now env) srv of (es, srv') \<Rightarrow> (es, n, srv'))
         | (True, n) \<Rightarrow>
            (case endpoints env srv remote0 dst0 br0 of
               None \<Rightarrow> ([], limiterRelease n, srv)
             | Some ((remote, dst), br) \<Rightarrow>
                (let src = HostOnly remote
                 in case acquire src (sv_conns srv) of
                      (False, _) \<Rightarrow>
                         (case shedNotice ''per-source'' maxConnsPerIP (env_now env) srv of
                            (es, srv') \<Rightarrow> (es, limiterRelease n, srv'))
                    | (True, cs) \<Rightarrow>
                         (protocolRun env srv remote dst br, limiterRelease n,
                          srv\<lparr>sv_conns := release src cs\<rparr>)))))"

section \<open>What handle keeps and whom it names\<close>

lemma bit_masked: "drop_bit n (i XOR (w AND NOT (mask n))) = drop_bit n (i XOR (w :: 'a::len word))"
  by (rule bit_eqI) (auto simp: bit_simps dest: bit_imp_le_length)

lemma PrefixContains_Masked: "PrefixContains (Masked p) a = PrefixContains p a"
  by (cases p; cases "fst p"; cases a) (simp_all add: Masked_def PrefixContains_def bit_masked del: drop_bit_xor drop_bit_and)

lemma connCount_release_acquire:
  "0 \<le> connCount cm k \<Longrightarrow> acquire k cm = (True, cs) \<Longrightarrow> connCount (release k cs) k' = connCount cm k'"
  by (auto simp: acquire_def release_def connCount_def split: if_splits option.splits)

lemma shedNotice_system: "shedNotice w cap now srv = (es, srv') \<Longrightarrow>
   list_all (\<lambda>e. e_Event e = ''SYSTEM'') es \<and> sv_conns srv' = sv_conns srv"
  by (auto simp: shedNotice_def System_def split: prod.splits option.splits)

lemma ev_identity [simp]: "e_Session (ev s x) = se_ID s" "e_SrcIP (ev s x) = se_SrcIP s" "e_Event (ev s x) = x"
  by (auto simp: ev_def Let_def emptyEntry_def split: option.splits)

lemmas session_events = LogSessionStart_def LogSessionEnd_def LogRaw_def LogCredential_def LogCredentialResult_def
  LogCommand_def LogCommandNote_def LogHTTPRequest_def LogHTTPPost_def LogHoneytoken_def LogDownload_def LogExec_def
  LogPublicKey_def LogDropper_def

text \<open>The address a connection speaks for: the peer's own unless a trusted proxy's header names another.\<close>

definition spokenFor :: "environment \<Rightarrow> listener \<Rightarrow> string \<Rightarrow> string \<Rightarrow> string" where
  "spokenFor env srv remote br =
     (if ProxyProtocol srv \<and> peerTrusted (env_parseAddrPort env) srv remote then
        (case Parse (env_parseIP env) (env_ipString env) br of
           (Inr (Some hdr), _) \<Rightarrow> Src hdr
         | _ \<Rightarrow> remote)
      else remote)"

text \<open>The contract between the server and a protocol: a handler logs under its session's identity and leaves that identity alone.\<close>

locale protocol_handler =
  fixes handler :: "SessionID \<Rightarrow> string \<Rightarrow> outcome"
  assumes events_named: "e \<in> set (o_events (handler s i)) \<Longrightarrow> e_Session e = se_ID s \<and> e_SrcIP e = se_SrcIP s"
    and identity_kept: "se_ID (o_session (handler s i)) = se_ID s \<and> se_SrcIP (o_session (handler s i)) = se_SrcIP s"
begin

lemma session_named: "e \<in> set (Session_handle handler s i) \<Longrightarrow> e_Session e = se_ID s \<and> e_SrcIP e = se_SrcIP s"
  using events_named [of e s i] identity_kept [of s i]
  by (auto simp: Session_handle_def Let_def session_events split: option.splits)

lemma run_named:
  "env_handler env = handler \<Longrightarrow> e \<in> set (protocolRun env srv remote dst br) \<Longrightarrow>
     e_Event e = ''SYSTEM'' \<or> e_SrcIP e = HostOnly remote"
  using session_named [of e "newSession env srv remote dst" br]
  by (auto simp: protocolRun_def PortScan_def System_def emptyEntry_def newSession_def split: if_splits option.splits)

lemma handle_restores:
  assumes "handle env remote dst br (n, srv) = (es, n', srv')" "\<forall>k. 0 \<le> connCount (sv_conns srv) k"
  shows "n' = n \<and> connCount (sv_conns srv') k = connCount (sv_conns srv) k"
  using assms
  by (auto simp: handle_def tryAcquire_def limiterRelease_def Let_def connCount_release_acquire dest: shedNotice_system
      split: if_splits option.splits prod.splits bool.splits)

lemma handle_named:
  assumes "handle env remote dst br (n, srv) = (es, n', srv')" "env_handler env = handler" "e \<in> set es"
  shows "e_Event e = ''SYSTEM'' \<or> e_SrcIP e = HostOnly (spokenFor env srv remote br)"
proof (cases "\<exists>w cap srv'. shedNotice w cap (env_now env) srv = (es, srv')")
  case True
  then show ?thesis using assms(3) by (auto simp: list_all_iff dest!: shedNotice_system)
next
  case False
  then obtain r d b where "endpoints env srv remote dst br = Some ((r, d), b)" "es = protocolRun env srv r d b"
    using assms(1,3) by (auto simp: handle_def Let_def split: option.splits prod.splits bool.splits)
  moreover from this(1) have "r = spokenFor env srv remote br"
    by (auto simp: endpoints_def spokenFor_def split: if_splits prod.splits sum.splits option.splits)
  ultimately show ?thesis using run_named [OF assms(2), of e] assms(3) by blast
qed

end

section \<open>Backing off\<close>

lemma accept_delays: "accept port d as = (ss, n) \<Longrightarrow> 0 \<le> d \<Longrightarrow> d \<le> 1000 \<Longrightarrow> \<forall>s\<in>set ss. 0 < fst s \<and> fst s \<le> 1000"
proof (induction port d as arbitrary: ss n rule: accept.induct)
  case (3 port d e as)
  then show ?case by (fastforce simp: nextDelay_def split: prod.splits if_splits)
qed (auto split: prod.splits)

lemma accept_one_notice: "accept port 0 (map Failing es) = (ss, n) \<Longrightarrow> length (concat (map snd ss)) \<le> 1"
proof (cases es)
  case (Cons e es')
  have quiet: "d > 0 \<Longrightarrow> concat (map snd (fst (accept port d (map Failing xs)))) = []" for d xs
  proof (induction xs arbitrary: d)
    case (Cons x xs)
    then have "0 < nextDelay d" by (auto simp: nextDelay_def)
    from Cons.IH [OF this] Cons.prems show ?case by (auto split: prod.splits)
  qed simp
  assume "accept port 0 (map Failing es) = (ss, n)"
  then show ?thesis using Cons quiet [of 5 es'] by (auto simp: nextDelay_def split: prod.splits)
qed auto

end
