(* ===== verification/Base64.thy ===== *)
theory Base64
  imports Util
begin

text \<open>
  The base-64 codings of package \<^verbatim>\<open>encoding/base64\<close> that the sources use: \<open>RawStdEncoding\<close> (no padding) and
  \<open>StdEncoding\<close>.  Decoding skips CR and LF and rejects every other byte outside the alphabet.
\<close>

definition b64Alphabet :: string where
  "b64Alphabet = ''ABCDEFGHIJKLMNOPQRSTUVWXYZabcdefghijklmnopqrstuvwxyz0123456789+/''"

definition b64char :: "int \<Rightarrow> char" where
  "b64char n = b64Alphabet ! nat n"

definition b64val :: "char \<Rightarrow> int option" where
  "b64val c = map_option int (IndexByte b64Alphabet c)"

fun sextets :: "int list \<Rightarrow> int list" where
  "sextets [] = []"
| "sextets [a] = [a div 4, a mod 4 * 16]"
| "sextets [a, b] = [a div 4, a mod 4 * 16 + b div 16, b mod 16 * 4]"
| "sextets (a # b # c # r) = [a div 4, a mod 4 * 16 + b div 16, b mod 16 * 4 + c div 64, c mod 64] @ sextets r"

definition RawStdEncode :: "bytes \<Rightarrow> string" where
  "RawStdEncode b = map b64char (sextets (map code b))"

definition StdEncode :: "bytes \<Rightarrow> string" where
  "StdEncode b = RawStdEncode b @ replicate ((3 - length b mod 3) mod 3) (CHR ''='')"

fun octets :: "int list \<Rightarrow> int list option" where
  "octets [] = Some []"
| "octets [a] = None"
| "octets [a, b] = Some [a * 4 + b div 16]"
| "octets [a, b, c] = Some [a * 4 + b div 16, b mod 16 * 16 + c div 4]"
| "octets (a # b # c # d # r) =
     map_option (\<lambda>os. [a * 4 + b div 16, b mod 16 * 16 + c div 4, c mod 4 * 64 + d] @ os) (octets r)"

definition RawStdDecode :: "string \<Rightarrow> bytes option" where
  "RawStdDecode s =
     (case those (map b64val (filter (\<lambda>c. c \<noteq> CR \<and> c \<noteq> LF) s)) of
        None \<Rightarrow> None
      | Some vs \<Rightarrow> map_option (map char_of) (octets vs))"

lemma upto_0_63: "0 \<le> n \<and> n < 64 \<longleftrightarrow> n \<in> set [0..63]"
  by auto

lemma b64_chars:
  "list_all (\<lambda>n. b64val (b64char n) = Some n \<and> b64char n \<noteq> CR \<and> b64char n \<noteq> LF) [0..63]"
  by code_simp

lemma b64val_char [simp]: "0 \<le> n \<Longrightarrow> n < 64 \<Longrightarrow> b64val (b64char n) = Some n"
  and b64char_CR [simp]: "0 \<le> n \<Longrightarrow> n < 64 \<Longrightarrow> b64char n \<noteq> CR"
  and b64char_LF [simp]: "0 \<le> n \<Longrightarrow> n < 64 \<Longrightarrow> b64char n \<noteq> LF"
  using b64_chars unfolding list_all_iff by (auto simp: upto_0_63)

definition isByte :: "int \<Rightarrow> bool" where "isByte n = (0 \<le> n \<and> n < 256)"

lemma pack [simp]:
  "0 \<le> x \<Longrightarrow> x < 16 \<Longrightarrow> (y * 16 + x) div 16 = (y :: int)" "0 \<le> x \<Longrightarrow> x < 16 \<Longrightarrow> (y * 16 + x) mod 16 = (x :: int)"
  "0 \<le> x \<Longrightarrow> x < 4 \<Longrightarrow> (y * 4 + x) div 4 = (y :: int)" "0 \<le> x \<Longrightarrow> x < 4 \<Longrightarrow> (y * 4 + x) mod 4 = (x :: int)"
  by presburger+

lemma byte_parts:
  assumes "isByte b"
  shows "0 \<le> b div 4" "b div 4 < 64" "0 \<le> b div 16" "b div 16 < 16" "0 \<le> b div 64" "b div 64 < 4"
  using assms by (auto simp: isByte_def)

lemma mixed_range:
  fixes x y :: int
  shows "0 \<le> x \<Longrightarrow> x < 16 \<Longrightarrow> 0 \<le> y mod 4 * 16 + x" "0 \<le> x \<Longrightarrow> x < 16 \<Longrightarrow> y mod 4 * 16 + x < 64"
    "0 \<le> x \<Longrightarrow> x < 4 \<Longrightarrow> 0 \<le> y mod 16 * 4 + x" "0 \<le> x \<Longrightarrow> x < 4 \<Longrightarrow> y mod 16 * 4 + x < 64"
  by presburger+

lemma byte_whole: "b mod 4 * 16 div 16 = (b mod 4 :: int)" "b mod 16 * 4 div 4 = (b mod 16 :: int)"
  "0 \<le> (b mod 4 :: int) * 16" "(b mod 4 :: int) * 16 < 64" "0 \<le> (b mod 16 :: int) * 4" "(b mod 16 :: int) * 4 < 64"
  by auto

lemma sextets_range: "list_all isByte bs \<Longrightarrow> list_all (\<lambda>n. 0 \<le> n \<and> n < 64) (sextets bs)"
  by (induction bs rule: sextets.induct) (auto simp del: mult_less_cancel_right simp: byte_parts mixed_range byte_whole)

lemma octets_sextets: "list_all isByte bs \<Longrightarrow> octets (sextets bs) = Some bs"
  by (induction bs rule: sextets.induct) (auto simp: byte_parts byte_whole)

lemma those_map_val: "list_all (\<lambda>n. 0 \<le> n \<and> n < 64) vs \<Longrightarrow> those (map (b64val \<circ> b64char) vs) = Some vs"
  by (induction vs) auto

lemma RawStd_roundtrip [simp]: "RawStdDecode (RawStdEncode b) = Some b"
proof -
  have c: "list_all isByte (map code b)" by (simp add: list_all_iff isByte_def)
  note r = sextets_range [OF c]
  have "filter (\<lambda>c. c \<noteq> CR \<and> c \<noteq> LF) (RawStdEncode b) = RawStdEncode b"
    using r by (auto simp: RawStdEncode_def list_all_iff)
  moreover have "map char_of (map code b) = b" by (simp add: map_idI)
  ultimately show ?thesis
    using those_map_val [OF r] octets_sextets [OF c] by (simp add: RawStdDecode_def RawStdEncode_def)
qed

text \<open>\<^verbatim>\<open>StdEncoding.DecodeString\<close>: whole groups of four, padding only at the end.\<close>

definition unpad :: "string \<Rightarrow> string" where
  "unpad t = (if HasSuffix t ''=='' then butlast (butlast t) else if HasSuffix t ''='' then butlast t else t)"

definition StdDecode :: "string \<Rightarrow> bytes option" where
  "StdDecode s =
     (let t = filter (\<lambda>c. c \<noteq> CR \<and> c \<noteq> LF) s
      in if length t mod 4 \<noteq> 0 then None else RawStdDecode (unpad t))"

lemma b64_not_pad: "list_all (\<lambda>n. b64char n \<noteq> CHR ''='') [0..63]"
  by code_simp

lemma RawStdEncode_chars:
  "c \<in> set (RawStdEncode b) \<Longrightarrow> c \<noteq> CHR ''='' \<and> c \<noteq> CR \<and> c \<noteq> LF"
proof -
  assume "c \<in> set (RawStdEncode b)"
  then obtain n where n: "n \<in> set (sextets (map code b))" "c = b64char n" by (auto simp: RawStdEncode_def)
  have "list_all isByte (map code b)" by (simp add: list_all_iff isByte_def)
  from sextets_range [OF this] n(1) have "0 \<le> n" "n < 64" by (auto simp: list_all_iff)
  then show ?thesis using b64_not_pad n(2) unfolding list_all_iff by (auto simp: upto_0_63)
qed

lemma sextets_length:
  "length (sextets bs) mod 4 = (if length bs mod 3 = 0 then 0 else Suc (length bs mod 3))"
  by (induction bs rule: sextets.induct) (auto simp: mod_Suc)

lemma unpad_encode: "unpad (StdEncode b) = RawStdEncode b"
proof -
  have e: "\<not> HasSuffix (RawStdEncode b) ''=''"
    using RawStdEncode_chars [of "CHR ''=''" b] by (auto simp: HasSuffix_iff)
  consider "length b mod 3 = 0" | "length b mod 3 = 1" | "length b mod 3 = 2" by linarith
  then show ?thesis
  proof cases
    case 1
    have "\<not> HasSuffix (RawStdEncode b) ''==''"
      using RawStdEncode_chars [of "CHR ''=''" b] by (auto simp: HasSuffix_iff)
    with 1 e show ?thesis by (simp add: StdEncode_def unpad_def)
  next
    case 2
    have "HasSuffix (RawStdEncode b @ ''=='') ''==''" by (auto simp: HasSuffix_iff)
    with 2 show ?thesis by (simp add: StdEncode_def unpad_def numeral_2_eq_2 butlast_append)
  next
    case 3
    have "\<not> HasSuffix (RawStdEncode b @ ''='') ''==''" "HasSuffix (RawStdEncode b @ ''='') ''=''"
      using e by (simp_all add: HasSuffix_def)
    with 3 show ?thesis by (simp add: StdEncode_def unpad_def)
  qed
qed

lemma Std_roundtrip [simp]: "StdDecode (StdEncode b) = Some b"
proof -
  have f: "filter (\<lambda>c. c \<noteq> CR \<and> c \<noteq> LF) (StdEncode b) = StdEncode b"
    using RawStdEncode_chars [of _ b] by (auto simp: StdEncode_def CR_def LF_def)
  have "length (StdEncode b) mod 4 = 0"
  proof -
    define l r where "l = length (sextets (map code b))" and "r = length b mod 3"
    have l: "l mod 4 = (if r = 0 then 0 else Suc r)" and r: "r < 3"
      using sextets_length [of "map code b"] by (simp_all add: l_def r_def)
    have sums: "l mod 4 = 2 \<Longrightarrow> (l + 2) mod 4 = 0" "l mod 4 = 3 \<Longrightarrow> (l + 1) mod 4 = 0" by presburger+
    from r consider "r = 0" | "r = 1" | "r = 2" by linarith
    then have "(l + (3 - r) mod 3) mod 4 = 0"
      using l sums by cases simp_all
    then show ?thesis by (simp add: StdEncode_def RawStdEncode_def l_def r_def)
  qed
  with f unpad_encode [of b] show ?thesis by (simp add: StdDecode_def)
qed

end
