(* ===== verification/Conversation.thy ===== *)
theory Conversation
  imports SessionIO ServerHandle Persona
begin

text \<open>
  What a protocol's handler does with its session: read lines, write, log.  The conversation holds the
  bytes still to be read, what was written, the events logged and the identity they are logged under
  (the identity's persona and user name change as the handler sets them).
\<close>

record conv =
  c_in :: string
  c_out :: string
  c_log :: "Entry list"
  c_id :: SessionID

definition say :: "string \<Rightarrow> conv \<Rightarrow> conv" where
  "say str c = c\<lparr>c_out := c_out c @ str\<rparr>"

definition sayln :: "string \<Rightarrow> conv \<Rightarrow> conv" where
  "sayln str = say (str @ [CR, LF])"

definition record_event :: "(SessionID \<Rightarrow> Entry) \<Rightarrow> conv \<Rightarrow> conv" where
  "record_event mk c = c\<lparr>c_log := c_log c @ [mk (c_id c)]\<rparr>"

definition getLine :: "conv \<Rightarrow> (string \<times> bool) \<times> conv" where
  "getLine c = (case ReadLine False (c_in c) of (r, rest) \<Rightarrow> (r, c\<lparr>c_in := rest\<rparr>))"

definition Prompt :: "string \<Rightarrow> conv \<Rightarrow> (string \<times> bool) \<times> conv" where
  "Prompt label c = getLine (say label c)"

definition setPersona :: "string \<Rightarrow> conv \<Rightarrow> conv" where
  "setPersona h c = c\<lparr>c_id := (c_id c)\<lparr>se_persona := Some h\<rparr>\<rparr>"

definition setUsername :: "string \<Rightarrow> conv \<Rightarrow> conv" where
  "setUsername u c = c\<lparr>c_id := (c_id c)\<lparr>se_Username := u\<rparr>\<rparr>"

definition opened :: "SessionID \<Rightarrow> string \<Rightarrow> conv" where
  "opened s input = \<lparr>c_in = input, c_out = [], c_log = [], c_id = s\<rparr>"

definition outcomeOf :: "int \<Rightarrow> conv \<Rightarrow> outcome" where
  "outcomeOf dur c = \<lparr>o_events = c_log c, o_panic = None, o_session = c_id c, o_durMs = dur\<rparr>"

section \<open>Lines are consumed\<close>

lemma getLine_shorter: "getLine c = ((l, True), c') \<Longrightarrow> length (c_in c') < length (c_in c)"
proof -
  assume g: "getLine c = ((l, True), c')"
  then have "c_in c \<noteq> []" by (auto simp: getLine_def ReadLine_def)
  then show ?thesis using g readLineLoop_consumes [of "c_in c" "[]"]
    by (auto simp: getLine_def ReadLine_def split: prod.splits)
qed

lemma Prompt_shorter: "Prompt label c = ((l, True), c') \<Longrightarrow> length (c_in c') < length (c_in c)"
  using getLine_shorter [of "say label c" l c'] by (simp add: Prompt_def say_def)

section \<open>Conversations that keep the identity\<close>

text \<open>
  \<open>proper\<close> holds of a conversation whose events all carry the session's own id and source; every operation
  above keeps it, so a handler composed of them does.
\<close>

definition proper :: "SessionID \<Rightarrow> conv \<Rightarrow> bool" where
  "proper s c \<longleftrightarrow> se_ID (c_id c) = se_ID s \<and> se_SrcIP (c_id c) = se_SrcIP s \<and>
     list_all (\<lambda>e. e_Session e = se_ID s \<and> e_SrcIP e = se_SrcIP s) (c_log c)"

named_theorems proper_intros

lemma proper_begin [proper_intros]: "proper s (opened s input)"
  by (simp add: proper_def opened_def)

lemma proper_say [proper_intros]: "proper s c \<Longrightarrow> proper s (say str c)"
  by (simp add: proper_def say_def)

lemma proper_sayln [proper_intros]: "proper s c \<Longrightarrow> proper s (sayln str c)"
  by (simp add: sayln_def proper_say)

lemma proper_setPersona [proper_intros]: "proper s c \<Longrightarrow> proper s (setPersona h c)"
  by (simp add: proper_def setPersona_def)

lemma proper_setUsername [proper_intros]: "proper s c \<Longrightarrow> proper s (setUsername u c)"
  by (simp add: proper_def setUsername_def)

lemma proper_record_event: "proper s c \<Longrightarrow> (\<And>i. e_Session (mk i) = se_ID i \<and> e_SrcIP (mk i) = se_SrcIP i) \<Longrightarrow> proper s (record_event mk c)"
  by (simp add: proper_def record_event_def)

lemma proper_events [proper_intros]:
  "proper s c \<Longrightarrow> proper s (record_event (\<lambda>i. LogCredential i u p) c)"
  "proper s c \<Longrightarrow> proper s (record_event (\<lambda>i. LogCredentialResult i u p a b) c)"
  "proper s c \<Longrightarrow> proper s (record_event (\<lambda>i. LogCommand i u) c)"
  by (erule proper_record_event, simp add: session_events)+

lemma proper_getLine: "proper s c \<Longrightarrow> getLine c = (r, c') \<Longrightarrow> proper s c'"
  by (auto simp: proper_def getLine_def split: prod.splits)

lemma proper_Prompt: "proper s c \<Longrightarrow> Prompt label c = (r, c') \<Longrightarrow> proper s c'"
  unfolding Prompt_def by (erule proper_getLine [OF proper_say])

lemma proper_handler:
  assumes "\<And>s i. proper s (run s i)"
  shows "protocol_handler (\<lambda>s i. outcomeOf (dur s i) (run s i))"
  using assms by unfold_locales (auto simp: outcomeOf_def proper_def list_all_iff)

definition demoSession :: SessionID where
  "demoSession = \<lparr>se_ID = ''3yQ'', se_IP = ''203.0.113.7:5000'', se_SrcIP = ''203.0.113.7'', se_DstIP = ''10.0.0.5'', se_port = 23,
     se_protocol = ''telnet'', se_persona = None, se_CmdCount = 0, se_Username = []\<rparr>"

end
