(* ===== verification/ShellParse.thy ===== *)
theory ShellParse
  imports Prelude
begin

text \<open>
  The command-line parser of the fake shell (\<^verbatim>\<open>internal/shell/parse.go\<close>): \<open>tokenize\<close> splits a line into
  words and operators, \<open>parse\<close> groups them into chained statements of pipeline stages.  The index
  loops of the source are recursions over the rest of the line and the rest of the tokens.
\<close>

section \<open>Data\<close>

record stage =
  args :: "string list"
  assigns :: "(string, string) gomap"
  outNull :: bool
  outFile :: string
  appendT :: bool

record statement =
  stages :: "stage list"
  chain :: string

record token =
  val :: string
  op :: bool

abbreviation word :: "string \<Rightarrow> token" where
  "word w \<equiv> \<lparr>val = w, op = False\<rparr>"

abbreviation oper :: "string \<Rightarrow> token" where
  "oper w \<equiv> \<lparr>val = w, op = True\<rparr>"

definition newStage :: stage where
  "newStage = \<lparr>args = [], assigns = [], outNull = False, outFile = [], appendT = False\<rparr>"

section \<open>tokenize\<close>

definition flush :: "string \<Rightarrow> bool \<Rightarrow> token list" where
  "flush cur has = (if has then [word cur] else [])"

text \<open>The text up to a closing byte and what follows it.\<close>

definition upTo :: "char \<Rightarrow> string \<Rightarrow> string \<times> string" where
  "upTo q s = (takeWhile (\<lambda>c. c \<noteq> q) s, drop 1 (dropWhile (\<lambda>c. c \<noteq> q) s))"

text \<open>The balanced scan of a \<^verbatim>\<open>$(...)\<close>: what is consumed until the depth is back to zero.\<close>

fun balanced :: "nat \<Rightarrow> string \<Rightarrow> string \<times> string" where
  "balanced 0 s = ([], s)"
| "balanced (Suc d) [] = ([], [])"
| "balanced (Suc d) (c # s) =
     (let d' = (if c = CHR ''('' then Suc (Suc d) else if c = CHR '')'' then d else Suc d);
          (t, r) = balanced d' s
      in (c # t, r))"

lemma balanced_split: "fst (balanced d s) @ snd (balanced d s) = s"
  by (induction d s rule: balanced.induct) (auto simp: Let_def split: prod.splits)

lemma balanced_length: "length (snd (balanced d s)) \<le> length s"
  using balanced_split [of d s] by (metis length_append le_add2)

lemma upTo_length: "length (snd (upTo q s)) \<le> length s"
  by (simp add: upTo_def) (metis diff_le_self le_trans length_dropWhile_le)

lemma upTo_fst_length: "length (fst (upTo q s)) + length (snd (upTo q s)) \<le> length s"
proof -
  have "length (takeWhile (\<lambda>c. c \<noteq> q) s) + length (dropWhile (\<lambda>c. c \<noteq> q) s) = length s"
    by (metis length_append takeWhile_dropWhile_id)
  then show ?thesis by (simp add: upTo_def)
qed

function toks :: "string \<Rightarrow> string \<Rightarrow> bool \<Rightarrow> token list" where
  "toks [] cur has = flush cur has"
| "toks (c # rest) cur has =
    (if c = CHR '' '' \<or> c = TAB then flush cur has @ toks rest [] False
     else if c = LF \<or> c = CR then flush cur has @ oper '';'' # toks rest [] False
     else if c = CHR ''('' \<or> c = CHR '')'' then flush cur has @ word [c] # toks rest [] False
     else if c = SQUOTE then toks (snd (upTo SQUOTE rest)) (cur @ fst (upTo SQUOTE rest)) True
     else if c = DQUOTE then toks (snd (upTo DQUOTE rest)) (cur @ fst (upTo DQUOTE rest)) True
     else if c = CHR ''|'' then
       (if HasPrefix rest ''|'' then flush cur has @ oper ''||'' # toks (drop 1 rest) [] False
        else flush cur has @ oper ''|'' # toks rest [] False)
     else if c = CHR ''&'' then
       (if HasPrefix rest ''&'' then flush cur has @ oper ''&&'' # toks (drop 1 rest) [] False
        else if HasPrefix rest ''>'' then flush cur has @ oper ''&>'' # toks (drop 1 rest) [] False
        else flush cur has @ toks rest [] False)
     else if c = CHR '';'' then flush cur has @ oper '';'' # toks rest [] False
     else if c = CHR ''>'' then
       (if HasPrefix rest ''>'' then flush cur has @ oper ''>>'' # toks (drop 1 rest) [] False
        else flush cur has @ oper ''>'' # toks rest [] False)
     else if c = CHR ''<'' then flush cur has @ oper ''<'' # toks rest [] False
     else if c = CHR ''2'' \<and> length rest \<ge> 2 \<and> HasPrefix rest ''>'' then
       (if HasPrefix rest ''>&1'' then flush cur has @ oper ''2>&1'' # toks (drop 3 rest) [] False
        else flush cur has @ oper ''2>'' # toks (drop 1 rest) [] False)
     else if c = CHR ''$'' \<and> HasPrefix rest ''('' then
       toks (snd (balanced 1 (drop 1 rest))) (cur @ ''$('' @ fst (balanced 1 (drop 1 rest))) True
     else if c = BACKTICK then
       toks (snd (upTo BACKTICK rest))
         (cur @ [BACKTICK] @ fst (upTo BACKTICK rest) @ (if BACKTICK \<in> set rest then [BACKTICK] else [])) True
     else toks rest (cur @ [c]) True)"
  by pat_completeness auto
termination
  by (relation "measure (\<lambda>(s, _, _). length s)")
     (auto simp: less_Suc_eq_le upTo_length balanced_length intro: le_trans [OF balanced_length])

definition tokenize :: "string \<Rightarrow> token list" where
  "tokenize line = toks line [] False"

section \<open>splitAssign\<close>

definition identStart :: "char \<Rightarrow> bool" where
  "identStart c = (c = CHR ''_'' \<or> isAlpha c)"

fun identName :: "string \<Rightarrow> bool" where
  "identName [] = True"
| "identName (c # cs) = (identStart c \<and> list_all (\<lambda>d. identStart d \<or> isDigit d) cs)"

definition splitAssign :: "string \<Rightarrow> (string \<times> string) option" where
  "splitAssign s =
     (case IndexByte s (CHR ''='') of
        None \<Rightarrow> None
      | Some eq \<Rightarrow>
          if eq = 0 then None
          else if identName (take eq s) then Some (take eq s, drop (eq + 1) s) else None)"

section \<open>parse\<close>

definition finishStage :: "stage \<Rightarrow> stage list \<Rightarrow> stage list" where
  "finishStage stg cur = (if args stg \<noteq> [] \<or> assigns stg \<noteq> [] then cur @ [stg] else cur)"

definition finishStmt :: "string \<Rightarrow> stage \<Rightarrow> stage list \<Rightarrow> statement list \<Rightarrow> statement list" where
  "finishStmt ch stg cur stmts =
     (let cur = finishStage stg cur
      in if cur \<noteq> [] then stmts @ [\<lparr>stages = cur, chain = ch\<rparr>] else stmts)"

definition redirect :: "string \<Rightarrow> string \<Rightarrow> stage \<Rightarrow> stage" where
  "redirect r target stg =
     (if target = ''/dev/null'' then stg\<lparr>outNull := True\<rparr>
      else stg\<lparr>outFile := target, appendT := (r = ''>>'')\<rparr>)"

definition isGroupMark :: "string \<Rightarrow> bool" where
  "isGroupMark w = (w \<in> {''('', '')'', ''{'', ''}''})"

fun parseLoop :: "token list \<Rightarrow> stage \<Rightarrow> stage list \<Rightarrow> statement list \<Rightarrow> statement list" where
  "parseLoop [] stg cur stmts = finishStmt [] stg cur stmts"
| "parseLoop (t # ts) stg cur stmts =
    (if \<not> op t then
       (if isGroupMark (val t) then parseLoop ts stg cur stmts
        else if args stg = [] \<and> splitAssign (val t) \<noteq> None then
          (let (k, v) = the (splitAssign (val t))
           in parseLoop ts (stg\<lparr>assigns := mput k v (assigns stg)\<rparr>) cur stmts)
        else parseLoop ts (stg\<lparr>args := args stg @ [val t]\<rparr>) cur stmts)
     else if val t = ''|'' then parseLoop ts newStage (finishStage stg cur) stmts
     else if val t = '';'' then parseLoop ts newStage [] (finishStmt '';'' stg cur stmts)
     else if val t = ''&&'' then parseLoop ts newStage [] (finishStmt ''&&'' stg cur stmts)
     else if val t = ''||'' then parseLoop ts newStage [] (finishStmt ''||'' stg cur stmts)
     else if val t \<in> {''>'', ''>>'', ''&>''} then
       (case ts of
          [] \<Rightarrow> parseLoop [] stg cur stmts
        | t' # ts' \<Rightarrow> parseLoop ts' (redirect (val t) (val t') stg) cur stmts)
     else if val t = ''2>'' \<or> val t = ''<'' then
       (case ts of [] \<Rightarrow> parseLoop [] stg cur stmts | _ # ts' \<Rightarrow> parseLoop ts' stg cur stmts)
     else parseLoop ts stg cur stmts)"

definition parse :: "string \<Rightarrow> statement list" where
  "parse line = parseLoop (tokenize line) newStage [] []"

declare toks.simps(2) [simp del] parseLoop.simps(2) [simp del]

section \<open>Shape of a parsed line\<close>

definition stageOk :: "stage \<Rightarrow> bool" where
  "stageOk stg = (list_all (\<lambda>kv. fst kv \<noteq> [] \<and> identName (fst kv)) (assigns stg) \<and>
     mapok (assigns stg) \<and> list_all (\<lambda>a. \<not> isGroupMark a) (args stg))"

definition stageFull :: "stage \<Rightarrow> bool" where
  "stageFull stg = (stageOk stg \<and> (args stg \<noteq> [] \<or> assigns stg \<noteq> []))"

definition stmtOk :: "statement \<Rightarrow> bool" where
  "stmtOk st = (stages st \<noteq> [] \<and> list_all stageFull (stages st) \<and> chain st \<in> {[], '';'', ''&&'', ''||''})"

lemma newStage_ok [simp]: "stageOk newStage" "args newStage = []" "assigns newStage = []"
  by (simp_all add: newStage_def stageOk_def)

lemma splitAssign_name: "splitAssign s = Some (k, v) \<Longrightarrow> k \<noteq> [] \<and> identName k"
  by (auto simp: splitAssign_def IndexByte_def split: option.splits if_splits dest!: IndexFunc_Some)

lemma finishStage_ok: "stageOk stg \<Longrightarrow> list_all stageFull cur \<Longrightarrow> list_all stageFull (finishStage stg cur)"
  by (auto simp: finishStage_def stageFull_def)

lemma finishStmt_ok:
  "stageOk stg \<Longrightarrow> list_all stageFull cur \<Longrightarrow> list_all stmtOk stmts \<Longrightarrow> ch \<in> {[], '';'', ''&&'', ''||''} \<Longrightarrow>
     list_all stmtOk (finishStmt ch stg cur stmts)"
  using finishStage_ok [of stg cur] by (auto simp: finishStmt_def stmtOk_def Let_def)

lemma stageOk_assign: "stageOk stg \<Longrightarrow> splitAssign w = Some (k, v) \<Longrightarrow>
    stageOk (stg\<lparr>assigns := mput k v (assigns stg)\<rparr>)"
  using splitAssign_name [of w k v] by (auto simp: stageOk_def intro!: list_all_mput)

lemma stageOk_arg: "stageOk stg \<Longrightarrow> \<not> isGroupMark w \<Longrightarrow> stageOk (stg\<lparr>args := args stg @ [w]\<rparr>)"
  by (simp add: stageOk_def)

lemma stageOk_redirect: "stageOk stg \<Longrightarrow> stageOk (redirect r t stg)"
  by (simp add: stageOk_def redirect_def)

lemma stmts_if:
  "(b \<Longrightarrow> list_all P x) \<Longrightarrow> (\<not> b \<Longrightarrow> list_all P y) \<Longrightarrow> list_all P (if b then x else y)"
  by simp

lemma parseLoop_ok:
  "stageOk stg \<Longrightarrow> list_all stageFull cur \<Longrightarrow> list_all stmtOk stmts \<Longrightarrow>
     list_all stmtOk (parseLoop ts stg cur stmts)"
proof (induction ts arbitrary: stg cur stmts rule: length_induct)
  case (1 ts)
  then have IH: "\<And>us stg cur stmts. length us < length ts \<Longrightarrow> stageOk stg \<Longrightarrow> list_all stageFull cur \<Longrightarrow>
      list_all stmtOk stmts \<Longrightarrow> list_all stmtOk (parseLoop us stg cur stmts)"
    by blast
  note ok = finishStage_ok finishStmt_ok stageOk_assign stageOk_arg stageOk_redirect
  show ?case
  proof (cases ts)
    case Nil
    with 1 show ?thesis by (simp add: finishStmt_ok)
  next
    case (Cons t us)
    have len: "length us < length ts" "us = x # vs \<Longrightarrow> length vs < length ts" for x vs
      using Cons by auto
    show ?thesis
      unfolding Cons parseLoop.simps(2) using 1(2-4) len
      by (intro stmts_if) (auto intro!: IH ok split: prod.splits list.splits)
  qed
qed

text \<open>
  C10: every parsed line is a list of non-empty statements of non-empty stages, the assignments of a
  stage have identifier names and no argument is a bare grouping mark, whatever bytes the line holds.
\<close>

theorem parse_well_formed: "list_all stmtOk (parse line)"
  by (simp add: parse_def parseLoop_ok)

section \<open>Parsing never amplifies\<close>

definition wordBytes :: "string list \<Rightarrow> nat" where
  "wordBytes ws = sum_list (map length ws)"

definition tokBytes :: "token list \<Rightarrow> nat" where
  "tokBytes ts = wordBytes (map val ts)"

definition stageBytes :: "stage \<Rightarrow> nat" where
  "stageBytes stg = wordBytes (args stg) + sum_list (map (\<lambda>kv. length (fst kv) + length (snd kv)) (assigns stg))
     + length (outFile stg)"

definition stmtBytes :: "statement \<Rightarrow> nat" where
  "stmtBytes st = sum_list (map stageBytes (stages st))"

lemma tokBytes_simps [simp]:
  "tokBytes [] = 0" "tokBytes (t # ts) = length (val t) + tokBytes ts"
  "tokBytes (xs @ ys) = tokBytes xs + tokBytes ys"
  by (simp_all add: tokBytes_def wordBytes_def)

lemma flush_bytes: "tokBytes (flush cur has) \<le> length cur"
  by (simp add: flush_def)

lemma HasPrefix_drop: "HasPrefix s p \<Longrightarrow> length (drop (length p) s) + length p = length s"
  by (auto simp: HasPrefix_iff)

lemma upTo_found: "q \<in> set s \<Longrightarrow> length (fst (upTo q s)) + length (snd (upTo q s)) < length s"
proof -
  assume "q \<in> set s"
  then have "dropWhile (\<lambda>c. c \<noteq> q) s \<noteq> []" by (simp add: dropWhile_eq_Nil_conv)
  moreover have "length (takeWhile (\<lambda>c. c \<noteq> q) s) + length (dropWhile (\<lambda>c. c \<noteq> q) s) = length s"
    by (metis length_append takeWhile_dropWhile_id)
  ultimately show ?thesis by (cases "dropWhile (\<lambda>c. c \<noteq> q) s") (auto simp: upTo_def)
qed

lemma nat_le_if: "(b \<Longrightarrow> tokBytes x \<le> n) \<Longrightarrow> (\<not> b \<Longrightarrow> tokBytes y \<le> n) \<Longrightarrow> tokBytes (if b then x else y) \<le> n"
  by simp

lemma toks_bytes: "tokBytes (toks s cur has) \<le> length cur + length s"
proof (induction s arbitrary: cur has rule: length_induct)
  case (1 s)
  then have IH: "\<And>r cur has. length r < length s \<Longrightarrow> tokBytes (toks r cur has) \<le> length cur + length r"
    by blast
  show ?case
  proof (cases s)
    case Nil
    then show ?thesis using flush_bytes by simp
  next
    case (Cons c r)
    have sep: "tokBytes (flush cur has @ toks (drop k r) [] False) + Suc k \<le> length cur + length s"
      if "k \<le> length r" for k
    proof -
      have "length (drop k r) < length s" using Cons by simp
      from IH [OF this, of "[]" False] flush_bytes [of cur has] Cons that show ?thesis by simp
    qed
    have opr: "tokBytes (flush cur has @ t # toks (drop k r) [] False) \<le> length cur + length s"
      if "k \<le> length r" "length (val t) \<le> Suc k" for k t
      using sep [OF that(1)] that Cons by simp
    have opr0: "tokBytes (flush cur has @ t # toks r [] False) \<le> length cur + length s"
      if "length (val t) \<le> 1" for t
      using opr [of 0 t] that by simp
    have opP: "tokBytes (flush cur has @ t # toks (drop k r) [] False) \<le> length cur + length s"
      if "HasPrefix r p" "length p = k" "length (val t) \<le> Suc k" for k t p
      using opr [of k t] HasPrefix_length [OF that(1)] that by simp
    have sp: "tokBytes (flush cur has @ toks r [] False) \<le> length cur + length s"
      using sep [of 0] by simp
    have q: "tokBytes (toks (snd (upTo q r)) (cur @ fst (upTo q r)) True) \<le> length cur + length s" for q
      using IH [of "snd (upTo q r)" "cur @ fst (upTo q r)" True] upTo_fst_length [of q r] Cons by simp
    have sub: "tokBytes (toks (snd (balanced 1 (drop 1 r))) (cur @ ''$('' @ fst (balanced 1 (drop 1 r))) True)
        \<le> length cur + length s" if "HasPrefix r ''(''"
    proof -
      have "length (fst (balanced 1 (drop 1 r))) + length (snd (balanced 1 (drop 1 r))) = length r - 1"
        using balanced_split [of 1 "drop 1 r"] by (metis length_append length_drop)
      moreover have "length (snd (balanced 1 (drop 1 r))) < length s"
        using balanced_length [of 1 "drop 1 r"] Cons by simp
      note IH [OF this, of "cur @ ''$('' @ fst (balanced 1 (drop 1 r))" True]
      ultimately show ?thesis using HasPrefix_length [OF that] Cons by simp
    qed
    have tick: "tokBytes (toks (snd (upTo BACKTICK r))
         (cur @ [BACKTICK] @ fst (upTo BACKTICK r) @ (if BACKTICK \<in> set r then [BACKTICK] else [])) True)
        \<le> length cur + length s"
    proof -
      let ?cur = "cur @ [BACKTICK] @ fst (upTo BACKTICK r) @ (if BACKTICK \<in> set r then [BACKTICK] else [])"
      have "length (snd (upTo BACKTICK r)) < length s" using upTo_length [of BACKTICK r] Cons by simp
      from IH [OF this, of ?cur True] show ?thesis
        using upTo_fst_length [of BACKTICK r] upTo_found [of BACKTICK r] Cons
        by (cases "BACKTICK \<in> set r") simp_all
    qed
    have ch: "tokBytes (toks r (cur @ [c]) True) \<le> length cur + length s"
      using IH [of r "cur @ [c]" True] Cons by simp
    show ?thesis
      unfolding Cons toks.simps(2) unfolding Cons [symmetric]
      by (intro nat_le_if; (elim conjE)?;
          ((rule q tick ch sp; fail) | (rule opr0, simp; fail) | (erule sub) | (erule opP; simp; fail)))
  qed
qed

definition lineBytes :: "stage \<Rightarrow> stage list \<Rightarrow> statement list \<Rightarrow> nat" where
  "lineBytes stg cur stmts =
     stageBytes stg + sum_list (map stageBytes cur) + sum_list (map stmtBytes stmts)"

lemma stageBytes_new [simp]: "stageBytes newStage = 0"
  by (simp add: stageBytes_def newStage_def wordBytes_def)

lemma finishStage_bytes:
  "sum_list (map stageBytes (finishStage stg cur)) \<le> stageBytes stg + sum_list (map stageBytes cur)"
  by (simp add: finishStage_def)

lemma finishStmt_bytes:
  "sum_list (map stmtBytes (finishStmt ch stg cur stmts)) \<le> lineBytes stg cur stmts"
  using finishStage_bytes [of stg cur] by (simp add: finishStmt_def lineBytes_def Let_def stmtBytes_def)

lemma mput_bytes:
  "sum_list (map (\<lambda>kv. length (fst kv) + length (snd kv)) (mput k v m))
     \<le> length k + length v + sum_list (map (\<lambda>kv. length (fst kv) + length (snd kv)) m)"
  by (induction k v m rule: mput.induct) auto

lemma splitAssign_bytes: "splitAssign w = Some (k, v) \<Longrightarrow> length k + length v \<le> length w"
  by (auto simp: splitAssign_def split: option.splits if_splits)

lemma assign_bytes:
  "splitAssign w = Some (k, v) \<Longrightarrow>
     stageBytes (stg\<lparr>assigns := mput k v (assigns stg)\<rparr>) \<le> stageBytes stg + length w"
  using mput_bytes [of k v "assigns stg"] splitAssign_bytes [of w k v] by (simp add: stageBytes_def)

lemma arg_bytes: "stageBytes (stg\<lparr>args := args stg @ [w]\<rparr>) = stageBytes stg + length w"
  by (simp add: stageBytes_def wordBytes_def)

lemma redirect_bytes: "stageBytes (redirect r t stg) \<le> stageBytes stg + length t"
  by (simp add: stageBytes_def redirect_def)

lemma bytes_le_if:
  "(b \<Longrightarrow> sum_list (map stmtBytes x) \<le> n) \<Longrightarrow> (\<not> b \<Longrightarrow> sum_list (map stmtBytes y) \<le> n) \<Longrightarrow>
     sum_list (map stmtBytes (if b then x else y)) \<le> n"
  by simp

lemma parseLoop_bytes:
  "sum_list (map stmtBytes (parseLoop ts stg cur stmts)) \<le> lineBytes stg cur stmts + tokBytes ts"
proof (induction ts arbitrary: stg cur stmts rule: length_induct)
  case (1 ts)
  then have IH: "sum_list (map stmtBytes (parseLoop us stg cur stmts)) \<le> n"
    if "length us < length ts" "lineBytes stg cur stmts + tokBytes us \<le> n" for us stg cur stmts n
    using that le_trans by blast
  show ?case
  proof (cases ts)
    case Nil
    then show ?thesis by (simp add: finishStmt_bytes)
  next
    case (Cons t us)
    have st: "lineBytes newStage [] (finishStmt ch stg cur stmts) \<le> lineBytes stg cur stmts" for ch
      using finishStmt_bytes [of ch stg cur stmts] by (simp add: lineBytes_def)
    have pipe: "lineBytes newStage (finishStage stg cur) stmts \<le> lineBytes stg cur stmts"
      using finishStage_bytes [of stg cur] by (simp add: lineBytes_def)
    have upd: "lineBytes stg' cur stmts \<le> lineBytes stg cur stmts + k" if "stageBytes stg' \<le> stageBytes stg + k" for stg' k
      using that by (simp add: lineBytes_def)
    have asg: "(let (k, v) = the (splitAssign (val t)) in parseLoop us (stg\<lparr>assigns := mput k v (assigns stg)\<rparr>) cur stmts)
        = parseLoop us (stg\<lparr>assigns := mput (fst (the (splitAssign (val t)))) (snd (the (splitAssign (val t)))) (assigns stg)\<rparr>) cur stmts"
      by (simp split: prod.splits)
    have asg_le: "lineBytes (stg\<lparr>assigns := mput (fst (the (splitAssign (val t)))) (snd (the (splitAssign (val t)))) (assigns stg)\<rparr>) cur stmts
        \<le> lineBytes stg cur stmts + length (val t)" if "splitAssign (val t) \<noteq> None"
      using that by (intro upd assign_bytes) auto
    let ?N = "lineBytes stg cur stmts + tokBytes ts"
    have len: "length us < length ts" "us = t' # vs \<Longrightarrow> length vs < length ts" for t' vs
      using Cons by auto
    have r0: "sum_list (map stmtBytes (parseLoop us stg cur stmts)) \<le> ?N"
      using Cons by (intro IH len) simp
    have r1: "sum_list (map stmtBytes (parseLoop us newStage [] (finishStmt ch stg cur stmts))) \<le> ?N" for ch
      using st [of ch] Cons by (intro IH len) simp
    have r2: "sum_list (map stmtBytes (parseLoop us newStage (finishStage stg cur) stmts)) \<le> ?N"
      using pipe Cons by (intro IH len) simp
    have r3: "sum_list (map stmtBytes (parseLoop us (stg\<lparr>args := args stg @ [val t]\<rparr>) cur stmts)) \<le> ?N"
      using upd [OF eq_imp_le [OF arg_bytes], of "val t"] Cons by (intro IH len) simp
    have r4: "sum_list (map stmtBytes (case us of [] \<Rightarrow> parseLoop [] stg cur stmts
        | t' # ts' \<Rightarrow> parseLoop ts' (redirect (val t) (val t') stg) cur stmts)) \<le> ?N"
    proof (cases us)
      case (Cons t' vs)
      have "lineBytes (redirect (val t) (val t') stg) cur stmts + tokBytes vs \<le> ?N"
        using upd [OF redirect_bytes, of "val t" "val t'"] \<open>ts = t # us\<close> Cons by simp
      from IH [OF len(2) [OF Cons] this] Cons show ?thesis by simp
    qed (use r0 in simp)
    have r5: "sum_list (map stmtBytes (case us of [] \<Rightarrow> parseLoop [] stg cur stmts
        | _ # ts' \<Rightarrow> parseLoop ts' stg cur stmts)) \<le> ?N"
    proof (cases us)
      case (Cons t' vs)
      have "lineBytes stg cur stmts + tokBytes vs \<le> ?N" using \<open>ts = t # us\<close> Cons by simp
      from IH [OF len(2) [OF Cons] this] Cons show ?thesis by simp
    qed (use r0 in simp)
    have r6: "sum_list (map stmtBytes (parseLoop us (stg\<lparr>assigns := mput (fst (the (splitAssign (val t))))
        (snd (the (splitAssign (val t)))) (assigns stg)\<rparr>) cur stmts)) \<le> ?N"
      if "args stg = [] \<and> splitAssign (val t) \<noteq> None"
      using asg_le that Cons by (intro IH len) simp
    show ?thesis
      unfolding Cons parseLoop.simps(2) unfolding asg unfolding Cons [symmetric]
      by (intro bytes_le_if; (rule r0 r1 r2 r3 r4 r5 | erule r6))
  qed
qed

text \<open>
  Parsing never amplifies: the words, assignments and redirect targets of all the statements of a
  line together hold at most as many bytes as the line.
\<close>

theorem parse_never_amplifies: "sum_list (map stmtBytes (parse line)) \<le> length line"
  using parseLoop_bytes [of "tokenize line" newStage "[]" "[]"] toks_bytes [of line "[]" False]
  by (simp add: parse_def tokenize_def lineBytes_def)

section \<open>Quoting\<close>

definition squote :: "string \<Rightarrow> string" where
  "squote w = SQUOTE # w @ [SQUOTE]"

lemma upTo_append: "q \<notin> set w \<Longrightarrow> upTo q (w @ q # r) = (w, r)"
proof (induction w)
  case (Cons c w)
  then show ?case by (auto simp: upTo_def)
qed (simp add: upTo_def)

lemma toks_squote:
  assumes "SQUOTE \<notin> set w"
  shows "toks (squote w @ r) cur has = toks r (cur @ w) True"
  using upTo_append [OF assms, of r]
  by (simp add: squote_def toks.simps(2) TAB_def LF_def CR_def) (simp add: SQUOTE_def)

lemma toks_space: "toks (CHR '' '' # r) cur has = flush cur has @ toks r [] False"
  by (simp add: toks.simps(2))

lemma toks_quoted:
  "\<forall>w\<in>set ws. SQUOTE \<notin> set w \<Longrightarrow>
     toks (joinByte (CHR '' '') (map squote ws)) [] False = map word ws"
proof (induction ws)
  case (Cons w ws)
  show ?case
  proof (cases ws)
    case Nil
    then show ?thesis using toks_squote [of w "[]"] Cons by (simp add: flush_def)
  next
    case (Cons v vs)
    have "toks (joinByte (CHR '' '') (map squote (w # ws))) [] False =
        toks (squote w @ CHR '' '' # joinByte (CHR '' '') (map squote ws)) [] False"
      using Cons by simp
    then show ?thesis using Cons.IH Cons.prems by (simp add: toks_squote toks_space flush_def)
  qed
qed (simp add: flush_def)

lemma parseLoop_words:
  "args stg \<noteq> [] \<Longrightarrow>
     parseLoop (map word ws) stg cur stmts =
       finishStmt [] (stg\<lparr>args := args stg @ filter (\<lambda>w. \<not> isGroupMark w) ws\<rparr>) cur stmts"
  by (induction ws arbitrary: stg) (auto simp: parseLoop.simps(2))



end
