(* ===== verification/GoFormat.thy ===== *)
theory GoFormat
  imports Vfs Util
begin

text \<open>
  What the shell's text generators use of \<^verbatim>\<open>fmt\<close>, \<^verbatim>\<open>io/fs\<close> and \<^verbatim>\<open>time\<close>: padded fields, hexadecimal and octal
  numbers, one decimal of a binary fraction, a file mode as text, and calendar dates.  An instant is a
  number of nanoseconds since 1970 (\<^typ>\<open>gotime\<close>), and \<open>zone\<close> is the host's time zone: the offset from UTC
  in seconds and the abbreviation in force at an instant.
\<close>

section \<open>Fields\<close>

definition padLeft :: "nat \<Rightarrow> string \<Rightarrow> string" where
  "padLeft w s = replicate (w - length (runes s)) (CHR '' '') @ s"

definition padRight :: "nat \<Rightarrow> string \<Rightarrow> string" where
  "padRight w s = s @ replicate (w - length (runes s)) (CHR '' '')"

definition fmtD :: "nat \<Rightarrow> int \<Rightarrow> string" where
  "fmtD w n = padLeft w (Itoa n)"

definition fmtDLeft :: "nat \<Rightarrow> int \<Rightarrow> string" where
  "fmtDLeft w n = padRight w (Itoa n)"

text \<open>\<^verbatim>\<open>%0<w>d\<close>: zeros after the sign.\<close>

definition fmt0D :: "nat \<Rightarrow> int \<Rightarrow> string" where
  "fmt0D w n =
    (if n < 0 then CHR ''-'' # replicate (w - 1 - length (natDigits (- n))) (CHR ''0'') @ natDigits (- n)
     else replicate (w - length (natDigits n)) (CHR ''0'') @ natDigits n)"

function octDigits :: "int \<Rightarrow> string" where
  "octDigits n = (if n < 8 then [char_of (48 + n)] else octDigits (n div 8) @ [char_of (48 + n mod 8)])"
  by pat_completeness auto
termination
  by (relation "measure nat") auto

declare octDigits.simps [simp del]

definition fmt0O :: "nat \<Rightarrow> int \<Rightarrow> string" where
  "fmt0O w n = replicate (w - length (octDigits n)) (CHR ''0'') @ octDigits n"

text \<open>\<^verbatim>\<open>%.1f\<close> of the exact quotient \<open>n / 2^k\<close>, which rounds half to even.\<close>

definition roundHalfEven :: "int \<Rightarrow> int \<Rightarrow> int" where
  "roundHalfEven a b =
    (let q = a div b; r = 2 * (a mod b)
     in if r < b then q else if r > b then q + 1 else if even q then q else q + 1)"

definition fmtF1 :: "int \<Rightarrow> int \<Rightarrow> string" where
  "fmtF1 n d =
    (let t = roundHalfEven (10 * \<bar>n\<bar>) d
     in (if n < 0 then ''-'' else []) @ natDigits (t div 10) @ ''.'' @ natDigits (t mod 10))"

text \<open>\<^verbatim>\<open>int(d.Hours())\<close> and the like: a duration in whole units, rounded toward zero.\<close>

definition truncDiv :: "int \<Rightarrow> int \<Rightarrow> int" where
  "truncDiv a b = sgn a * (\<bar>a\<bar> div b)"

text \<open>A text of several lines, each ended by a line feed.\<close>

definition lns :: "string list \<Rightarrow> string" where
  "lns ls = concat (map (\<lambda>l. l @ [LF]) ls)"

section \<open>File modes\<close>

text \<open>\<^verbatim>\<open>fs.FileMode.String\<close>: a letter for every type bit, a dash for none, then the nine permission bits.\<close>

definition modeString :: "filemode \<Rightarrow> string" where
  "modeString m =
    (let kinds = concat (map (\<lambda>(i, c). if bit m (31 - i) then [c] else []) (enumerate 0 ''dalTLDpSugct?''));
         perms = map (\<lambda>(i, c). if bit m (8 - i) then c else CHR ''-'') (enumerate 0 ''rwxrwxrwx'')
     in (if kinds = [] then ''-'' else kinds) @ perms)"

definition modePerm :: "filemode \<Rightarrow> int" where
  "modePerm m = uint (m AND 0x1FF)"

section \<open>Dates\<close>

type_synonym zone = "gotime \<Rightarrow> int \<times> string"

text \<open>A day count as a date of the proleptic Gregorian calendar, by 400-year eras beginning in March.\<close>

definition civilOfDays :: "int \<Rightarrow> int \<times> int \<times> int" where
  "civilOfDays z =
    (let z = z + 719468;
         era = z div 146097;
         doe = z mod 146097;
         yoe = (doe - doe div 1460 + doe div 36524 - doe div 146096) div 365;
         doy = doe - (365 * yoe + yoe div 4 - yoe div 100);
         mp = (5 * doy + 2) div 153;
         d = doy - (153 * mp + 2) div 5 + 1;
         m = (if mp < 10 then mp + 3 else mp - 9);
         y = yoe + era * 400
     in (if m \<le> 2 then y + 1 else y, m, d))"

record clock =
  k_year :: int
  k_month :: int
  k_day :: int
  k_wday :: int
  k_hour :: int
  k_min :: int
  k_sec :: int
  k_nsec :: int
  k_off :: int
  k_zone :: string

definition clockOf :: "zone \<Rightarrow> gotime \<Rightarrow> clock" where
  "clockOf zone t =
    (let off = fst (zone t);
         secs = t div 1000000000 + off;
         days = secs div 86400;
         s = secs mod 86400
     in case civilOfDays days of (y, m, d) \<Rightarrow>
       \<lparr>k_year = y, k_month = m, k_day = d, k_wday = (days + 4) mod 7, k_hour = s div 3600,
        k_min = s mod 3600 div 60, k_sec = s mod 60, k_nsec = t mod 1000000000, k_off = off,
        k_zone = snd (zone t)\<rparr>)"

definition monthNames :: "string list" where
  "monthNames = [''Jan'', ''Feb'', ''Mar'', ''Apr'', ''May'', ''Jun'', ''Jul'', ''Aug'', ''Sep'', ''Oct'', ''Nov'', ''Dec'']"

definition dayNames :: "string list" where
  "dayNames = [''Sun'', ''Mon'', ''Tue'', ''Wed'', ''Thu'', ''Fri'', ''Sat'']"

definition mon3 :: "clock \<Rightarrow> string" where
  "mon3 k = monthNames ! nat (k_month k - 1)"

definition day3 :: "clock \<Rightarrow> string" where
  "day3 k = dayNames ! nat (k_wday k)"

definition hhmm :: "clock \<Rightarrow> string" where
  "hhmm k = fmt0D 2 (k_hour k) @ '':'' @ fmt0D 2 (k_min k)"

definition hhmmss :: "clock \<Rightarrow> string" where
  "hhmmss k = hhmm k @ '':'' @ fmt0D 2 (k_sec k)"

text \<open>The layouts of \<^verbatim>\<open>Time.Format\<close> that the sources use.\<close>

definition fmtStamp :: "clock \<Rightarrow> string" where \<comment> \<open>\<^verbatim>\<open>Jan _2 15:04\<close>\<close>
  "fmtStamp k = mon3 k @ '' '' @ fmtD 2 (k_day k) @ '' '' @ hhmm k"

definition fmtWtmp :: "clock \<Rightarrow> string" where \<comment> \<open>\<^verbatim>\<open>Mon Jan _2 15:04\<close>\<close>
  "fmtWtmp k = day3 k @ '' '' @ fmtStamp k"

definition fmtAnsi :: "clock \<Rightarrow> string" where \<comment> \<open>\<^verbatim>\<open>Mon Jan _2 15:04:05 2006\<close>\<close>
  "fmtAnsi k = day3 k @ '' '' @ mon3 k @ '' '' @ fmtD 2 (k_day k) @ '' '' @ hhmmss k @ '' '' @ fmt0D 4 (k_year k)"

definition fmtLogin :: "clock \<Rightarrow> string" where \<comment> \<open>\<^verbatim>\<open>Mon Jan  2 15:04:05 2006\<close>\<close>
  "fmtLogin k = day3 k @ '' '' @ mon3 k @ ''  '' @ Itoa (k_day k) @ '' '' @ hhmmss k @ '' '' @ fmt0D 4 (k_year k)"

definition fmtDate :: "clock \<Rightarrow> string" where \<comment> \<open>\<^verbatim>\<open>Mon Jan  2 15:04:05 MST 2006\<close>\<close>
  "fmtDate k = day3 k @ '' '' @ mon3 k @ ''  '' @ Itoa (k_day k) @ '' '' @ hhmmss k @ '' '' @ k_zone k @ '' '' @ fmt0D 4 (k_year k)"

definition fmtDateTime :: "clock \<Rightarrow> string" where \<comment> \<open>\<^verbatim>\<open>2006-01-02 15:04:05\<close>\<close>
  "fmtDateTime k = fmt0D 4 (k_year k) @ ''-'' @ fmt0D 2 (k_month k) @ ''-'' @ fmt0D 2 (k_day k) @ '' '' @ hhmmss k"

definition fmtOffset :: "int \<Rightarrow> string" where \<comment> \<open>\<^verbatim>\<open>-0700\<close>\<close>
  "fmtOffset off = (if off < 0 then ''-'' else ''+'') @ fmt0D 2 (\<bar>off\<bar> div 60 div 60) @ fmt0D 2 (\<bar>off\<bar> div 60 mod 60)"

definition fmtNano :: "clock \<Rightarrow> string" where \<comment> \<open>\<^verbatim>\<open>2006-01-02 15:04:05.000000000 -0700\<close>\<close>
  "fmtNano k = fmtDateTime k @ ''.'' @ fmt0D 9 (k_nsec k) @ '' '' @ fmtOffset (k_off k)"

definition fmtMonDay :: "clock \<Rightarrow> string" where \<comment> \<open>\<^verbatim>\<open>Jan02\<close>\<close>
  "fmtMonDay k = mon3 k @ fmt0D 2 (k_day k)"

end
