(* ===== verification/ShellArith.thy ===== *)
theory ShellArith
  imports Prelude
begin

text \<open>
  The \<^verbatim>\<open>$((...))\<close> evaluator of \<^verbatim>\<open>internal/shell/shell.go\<close> (type \<^verbatim>\<open>arith\<close>).  The parser's position is the
  rest of the text, so each method takes the rest and returns its value with the rest it leaves.  A
  method's \<^verbatim>\<open>for\<close> loop is a function of its own (\<open>addLoop\<close>, \<open>mulLoop\<close>).  Integers are 64-bit and wrap.
  Shown: the methods terminate on every text, the result is a 64-bit integer, and the parser inverts
  printing with the usual precedences and left association, whatever the spacing.
\<close>

definition isAlnum :: "char \<Rightarrow> bool" where
  "isAlnum c = (isDigit c \<or> isUpper c \<or> isLower c)"

definition nameChar :: "char \<Rightarrow> bool" where
  "nameChar c = (c = CHR ''_'' \<or> isAlnum c)"

definition getenv :: "(string, string) gomap \<Rightarrow> string \<Rightarrow> string" where
  "getenv env name = (case mget env name of Some v \<Rightarrow> v | None \<Rightarrow> [])"

definition arith_ws :: "string \<Rightarrow> string" where
  "arith_ws s = dropWhile (\<lambda>c. c = CHR '' '') s"

text \<open>Go's division of machine integers: truncated, and the quotient wraps.\<close>

definition goDiv :: "int \<Rightarrow> int \<Rightarrow> int" where
  "goDiv a b = wrap64 (sgn a * sgn b * (\<bar>a\<bar> div \<bar>b\<bar>))"

definition goMod :: "int \<Rightarrow> int \<Rightarrow> int" where
  "goMod a b = sgn a * (\<bar>a\<bar> mod \<bar>b\<bar>)"

definition addOp :: "char \<Rightarrow> int \<Rightarrow> int \<Rightarrow> int" where
  "addOp op v r = (if op = CHR ''+'' then wrap64 (v + r) else wrap64 (v - r))"

definition mulOp :: "char \<Rightarrow> int \<Rightarrow> int \<Rightarrow> int" where
  "mulOp op v r =
    (if op = CHR ''*'' then wrap64 (v * r)
     else if r = 0 then 0
     else if op = CHR ''/'' then goDiv v r
     else goMod v r)"

definition isAddOp :: "string \<Rightarrow> bool" where
  "isAddOp s = (s \<noteq> [] \<and> (hd s = CHR ''+'' \<or> hd s = CHR ''-''))"

definition isMulOp :: "string \<Rightarrow> bool" where
  "isMulOp s = (s \<noteq> [] \<and> (hd s = CHR ''*'' \<or> hd s = CHR ''/'' \<or> hd s = CHR ''%''))"

text \<open>A run of digits as a number (\<^verbatim>\<open>Atoi\<close> gives the largest int when it overflows), or a name.\<close>

definition primaryWord :: "(string, string) gomap \<Rightarrow> string \<Rightarrow> int \<times> string" where
  "primaryWord env s =
    (let d = takeWhile isDigit s
     in if d \<noteq> [] then (case Atoi d of Some n \<Rightarrow> n | None \<Rightarrow> maxInt64, dropWhile isDigit s)
        else let w = takeWhile nameChar s
             in (if w \<noteq> [] then (case Atoi (getenv env w) of Some v \<Rightarrow> v | None \<Rightarrow> 0) else 0,
                 dropWhile nameChar s))"

lemma arith_ws_length: "length (arith_ws s) \<le> length s"
  by (simp add: arith_ws_def length_dropWhile_le)

lemma primaryWord_length: "length (snd (primaryWord env s)) \<le> length s"
  by (simp add: primaryWord_def Let_def length_dropWhile_le)

lemma tl_ws_less: "arith_ws s \<noteq> [] \<Longrightarrow> length (tl (arith_ws s)) < length s"
  using arith_ws_length [of s] by (cases "arith_ws s") auto

lemma tl_ws_le: "length (tl (arith_ws s)) \<le> length s"
  using arith_ws_length [of s] by simp

lemma isOp_not_Nil: "isAddOp s \<Longrightarrow> s \<noteq> []" "isMulOp s \<Longrightarrow> s \<noteq> []"
  by (auto simp: isAddOp_def isMulOp_def)

lemma tl_ws_room: "arith_ws s \<noteq> [] \<Longrightarrow> 4 * length (tl (arith_ws s)) + 4 \<le> 4 * length s"
  using tl_ws_less [of s] by simp

function parseAdd :: "(string, string) gomap \<Rightarrow> string \<Rightarrow> int \<times> string"
  and addLoop :: "(string, string) gomap \<Rightarrow> int \<Rightarrow> string \<Rightarrow> int \<times> string"
  and parseMul :: "(string, string) gomap \<Rightarrow> string \<Rightarrow> int \<times> string"
  and mulLoop :: "(string, string) gomap \<Rightarrow> int \<Rightarrow> string \<Rightarrow> int \<times> string"
  and parseUnary :: "(string, string) gomap \<Rightarrow> string \<Rightarrow> int \<times> string"
  and parsePrimary :: "(string, string) gomap \<Rightarrow> string \<Rightarrow> int \<times> string" where
  "parseAdd env s = (let (v, s1) = parseMul env s in addLoop env v s1)"
| "addLoop env v s =
    (let s1 = arith_ws s
     in if isAddOp s1 then let (r, s2) = parseMul env (tl s1) in addLoop env (addOp (hd s1) v r) s2
        else (v, s1))"
| "parseMul env s = (let (v, s1) = parseUnary env s in mulLoop env v s1)"
| "mulLoop env v s =
    (let s1 = arith_ws s
     in if isMulOp s1 then let (r, s2) = parseUnary env (tl s1) in mulLoop env (mulOp (hd s1) v r) s2
        else (v, s1))"
| "parseUnary env s =
    (let s1 = arith_ws s
     in if s1 \<noteq> [] \<and> hd s1 = CHR ''-'' then let (v, s2) = parseUnary env (tl s1) in (wrap64 (- v), s2)
        else if s1 \<noteq> [] \<and> hd s1 = CHR ''+'' then parseUnary env (tl s1)
        else parsePrimary env s1)"
| "parsePrimary env s =
    (let s1 = arith_ws s
     in if s1 \<noteq> [] \<and> hd s1 = CHR ''('' then
          let (v, s2) = parseAdd env (tl s1); s3 = arith_ws s2
          in (v, if s3 \<noteq> [] \<and> hd s3 = CHR '')'' then tl s3 else s3)
        else if s1 \<noteq> [] \<and> hd s1 = CHR ''$'' then primaryWord env (tl s1)
        else primaryWord env s1)"
  by pat_completeness auto
termination
proof -
  have shrinks:
    "parseAdd_addLoop_parseMul_mulLoop_parseUnary_parsePrimary_dom (Inl (Inl (env, s))) \<Longrightarrow> length (snd (parseAdd env s)) \<le> length s"
    "parseAdd_addLoop_parseMul_mulLoop_parseUnary_parsePrimary_dom (Inl (Inr (Inl (env, v, s)))) \<Longrightarrow> length (snd (addLoop env v s)) \<le> length s"
    "parseAdd_addLoop_parseMul_mulLoop_parseUnary_parsePrimary_dom (Inl (Inr (Inr (env, s)))) \<Longrightarrow> length (snd (parseMul env s)) \<le> length s"
    "parseAdd_addLoop_parseMul_mulLoop_parseUnary_parsePrimary_dom (Inr (Inl (env, v, s))) \<Longrightarrow> length (snd (mulLoop env v s)) \<le> length s"
    "parseAdd_addLoop_parseMul_mulLoop_parseUnary_parsePrimary_dom (Inr (Inr (Inl (env, s)))) \<Longrightarrow> length (snd (parseUnary env s)) \<le> length s"
    "parseAdd_addLoop_parseMul_mulLoop_parseUnary_parsePrimary_dom (Inr (Inr (Inr (env, s)))) \<Longrightarrow> length (snd (parsePrimary env s)) \<le> length s"
    for env v s
  proof (induction env s and env v s and env s and env v s and env s and env s rule: parseAdd_addLoop_parseMul_mulLoop_parseUnary_parsePrimary.pinduct)
    case (1 env s)
    obtain v r where m: "parseMul env s = (v, r)" by (rule prod.exhaust)
    from 1 m have "length r \<le> length s" "length (snd (addLoop env v r)) \<le> length r" by auto
    with 1 m show ?case by (auto simp: parseAdd.psimps)
  next
    case (2 env v s)
    obtain r t where m: "parseMul env (tl (arith_ws s)) = (r, t)" by (rule prod.exhaust)
    show ?case
    proof (cases "isAddOp (arith_ws s)")
      case True
      with 2(2,3) m have "length t \<le> length (tl (arith_ws s))"
        "length (snd (addLoop env (addOp (hd (arith_ws s)) v r) t)) \<le> length t" by auto
      with 2(1) m True tl_ws_le [of s] show ?thesis by (auto simp: addLoop.psimps Let_def)
    next
      case False
      with 2(1) arith_ws_length [of s] show ?thesis by (simp add: addLoop.psimps Let_def)
    qed
  next
    case (3 env s)
    obtain v r where m: "parseUnary env s = (v, r)" by (rule prod.exhaust)
    from 3 m have "length r \<le> length s" "length (snd (mulLoop env v r)) \<le> length r" by auto
    with 3 m show ?case by (auto simp: parseMul.psimps)
  next
    case (4 env v s)
    obtain r t where m: "parseUnary env (tl (arith_ws s)) = (r, t)" by (rule prod.exhaust)
    show ?case
    proof (cases "isMulOp (arith_ws s)")
      case True
      with 4(2,3) m have "length t \<le> length (tl (arith_ws s))"
        "length (snd (mulLoop env (mulOp (hd (arith_ws s)) v r) t)) \<le> length t" by auto
      with 4(1) m True tl_ws_le [of s] show ?thesis by (auto simp: mulLoop.psimps Let_def)
    next
      case False
      with 4(1) arith_ws_length [of s] show ?thesis by (simp add: mulLoop.psimps Let_def)
    qed
  next
    case (5 env s)
    then show ?case
      using arith_ws_length [of s] tl_ws_le [of s]
      by (auto simp: parseUnary.psimps split_beta Let_def)
  next
    case (6 env s)
    then show ?case
      using arith_ws_length [of s] tl_ws_le [of s]
        primaryWord_length [of env "arith_ws s"] primaryWord_length [of env "tl (arith_ws s)"]
        arith_ws_length [of "snd (parseAdd env (tl (arith_ws s)))"]
      by (auto simp: parsePrimary.psimps split_beta Let_def)
  qed
  have consumes:
    "parseAdd_addLoop_parseMul_mulLoop_parseUnary_parsePrimary_dom (Inl (Inr (Inr (env, s)))) \<Longrightarrow> (v, r) = parseMul env s \<Longrightarrow> length r \<le> length s"
    "parseAdd_addLoop_parseMul_mulLoop_parseUnary_parsePrimary_dom (Inr (Inr (Inl (env, s)))) \<Longrightarrow> (v, r) = parseUnary env s \<Longrightarrow> length r \<le> length s"
    for env s v r
    using shrinks(3,5) by (metis snd_conv)+
  show ?thesis
  proof (relation "measure (\<lambda>x. case x of
       Inl (Inl (env, s)) \<Rightarrow> 4 * length s + 3
     | Inl (Inr (Inl (env, v, s))) \<Rightarrow> 4 * length s
     | Inl (Inr (Inr (env, s))) \<Rightarrow> 4 * length s + 2
     | Inr (Inl (env, v, s)) \<Rightarrow> 4 * length s
     | Inr (Inr (Inl (env, s))) \<Rightarrow> 4 * length s + 1
     | Inr (Inr (Inr (env, s))) \<Rightarrow> 4 * length s)", goal_cases)
    case (3 env s x v r)
    then show ?case using consumes(1) [of env s v r] by (auto split: prod.splits)
  next
    case (4 env v s x)
    then show ?case using tl_ws_room [of s] isOp_not_Nil by auto
  next
    case (5 env v s x y r t)
    then show ?case using tl_ws_room [of s] consumes(1) [of env "tl x" r t] isOp_not_Nil by (auto split: prod.splits)
  next
    case (7 env s x v r)
    then show ?case using consumes(2) [of env s v r] by (auto split: prod.splits)
  next
    case (8 env v s x)
    then show ?case using tl_ws_room [of s] isOp_not_Nil by auto
  next
    case (9 env v s x y r t)
    then show ?case using tl_ws_room [of s] consumes(2) [of env "tl x" r t] isOp_not_Nil by (auto split: prod.splits)
  next
    case (10 env s x)
    then show ?case using tl_ws_room [of s] by auto
  next
    case (11 env s x)
    then show ?case using tl_ws_room [of s] by auto
  next
    case (12 env s x)
    then show ?case using arith_ws_length [of s] by auto
  next
    case (13 env s x)
    then show ?case using tl_ws_room [of s] by auto
  qed simp_all
qed

declare parseAdd.simps [simp del] addLoop.simps [simp del] parseMul.simps [simp del]
  mulLoop.simps [simp del] parseUnary.simps [simp del] parsePrimary.simps [simp del]

definition evalArith :: "(string, string) gomap \<Rightarrow> string \<Rightarrow> int" where
  "evalArith env expr = fst (parseAdd env expr)"

section \<open>Results are machine integers\<close>

abbreviation int64 :: "int \<Rightarrow> bool" where
  "int64 n \<equiv> minInt64 \<le> n \<and> n \<le> maxInt64"

lemma Atoi_range: "Atoi s = Some v \<Longrightarrow> int64 v"
  by (auto simp: Atoi.simps Let_def split: if_splits)

lemma zero_range: "int64 0" "int64 maxInt64"
  by (simp_all add: minInt64_def maxInt64_def)

lemma primaryWord_range: "int64 (fst (primaryWord env s))"
  using zero_range by (auto simp: primaryWord_def Let_def Atoi_range split: option.splits)

lemma goMod_range: "int64 a \<Longrightarrow> int64 (goMod a b)"
proof -
  assume a: "int64 a"
  have "0 \<le> \<bar>a\<bar> mod \<bar>b\<bar>" "\<bar>a\<bar> mod \<bar>b\<bar> \<le> \<bar>a\<bar>"
    by (cases "b = 0"; simp add: zmod_le_nonneg_dividend)+
  with a show ?thesis
    by (cases "a = 0"; cases "0 < a") (auto simp: goMod_def sgn_if minInt64_def maxInt64_def)
qed

lemma op_range: "int64 v \<Longrightarrow> int64 (addOp op v r)" "int64 v \<Longrightarrow> int64 (mulOp op v r)"
  using wrap64_range zero_range goMod_range by (auto simp: addOp_def mulOp_def goDiv_def)

lemma parse_range:
  "int64 (fst (parseAdd env s))"
  "int64 v \<Longrightarrow> int64 (fst (addLoop env v s))"
  "int64 (fst (parseMul env s))"
  "int64 v \<Longrightarrow> int64 (fst (mulLoop env v s))"
  "int64 (fst (parseUnary env s))"
  "int64 (fst (parsePrimary env s))"
proof (induction env s and env v s and env s and env v s and env s and env s
    rule: parseAdd_addLoop_parseMul_mulLoop_parseUnary_parsePrimary.induct)
  case (1 env s)
  obtain v r where "parseMul env s = (v, r)" by (rule prod.exhaust)
  with 1 show ?case by (auto simp: parseAdd.simps [of env s])
next
  case (2 env v s)
  obtain r t where "parseMul env (tl (arith_ws s)) = (r, t)" by (rule prod.exhaust)
  with 2 show ?case by (auto simp: addLoop.simps [of env v s] Let_def op_range)
next
  case (3 env s)
  obtain v r where "parseUnary env s = (v, r)" by (rule prod.exhaust)
  with 3 show ?case by (auto simp: parseMul.simps [of env s])
next
  case (4 env v s)
  obtain r t where "parseUnary env (tl (arith_ws s)) = (r, t)" by (rule prod.exhaust)
  with 4 show ?case by (auto simp: mulLoop.simps [of env v s] Let_def op_range)
next
  case (5 env s)
  then show ?case by (auto simp: parseUnary.simps [of env s] Let_def split_beta wrap64_range)
next
  case (6 env s)
  then show ?case
    by (auto simp: parsePrimary.simps [of env s] Let_def split_beta primaryWord_range)
qed

section \<open>Precedence and association\<close>

text \<open>
  The expressions of a 64-bit shell, their value, and their text: a binary operator's left operand is
  printed at the operator's own level, its right operand one level up, a lower level is put in
  parentheses, and \<open>k\<close> blanks stand before every token.
\<close>

datatype aexpr = Num int | Var string | Neg aexpr | Pos aexpr | Bin char aexpr aexpr

definition opLevel :: "char \<Rightarrow> nat" where
  "opLevel op = (if op = CHR ''+'' \<or> op = CHR ''-'' then 0 else 1)"

primrec aval :: "(string, string) gomap \<Rightarrow> aexpr \<Rightarrow> int" where
  "aval env (Num n) = n"
| "aval env (Var x) = (case Atoi (getenv env x) of Some v \<Rightarrow> v | None \<Rightarrow> 0)"
| "aval env (Neg e) = wrap64 (- aval env e)"
| "aval env (Pos e) = aval env e"
| "aval env (Bin op a b) =
    (if opLevel op = 0 then addOp op (aval env a) (aval env b) else mulOp op (aval env a) (aval env b))"

primrec wfExpr :: "aexpr \<Rightarrow> bool" where
  "wfExpr (Num n) = (0 \<le> n \<and> n \<le> maxInt64)"
| "wfExpr (Var x) = (x \<noteq> [] \<and> list_all nameChar x \<and> \<not> isDigit (hd x))"
| "wfExpr (Neg e) = wfExpr e"
| "wfExpr (Pos e) = wfExpr e"
| "wfExpr (Bin op a b) = (op \<in> set ''+-*/%'' \<and> wfExpr a \<and> wfExpr b)"

definition spaced :: "nat \<Rightarrow> string \<Rightarrow> string" where
  "spaced k t = replicate k (CHR '' '') @ t"

definition inParens :: "nat \<Rightarrow> bool \<Rightarrow> string \<Rightarrow> string" where
  "inParens k b t = (if b then spaced k ''('' @ t @ spaced k '')'' else t)"

primrec printExpr :: "nat \<Rightarrow> nat \<Rightarrow> aexpr \<Rightarrow> string" where
  "printExpr k l (Num n) = spaced k (natDigits n)"
| "printExpr k l (Var x) = spaced k x"
| "printExpr k l (Neg e) = spaced k ''-'' @ printExpr k 2 e"
| "printExpr k l (Pos e) = spaced k ''+'' @ printExpr k 2 e"
| "printExpr k l (Bin op a b) =
    inParens k (opLevel op < l) (printExpr k (opLevel op) a @ spaced k [op] @ printExpr k (Suc (opLevel op)) b)"

definition wordEnds :: "string \<Rightarrow> bool" where
  "wordEnds s = (s = [] \<or> \<not> nameChar (hd s))"

lemma ws_spaced [simp]: "t \<noteq> [] \<Longrightarrow> hd t \<noteq> CHR '' '' \<Longrightarrow> arith_ws (spaced k t @ s) = t @ s"
  by (cases t; induction k) (auto simp: arith_ws_def spaced_def)

lemma ws_Cons [simp]: "c \<noteq> CHR '' '' \<Longrightarrow> arith_ws (c # s) = c # s"
  by (simp add: arith_ws_def)

lemma ws_ws [simp]: "arith_ws (arith_ws s) = arith_ws s"
  by (induction s) (auto simp: arith_ws_def)

lemma loop_ws [simp]: "addLoop env v (arith_ws s) = addLoop env v s" "mulLoop env v (arith_ws s) = mulLoop env v s"
  by (simp_all add: addLoop.simps [of env v] mulLoop.simps [of env v])

lemma wordEnds_spaced [simp]: "t \<noteq> [] \<Longrightarrow> \<not> nameChar (hd t) \<Longrightarrow> wordEnds (spaced k t @ s)"
  by (cases k; cases t) (auto simp: wordEnds_def spaced_def nameChar_def isAlnum_def isDigit_def isUpper_def isLower_def code_def)

lemma mulLoop_stop: "\<not> isMulOp (arith_ws s) \<Longrightarrow> mulLoop env v s = (v, arith_ws s)"
  by (simp add: mulLoop.simps [of env v s])

lemma unary_mul: "parseUnary env t = (v, r) \<Longrightarrow> parseMul env t = mulLoop env v r"
  by (simp add: parseMul.simps)

lemma mul_add: "parseMul env t = mulLoop env v r \<Longrightarrow> \<not> isMulOp (arith_ws r) \<Longrightarrow> parseAdd env t = addLoop env v r"
  by (simp add: parseAdd.simps mulLoop_stop)

lemma add_unary:
  assumes "parseAdd env (p @ spaced k '')'' @ r) = addLoop env v (spaced k '')'' @ r)"
  shows "parseUnary env (inParens k True p @ r) = (v, r)"
proof -
  have "addLoop env v (spaced k '')'' @ r) = (v, CHR '')'' # r)"
    by (simp add: addLoop.simps [of env v] isAddOp_def)
  with assms show ?thesis
    by (simp add: inParens_def parseUnary.simps parsePrimary.simps)
qed

lemma takeWhile_word:
  "list_all P d \<Longrightarrow> s = [] \<or> \<not> P (hd s) \<Longrightarrow> takeWhile P (d @ s) = d \<and> dropWhile P (d @ s) = s"
  by (induction d) (cases s; simp)+

lemma digit_name: "isDigit c \<Longrightarrow> nameChar c"
  by (simp add: nameChar_def isAlnum_def)

lemma nameChar_not: "nameChar c \<Longrightarrow> c \<notin> set '' ()+-*/%$''"
  by (auto simp: nameChar_def isAlnum_def isDigit_def isUpper_def isLower_def code_def)

lemma parse_word:
  assumes "nameChar (hd w)" "w \<noteq> []"
  shows "parseUnary env (spaced k w @ r) = primaryWord env (w @ r)"
proof -
  have "hd w \<notin> set '' ()+-*/%$''" using assms(1) by (rule nameChar_not)
  moreover have "arith_ws (w @ r) = w @ r"
    using assms(2) calculation by (cases w) (auto simp: arith_ws_def)
  ultimately show ?thesis using assms(2)
    by (simp add: parseUnary.simps parsePrimary.simps)
qed

lemma primaryWord_num:
  assumes "0 \<le> n" "n \<le> maxInt64" "wordEnds r"
  shows "primaryWord env (natDigits n @ r) = (n, r)"
proof -
  have "Atoi (Itoa n) = Some n" using assms by (intro Atoi_Itoa) (auto simp: minInt64_def)
  then have "Atoi (natDigits n) = Some n" using assms(1) by (simp add: Itoa_def)
  moreover have "takeWhile isDigit (natDigits n @ r) = natDigits n \<and> dropWhile isDigit (natDigits n @ r) = r"
    using assms natDigits_digits digit_name by (intro takeWhile_word) (auto simp: wordEnds_def)
  ultimately show ?thesis by (simp add: primaryWord_def)
qed

lemma primaryWord_name:
  assumes "wfExpr (Var x)" "wordEnds r"
  shows "primaryWord env (x @ r) = (aval env (Var x), r)"
proof -
  have "takeWhile isDigit (x @ r) = []" using assms by (cases x) auto
  moreover have "takeWhile nameChar (x @ r) = x \<and> dropWhile nameChar (x @ r) = r"
    using assms by (intro takeWhile_word) (auto simp: wordEnds_def)
  ultimately show ?thesis using assms(1) by (simp add: primaryWord_def)
qed

lemma parse_sign:
  "parseUnary env (spaced k ''-'' @ t) = (let (v, r) = parseUnary env t in (wrap64 (- v), r))"
  "parseUnary env (spaced k ''+'' @ t) = parseUnary env t"
  by (simp_all add: parseUnary.simps [of env "spaced k _ @ t"])

lemma addLoop_op:
  assumes "isAddOp [op]" "parseMul env t = mulLoop env w r" "\<not> isMulOp (arith_ws r)"
  shows "addLoop env v (spaced k [op] @ t) = addLoop env (addOp op v w) r"
proof -
  have "addLoop env v (spaced k [op] @ t) = addLoop env (addOp op v w) (arith_ws r)"
    using assms by (auto simp: addLoop.simps [of env v] isAddOp_def mulLoop_stop simp del: loop_ws)
  then show ?thesis by simp
qed

lemma mulLoop_op:
  "isMulOp [op] \<Longrightarrow> parseUnary env t = (w, r) \<Longrightarrow>
   mulLoop env v (spaced k [op] @ t) = mulLoop env (mulOp op v w) r"
  by (auto simp: mulLoop.simps [of env v "spaced k _ @ t"] isMulOp_def)

definition parsesAs :: "(string, string) gomap \<Rightarrow> nat \<Rightarrow> aexpr \<Rightarrow> bool" where
  "parsesAs env k e = (\<forall>r. wordEnds r \<longrightarrow>
     parseUnary env (printExpr k 2 e @ r) = (aval env e, r) \<and>
     parseMul env (printExpr k 1 e @ r) = mulLoop env (aval env e) r \<and>
     (\<not> isMulOp (arith_ws r) \<longrightarrow> parseAdd env (printExpr k 0 e @ r) = addLoop env (aval env e) r))"

lemma parsesAs_unary:
  assumes "\<And>r. wordEnds r \<Longrightarrow> parseUnary env (t @ r) = (aval env e, r)"
    and "\<And>l. printExpr k l e = t"
  shows "parsesAs env k e"
  using assms(1) by (auto simp: parsesAs_def assms(2) intro: unary_mul mul_add [OF unary_mul])

lemma parsesAs_bin:
  assumes "op \<in> set ''+-*/%''" "parsesAs env k a" "parsesAs env k b"
  shows "parsesAs env k (Bin op a b)"
proof (cases "opLevel op = 0")
  case True
  then have op: "isAddOp [op]" "\<not> nameChar op" "op \<noteq> CHR '' ''" "\<not> isMulOp [op]"
    using assms(1) nameChar_not [of op] by (auto simp: opLevel_def isAddOp_def isMulOp_def split: if_splits)
  have sum: "parseAdd env (printExpr k 0 (Bin op a b) @ r) = addLoop env (aval env (Bin op a b)) r"
    if "wordEnds r" "\<not> isMulOp (arith_ws r)" for r
  proof -
    have "parseAdd env (printExpr k 0 a @ spaced k [op] @ printExpr k 1 b @ r)
      = addLoop env (aval env a) (spaced k [op] @ printExpr k 1 b @ r)"
      using assms(2) op by (auto simp: parsesAs_def isMulOp_def)
    also have "\<dots> = addLoop env (addOp op (aval env a) (aval env b)) r"
      using assms(3) that op(1) by (intro addLoop_op) (auto simp: parsesAs_def)
    finally show ?thesis using True by (simp add: inParens_def)
  qed
  show ?thesis unfolding parsesAs_def
  proof (intro allI impI)
    fix r assume r: "wordEnds r"
    have "parseUnary env (inParens k True (printExpr k 0 (Bin op a b)) @ r) = (aval env (Bin op a b), r)"
      using r by (intro add_unary sum) (auto simp: isMulOp_def nameChar_def isAlnum_def isDigit_def isUpper_def isLower_def code_def)
    then show "parseUnary env (printExpr k 2 (Bin op a b) @ r) = (aval env (Bin op a b), r) \<and>
      parseMul env (printExpr k 1 (Bin op a b) @ r) = mulLoop env (aval env (Bin op a b)) r \<and>
      (\<not> isMulOp (arith_ws r) \<longrightarrow>
        parseAdd env (printExpr k 0 (Bin op a b) @ r) = addLoop env (aval env (Bin op a b)) r)"
      using sum [OF r] True by (simp add: unary_mul inParens_def)
  qed
next
  case False
  then have op: "opLevel op = 1" "isMulOp [op]" "\<not> nameChar op" "op \<noteq> CHR '' ''"
    using assms(1) nameChar_not [of op] by (auto simp: opLevel_def isMulOp_def split: if_splits)
  have prod: "parseMul env (printExpr k 1 (Bin op a b) @ r) = mulLoop env (aval env (Bin op a b)) r"
    if "wordEnds r" for r
  proof -
    have "parseMul env (printExpr k 1 a @ spaced k [op] @ printExpr k 2 b @ r)
      = mulLoop env (aval env a) (spaced k [op] @ printExpr k 2 b @ r)"
      using assms(2) op by (auto simp: parsesAs_def)
    also have "\<dots> = mulLoop env (mulOp op (aval env a) (aval env b)) r"
      using assms(3) that op(2) by (intro mulLoop_op) (auto simp: parsesAs_def)
    finally show ?thesis using op(1) by (simp add: inParens_def numeral_2_eq_2)
  qed
  show ?thesis unfolding parsesAs_def
  proof (intro allI impI)
    fix r assume r: "wordEnds r"
    have "parseUnary env (inParens k True (printExpr k 1 (Bin op a b)) @ r) = (aval env (Bin op a b), r)"
      using r by (intro add_unary mul_add prod) (auto simp: isMulOp_def nameChar_def isAlnum_def isDigit_def isUpper_def isLower_def code_def)
    then show "parseUnary env (printExpr k 2 (Bin op a b) @ r) = (aval env (Bin op a b), r) \<and>
      parseMul env (printExpr k 1 (Bin op a b) @ r) = mulLoop env (aval env (Bin op a b)) r \<and>
      (\<not> isMulOp (arith_ws r) \<longrightarrow>
        parseAdd env (printExpr k 0 (Bin op a b) @ r) = addLoop env (aval env (Bin op a b)) r)"
      using prod [OF r] mul_add [OF prod [OF r]] op(1) by (simp add: inParens_def)
  qed
qed

lemma wf_parsesAs: "wfExpr e \<Longrightarrow> parsesAs env k e"
proof (induction e)
  case (Num n)
  then have "isDigit (hd (natDigits n))"
    using natDigits_digits [of n] by (cases "natDigits n") auto
  with Num show ?case
    by (intro parsesAs_unary [where t = "spaced k (natDigits n)"]) (auto simp: parse_word digit_name primaryWord_num)
next
  case (Var x)
  then have "nameChar (hd x)" by (cases x) auto
  with Var show ?case
    by (intro parsesAs_unary [where t = "spaced k x"]) (auto simp: parse_word primaryWord_name)
next
  case (Neg e)
  then show ?case
    by (intro parsesAs_unary [where t = "spaced k ''-'' @ printExpr k 2 e"]) (auto simp: parsesAs_def parse_sign)
next
  case (Pos e)
  then show ?case
    by (intro parsesAs_unary [where t = "spaced k ''+'' @ printExpr k 2 e"]) (auto simp: parsesAs_def parse_sign)
next
  case (Bin op a b)
  then show ?case by (intro parsesAs_bin) auto
qed


definition sampleExpr :: aexpr where
  "sampleExpr = Bin CHR ''-'' (Bin CHR ''-'' (Num 7) (Bin CHR ''*'' (Num 2) (Var ''x''))) (Neg (Bin CHR ''+'' (Num 1) (Num 1)))"


text \<open>
  Whatever text stands between \<^verbatim>\<open>$((\<close> and \<^verbatim>\<open>))\<close>, however malformed, the evaluator returns, and what
  it returns is a 64-bit integer.
\<close>

lemma arithmetic_in_range: "minInt64 \<le> evalArith env s \<and> evalArith env s \<le> maxInt64"
  using parse_range(1) [of env s] by (simp add: evalArith_def)

end
