(* ===== verification/ShellSys.thy ===== *)
theory ShellSys
  imports GoFormat Persona ShellArith
begin

text \<open>
  The system-tool generators of \<^verbatim>\<open>internal/shell/dynamic.go\<close> (process table, memory, disks, network,
  uptime, login records) and the functions of \<^verbatim>\<open>commands.go\<close> that read the process table.  \<open>now\<close> is the
  clock's reading and \<open>zone\<close> the host's time zone.  Shown: what \<^verbatim>\<open>netstat\<close> and \<^verbatim>\<open>ss\<close> list are exactly the
  ports the instance serves, the tools that describe one fact agree on it, and disk usage adds up.
\<close>

definition treeCorner :: string where
  "treeCorner = map char_of [0xE2, 0x94, 0x94, 0xE2, 0x94, 0x80 :: int]"

definition bulletSign :: string where
  "bulletSign = map char_of [0xE2, 0x97, 0x8F :: int]"

definition unixTime :: "int \<Rightarrow> gotime" where
  "unixTime sec = sec * 1000000000"

definition uptimeOf :: "gotime \<Rightarrow> Persona \<Rightarrow> int" where
  "uptimeOf now p = now - unixTime (p_BootEpoch p)"

definition bcast :: "string \<Rightarrow> string" where
  "bcast ip = (case LastIndexByte ip (CHR ''.'') of Some i \<Rightarrow> take i ip @ ''.255'' | None \<Rightarrow> ip)"

section \<open>Processes\<close>

record procRow =
  pr_user :: string
  pr_pid :: int
  pr_cpu :: string
  pr_mem :: string
  pr_vsz :: int
  pr_rss :: int
  pr_tty :: string
  pr_stat :: string
  pr_atBoot :: bool
  pr_cpuTime :: string
  pr_command :: string

definition procRow_of ::
  "string \<Rightarrow> int \<Rightarrow> string \<Rightarrow> string \<Rightarrow> int \<Rightarrow> int \<Rightarrow> string \<Rightarrow> string \<Rightarrow> bool \<Rightarrow> string \<Rightarrow> string \<Rightarrow> procRow" where
  "procRow_of user pid cpu mem vsz rss tty stat atBoot cpuTime command =
    \<lparr>pr_user = user, pr_pid = pid, pr_cpu = cpu, pr_mem = mem, pr_vsz = vsz, pr_rss = rss, pr_tty = tty,
     pr_stat = stat, pr_atBoot = atBoot, pr_cpuTime = cpuTime, pr_command = command\<rparr>"

definition shellPID :: int where "shellPID = 2841"

definition kthreads :: "string list" where
  "kthreads = [
     ''[kthreadd]'', ''[rcu_gp]'', ''[rcu_par_gp]'', ''[kworker/0:0H-events_highpri]'',
     ''[mm_percpu_wq]'', ''[ksoftirqd/0]'', ''[rcu_sched]'', ''[migration/0]'', ''[cpuhp/0]'',
     ''[cpuhp/1]'', ''[migration/1]'', ''[ksoftirqd/1]'', ''[kworker/1:0H-events_highpri]'',
     ''[kdevtmpfs]'', ''[netns]'', ''[kauditd]'', ''[khungtaskd]'', ''[oom_reaper]'', ''[writeback]'',
     ''[kcompactd0]'', ''[ksmd]'', ''[khugepaged]'', ''[kintegrityd]'', ''[kblockd]'', ''[ata_sff]'',
     ''[md]'', ''[edac-poller]'', ''[devfreq_wq]'', ''[watchdogd]'', ''[kswapd0]'', ''[kthrotld]'',
     ''[ipv6_addrconf]'', ''[kstrp]'', ''[jbd2/xvda1-8]'', ''[ext4-rsv-conver]'',
     ''[kworker/0:2-events]'', ''[kworker/1:2-events]'', ''[kworker/u4:1-flush-202:0]'']"

fun kthreadRows :: "int \<Rightarrow> string list \<Rightarrow> procRow list" where
  "kthreadRows pid [] = []"
| "kthreadRows pid (name # names) =
    procRow_of ''root'' pid ''0.0'' ''0.0'' 0 0 ''?''
      (if HasPrefix name ''[ksoftirqd'' \<or> HasPrefix name ''[migration'' \<or> HasPrefix name ''[rcu_sched''
       then ''S'' else ''I<'') True ''0:00'' name
    # kthreadRows (pid + 2) names"

definition daemonRows :: "procRow list" where
  "daemonRows = [
     procRow_of ''root'' 412 ''0.0'' ''0.2'' 93776 6020 ''?'' ''Ss'' True ''0:01'' (''/lib/systemd/systemd-journald''),
     procRow_of ''root'' 440 ''0.0'' ''0.2'' 25004 6600 ''?'' ''Ss'' True ''0:00'' (''/lib/systemd/systemd-udevd''),
     procRow_of ''systemd+'' 520 ''0.0'' ''0.2'' 90120 5900 ''?'' ''Ssl'' True ''0:02'' (''/lib/systemd/systemd-networkd''),
     procRow_of ''systemd+'' 522 ''0.0'' ''0.3'' 25376 12100 ''?'' ''Ss'' True ''0:03'' (''/lib/systemd/systemd-resolved''),
     procRow_of ''root'' 540 ''0.0'' ''0.1'' 8892 3200 ''?'' ''Ss'' True ''0:00'' (''/usr/sbin/cron -f''),
     procRow_of ''message+'' 544 ''0.0'' ''0.1'' 9160 4800 ''?'' ''Ss'' True ''0:01'' (''/usr/bin/dbus-daemon --system --address=systemd: --nofork --nopidfile''),
     procRow_of ''root'' 560 ''0.0'' ''0.2'' 16948 7400 ''?'' ''Ss'' True ''0:00'' (''/lib/systemd/systemd-logind''),
     procRow_of ''syslog'' 566 ''0.0'' ''0.1'' 222440 5000 ''?'' ''Ssl'' True ''0:00'' (''/usr/sbin/rsyslogd -n -iNONE''),
     procRow_of ''root'' 498 ''0.0'' ''0.1'' 15852 4800 ''?'' ''Ss'' True ''0:00'' (''/usr/sbin/sshd -D''),
     procRow_of ''mysql'' 611 ''0.3'' ''9.1'' 1820400 184220 ''?'' ''Ssl'' True ''8:42'' (''/usr/sbin/mysqld''),
     procRow_of ''root'' 719 ''0.0'' ''0.5'' 208880 11400 ''?'' ''Ss'' True ''0:00'' (''nginx: master process''),
     procRow_of ''www-data'' 720 ''0.0'' ''1.2'' 209360 25240 ''?'' ''S'' True ''0:11'' (''nginx: worker process''),
     procRow_of ''www-data'' 721 ''0.0'' ''1.2'' 209360 24980 ''?'' ''S'' True ''0:09'' (''nginx: worker process''),
     procRow_of ''www-data'' 880 ''0.0'' ''2.1'' 294500 43120 ''?'' ''S'' True ''0:33'' (''php-fpm: pool www''),
     procRow_of ''root'' 1408 ''0.0'' ''0.1'' 5828 1900 ''tty1'' ''Ss+'' True ''0:00'' (''/sbin/agetty -o -p -- '' @ [BACKSLASH] @ ''u --noclear tty1 linux''),
     procRow_of ''root'' shellPID ''0.0'' ''0.2'' 21380 5360 ''pts/0'' ''Ss'' False ''0:00'' (''-bash''),
     procRow_of ''root'' 2900 ''0.0'' ''0.1'' 19208 3600 ''pts/0'' ''R+'' False ''0:00'' (''ps aux'')]"

definition procTable :: "procRow list" where
  "procTable =
    procRow_of ''root'' 1 ''0.0'' ''0.4'' 168140 11200 ''?'' ''Ss'' True ''0:24'' ''/sbin/init''
    # kthreadRows 2 kthreads @ daemonRows"

definition psStartField :: "zone \<Rightarrow> gotime \<Rightarrow> Persona \<Rightarrow> bool \<Rightarrow> gotime \<Rightarrow> string" where
  "psStartField zone now p atBoot login =
    (if \<not> atBoot then hhmm (clockOf zone login)
     else let boot = unixTime (p_BootEpoch p)
          in if now - boot < 24 * hourNs then hhmm (clockOf zone boot) else fmtMonDay (clockOf zone boot))"

definition psRow :: "zone \<Rightarrow> gotime \<Rightarrow> Persona \<Rightarrow> gotime \<Rightarrow> procRow \<Rightarrow> string" where
  "psRow zone now p login r =
    padRight 8 (pr_user r) @ '' '' @ fmtD 5 (pr_pid r) @ '' '' @ padLeft 4 (pr_cpu r) @ '' '' @ padLeft 4 (pr_mem r)
    @ '' '' @ fmtD 6 (pr_vsz r) @ '' '' @ fmtD 5 (pr_rss r) @ '' '' @ padRight 8 (pr_tty r) @ '' ''
    @ padRight 4 (pr_stat r) @ '' '' @ padRight 5 (psStartField zone now p (pr_atBoot r) login) @ '' ''
    @ pr_cpuTime r @ '' '' @ pr_command r @ [LF]"

definition psStr :: "zone \<Rightarrow> gotime \<Rightarrow> Persona \<Rightarrow> bool \<Rightarrow> gotime \<Rightarrow> string" where
  "psStr zone now p full login =
    (if \<not> full then lns [''    PID TTY          TIME CMD'', ''   2841 pts/0    00:00:00 bash'',
        ''   2899 pts/0    00:00:00 ps'']
     else lns [''USER         PID %CPU %MEM    VSZ   RSS TTY      STAT START   TIME COMMAND'']
       @ concat (map (psRow zone now p login) procTable))"

definition psFull :: "string list \<Rightarrow> bool" where
  "psFull args = list_ex (\<lambda>a. Contains a ''a'' \<and> Contains a ''u'' \<or> Contains a ''e'' \<or> Contains a ''f'') (tl args)"

definition cmdPs :: "zone \<Rightarrow> gotime \<Rightarrow> Persona \<Rightarrow> gotime \<Rightarrow> string list \<Rightarrow> string" where
  "cmdPs zone now p login args = psStr zone now p (psFull args) login"

definition pidKey :: "string \<Rightarrow> string" where
  "pidKey name =
    (if name \<in> {''mysql'', ''mysqld'', ''mariadb''} then ''mysqld''
     else if name \<in> {''ssh'', ''sshd''} then ''sshd''
     else if name \<in> {''php-fpm'', ''php'', ''php8.1-fpm''} then ''php-fpm''
     else name)"

fun findPID :: "string \<Rightarrow> procRow list \<Rightarrow> int option" where
  "findPID key [] = None"
| "findPID key (r # rs) =
    (if Contains (pr_command r) ''worker'' then findPID key rs
     else if Contains (pr_command r) key then Some (pr_pid r)
     else findPID key rs)"

definition mainPID :: "string \<Rightarrow> int" where
  "mainPID name = (case findPID (pidKey name) procTable of Some pid \<Rightarrow> pid | None \<Rightarrow> 600 + int (length name))"

definition fmtDur :: "int \<Rightarrow> string" where
  "fmtDur d =
    (let h = truncDiv d hourNs; days = truncDiv h 24; hours = goMod h 24; mins = goMod (truncDiv d minuteNs) 60
     in if days > 0 then Itoa days @ ''d '' @ Itoa hours @ ''h''
        else Itoa hours @ ''h '' @ Itoa mins @ ''min'')"

definition systemctlStatus :: "gotime \<Rightarrow> Persona \<Rightarrow> string \<Rightarrow> string" where
  "systemctlStatus now p name = lns [
     bulletSign @ '' '' @ name @ ''.service - '' @ name,
     ''     Loaded: loaded (/lib/systemd/system/'' @ name @ ''.service; enabled; vendor preset: enabled)'',
     ''     Active: active (running) since boot; '' @ fmtDur (uptimeOf now p) @ '' ago'',
     ''   Main PID: '' @ Itoa (mainPID name) @ '' ('' @ name @ '')'',
     ''      Tasks: 3 (limit: 2294)'',
     ''     Memory: 12.4M'']"

section \<open>Memory and disks\<close>

definition swapTotalKiB :: int where "swapTotalKiB = 2097148"
definition swapUsedKiB :: int where "swapUsedKiB = 86040"
definition swapFreeKiB :: int where "swapFreeKiB = swapTotalKiB - swapUsedKiB"

record memory =
  m_total :: int
  m_used :: int
  m_free :: int
  m_buff :: int
  m_avail :: int

definition memNumbers :: "gotime \<Rightarrow> Persona \<Rightarrow> memory" where
  "memNumbers now p =
    (let total = 4030836; used = 1740000 + goMod (truncDiv (uptimeOf now p) minuteNs) 90000; free = 240000
     in \<lparr>m_total = total, m_used = used, m_free = free, m_buff = total - used - free,
         m_avail = total - used + 600000\<rparr>)"

definition freeStr :: "gotime \<Rightarrow> Persona \<Rightarrow> string" where
  "freeStr now p =
    (let m = memNumbers now p
     in lns [''               total        used        free      shared  buff/cache   available'',
       ''Mem:        '' @ fmtD 8 (m_total m) @ ''    '' @ fmtD 8 (m_used m) @ ''    '' @ fmtD 8 (m_free m)
         @ ''      199116    '' @ fmtD 8 (m_buff m) @ ''    '' @ fmtD 8 (m_avail m),
       ''Swap:     '' @ fmtD 10 swapTotalKiB @ ''  '' @ fmtD 10 swapUsedKiB @ ''  '' @ fmtD 10 swapFreeKiB])"

record diskSize =
  d_human :: string
  d_blocks :: int

definition sdCards :: "diskSize list" where
  "sdCards = [\<lparr>d_human = ''14.8G'', d_blocks = 15193088\<rparr>, \<lparr>d_human = ''29.7G'', d_blocks = 30041088\<rparr>,
     \<lparr>d_human = ''59.6G'', d_blocks = 61071360\<rparr>]"

definition cloudVols :: "diskSize list" where
  "cloudVols = [\<lparr>d_human = ''20G'', d_blocks = 20509264\<rparr>, \<lparr>d_human = ''40G'', d_blocks = 41019200\<rparr>,
     \<lparr>d_human = ''60G'', d_blocks = 62543872\<rparr>, \<lparr>d_human = ''80G'', d_blocks = 83361792\<rparr>,
     \<lparr>d_human = ''100G'', d_blocks = 104210432\<rparr>]"

definition dataVols :: "diskSize list" where
  "dataVols = [\<lparr>d_human = ''49G'', d_blocks = 51475068\<rparr>, \<lparr>d_human = ''98G'', d_blocks = 104805376\<rparr>,
     \<lparr>d_human = ''196G'', d_blocks = 209715200\<rparr>]"

text \<open>The 32-bit FNV-1a hash, written out in \<^verbatim>\<open>diskHash\<close>, \<^verbatim>\<open>fakeInode\<close> and \<^verbatim>\<open>fnv32\<close>.\<close>

definition fnv32 :: "string \<Rightarrow> 32 word" where
  "fnv32 s = foldl (\<lambda>h c. (h XOR word_of_int (code c)) * 16777619) 2166136261 s"

definition diskHash :: "Persona \<Rightarrow> 32 word" where
  "diskHash p = fnv32 (p_MachineID p)"

definition usage :: "int \<Rightarrow> 32 word \<Rightarrow> int \<times> int \<times> int" where
  "usage blocks h =
    (let pct = 14 + uint (h mod 60); used = blocks * pct div 100 in (used, blocks - used, pct))"

definition pick3 :: "'a list \<Rightarrow> 32 word \<Rightarrow> 'a" where
  "pick3 s h = s ! (unat h mod length s)"

definition dfLine :: "string \<Rightarrow> diskSize \<Rightarrow> 32 word \<Rightarrow> string \<Rightarrow> string" where
  "dfLine dev disk h mount =
    (case usage (d_blocks disk) h of (used, avail, pct) \<Rightarrow>
      padRight 14 dev @ '' '' @ fmtD 9 (d_blocks disk) @ '' '' @ fmtD 8 used @ '' '' @ fmtD 9 avail @ '' ''
      @ fmtD 3 pct @ ''% '' @ mount)"

definition dfStr :: "Persona \<Rightarrow> string" where
  "dfStr p =
    (let h = diskHash p
     in if Embedded p then lns [
          ''Filesystem     1K-blocks     Used Available Use% Mounted on'',
          ''tmpfs             403084     1280    401804   1% /run'',
          dfLine ''/dev/mmcblk0p1'' (pick3 sdCards h) (drop_bit 3 h) ''/'',
          ''tmpfs            2015416        0   2015416   0% /dev/shm'',
          ''tmpfs               5120        0      5120   0% /run/lock'',
          ''tmpfs             403080        4    403076   1% /run/user/0'']
        else lns [
          ''Filesystem     1K-blocks     Used Available Use% Mounted on'',
          ''tmpfs             403084     1280    401804   1% /run'',
          dfLine ''/dev/xvda1'' (pick3 cloudVols h) (drop_bit 3 h) ''/'',
          ''tmpfs            2015416        0   2015416   0% /dev/shm'',
          ''tmpfs               5120        0      5120   0% /run/lock'',
          dfLine ''/dev/xvdb1'' (pick3 dataVols (drop_bit 5 h)) (drop_bit 11 h) ''/var/lib/mysql'',
          ''tmpfs             403080        4    403076   1% /run/user/0''])"

definition lsblkStr :: "Persona \<Rightarrow> string" where
  "lsblkStr p =
    (let h = diskHash p
     in if Embedded p then
          let root = padLeft 5 (d_human (pick3 sdCards h))
          in lns [''NAME        MAJ:MIN RM   SIZE RO TYPE MOUNTPOINTS'',
            ''mmcblk0     179:0    0 '' @ root @ ''  0 disk'',
            treeCorner @ ''mmcblk0p1 179:1    0 '' @ root @ ''  0 part /'']
        else
          let root = padLeft 5 (d_human (pick3 cloudVols h)); data = padLeft 5 (d_human (pick3 dataVols (drop_bit 5 h)))
          in lns [''NAME    MAJ:MIN RM  SIZE RO TYPE MOUNTPOINTS'',
            ''xvda    202:0    0 '' @ root @ ''  0 disk'',
            treeCorner @ ''xvda1 202:1    0 '' @ root @ ''  0 part /'',
            ''xvdb    202:16   0 '' @ data @ ''  0 disk'',
            treeCorner @ ''xvdb1 202:17   0 '' @ data @ ''  0 part /var/lib/mysql''])"

section \<open>Uptime and logins\<close>

definition loadAverage :: "int \<Rightarrow> string" where
  "loadAverage days = ''load average: 0.'' @ fmt0D 2 (8 + goMod days 30) @ '', 0.'' @ fmt0D 2 (12 + goMod days 20)
     @ '', 0.'' @ fmt0D 2 (5 + goMod days 15)"

definition uptimeStr :: "zone \<Rightarrow> gotime \<Rightarrow> Persona \<Rightarrow> string" where
  "uptimeStr zone now p =
    (let up = uptimeOf now p; hours = truncDiv up hourNs; days = truncDiv hours 24
     in '' '' @ hhmmss (clockOf zone now) @ '' up '' @ Itoa days @ '' days, '' @ fmtD 2 (goMod hours 24) @ '':''
        @ fmt0D 2 (goMod (truncDiv up minuteNs) 60) @ '',  1 user,  '' @ loadAverage days @ [LF])"

definition idleField :: "gotime \<Rightarrow> gotime \<Rightarrow> string" where
  "idleField now login =
    (let s = truncDiv (now - login) secondNs
     in if s < 60 then fmtD 2 s @ ''.00s''
        else let m = s div 60
             in if m < 60 then fmtD 5 m @ ''m'' else fmtD 2 (m div 60) @ '':'' @ fmt0D 2 (m mod 60))"

definition wStr :: "zone \<Rightarrow> gotime \<Rightarrow> Persona \<Rightarrow> string \<Rightarrow> string \<Rightarrow> gotime \<Rightarrow> string" where
  "wStr zone now p user srcIP login =
    TrimSuffix (uptimeStr zone now p) [LF] @
    lns [[], ''USER     TTY      FROM             LOGIN@   IDLE   JCPU   PCPU WHAT'',
      padRight 8 user @ '' pts/0    '' @ padRight 15 srcIP @ '' '' @ hhmm (clockOf zone login) @ ''    ''
        @ idleField now login @ ''  0.04s  0.00s -bash'']"

definition lastRow :: "zone \<Rightarrow> string \<Rightarrow> string \<Rightarrow> gotime \<Rightarrow> int \<Rightarrow> string \<Rightarrow> string" where
  "lastRow zone head from start mins len =
    head @ padRight 15 from @ '' '' @ fmtWtmp (clockOf zone start) @ '' - ''
      @ hhmm (clockOf zone (start + mins * minuteNs)) @ ''  ('' @ len @ '')''"

definition lastStr :: "zone \<Rightarrow> gotime \<Rightarrow> Persona \<Rightarrow> string \<Rightarrow> string \<Rightarrow> gotime \<Rightarrow> string" where
  "lastStr zone now p user srcIP login = lns [
     padRight 8 user @ '' pts/0        '' @ padRight 15 srcIP @ '' '' @ fmtWtmp (clockOf zone login) @ ''   still logged in'',
     lastRow zone (padRight 8 user @ '' pts/0        '') (p_GatewayIP p) (now - 26 * hourNs) 42 ''00:42'',
     lastRow zone (padRight 8 user @ '' pts/0        '') (p_GatewayIP p) (now - 50 * hourNs) 78 ''01:18'',
     lastRow zone ''deploy   pts/1        '' (p_BackupIP p) (now - 74 * hourNs) 9 ''00:09'',
     [],
     ''wtmp begins '' @ fmtAnsi (clockOf zone (unixTime (p_BootEpoch p) - 72 * hourNs))]"

section \<open>Network\<close>

definition hexByte :: "int \<Rightarrow> string" where
  "hexByte n = hex2 (char_of (n mod 256))"

definition countersLine :: "string \<Rightarrow> int \<Rightarrow> int \<Rightarrow> string" where
  "countersLine label packets nbytes =
    ''        '' @ label @ '' packets '' @ Itoa packets @ ''  bytes '' @ Itoa nbytes @ '' ('' @ fmtF1 nbytes 1048576 @ '' MiB)''"

definition ifconfigStr :: "gotime \<Rightarrow> Persona \<Rightarrow> string" where
  "ifconfigStr now p =
    (let up = truncDiv (uptimeOf now p) secondNs; rxp = 184000 + up * 7; txp = 142000 + up * 5
     in lns [''eth0: flags=4163<UP,BROADCAST,RUNNING,MULTICAST>  mtu 1500'',
       ''        inet '' @ p_HostIP p @ ''  netmask 255.255.255.0  broadcast '' @ bcast (p_HostIP p),
       ''        inet6 fe80::'' @ hexByte up @ '':'' @ hexByte (up div 256) @ ''ff:fe'' @ hexByte up @ '':''
         @ hexByte (up div 16) @ ''  prefixlen 64  scopeid 0x20<link>'',
       ''        ether '' @ p_MAC p @ ''  txqueuelen 1000  (Ethernet)'',
       countersLine ''RX'' rxp (rxp * 812),
       ''        RX errors 0  dropped 0  overruns 0  frame 0'',
       countersLine ''TX'' txp (txp * 690),
       ''        TX errors 0  dropped 0 overruns 0  carrier 0  collisions 0'',
       [],
       ''lo: flags=73<UP,LOOPBACK,RUNNING>  mtu 65536'',
       ''        inet 127.0.0.1  netmask 255.0.0.0'',
       ''        inet6 ::1  prefixlen 128  scopeid 0x10<host>'',
       ''        loop  txqueuelen 1000  (Local Loopback)'',
       countersLine ''RX'' (up * 3) (up * 3 * 98),
       countersLine ''TX'' (up * 3) (up * 3 * 98)])"

definition ipAddrStr :: "Persona \<Rightarrow> string" where
  "ipAddrStr p = lns [
     ''1: lo: <LOOPBACK,UP,LOWER_UP> mtu 65536 qdisc noqueue state UNKNOWN group default qlen 1000'',
     ''    link/loopback 00:00:00:00:00:00 brd 00:00:00:00:00:00'',
     ''    inet 127.0.0.1/8 scope host lo'',
     ''       valid_lft forever preferred_lft forever'',
     ''2: eth0: <BROADCAST,MULTICAST,UP,LOWER_UP> mtu 1500 qdisc fq_codel state UP group default qlen 1000'',
     ''    link/ether '' @ p_MAC p @ '' brd ff:ff:ff:ff:ff:ff'',
     ''    inet '' @ p_HostIP p @ ''/24 brd '' @ bcast (p_HostIP p) @ '' scope global eth0'',
     ''       valid_lft forever preferred_lft forever'']"

text \<open>Slicing at the last dot panics when the address has none (\<^const>\<open>None\<close>).\<close>

definition ipRouteStr :: "Persona \<Rightarrow> string option" where
  "ipRouteStr p =
    (case LastIndexByte (p_HostIP p) (CHR ''.'') of
       None \<Rightarrow> None
     | Some i \<Rightarrow> Some (lns [''default via '' @ p_GatewayIP p @ '' dev eth0 proto static'',
         take i (p_HostIP p) @ ''.0/24 dev eth0 proto kernel scope link src '' @ p_HostIP p]))"

definition ipLinkStr :: "Persona \<Rightarrow> string" where
  "ipLinkStr p = lns [
     ''1: lo: <LOOPBACK,UP,LOWER_UP> mtu 65536 qdisc noqueue state UNKNOWN mode DEFAULT group default qlen 1000'',
     ''    link/loopback 00:00:00:00:00:00 brd 00:00:00:00:00:00'',
     ''2: eth0: <BROADCAST,MULTICAST,UP,LOWER_UP> mtu 1500 qdisc fq_codel state UP mode DEFAULT group default qlen 1000'',
     ''    link/ether '' @ p_MAC p @ '' brd ff:ff:ff:ff:ff:ff'']"

fun listenLoop :: "ServiceSpec list \<Rightarrow> int list \<Rightarrow> int list" where
  "listenLoop [] ports = ports"
| "listenLoop (s # ss) ports =
    listenLoop ss
      (if ss_Protocol s \<in> {''ssh'', ''telnet'', ''http'', ''https'', ''ftp''} \<and> ss_Port s \<notin> set ports
       then ports @ [ss_Port s] else ports)"

definition listenPorts :: "Persona \<Rightarrow> int list" where
  "listenPorts p = sort (listenLoop (p_Services p) [])"

fun sshPort :: "ServiceSpec list \<Rightarrow> int option" where
  "sshPort [] = None"
| "sshPort (s # ss) = (if ss_Protocol s = ''ssh'' then Some (ss_Port s) else sshPort ss)"

definition mgmtPort :: "Persona \<Rightarrow> int" where
  "mgmtPort p =
    (case sshPort (p_Services p) of
       Some port \<Rightarrow> port
     | None \<Rightarrow> (case listenPorts p of port # _ \<Rightarrow> port | [] \<Rightarrow> 22))"

definition netstatLine :: "string \<Rightarrow> string \<Rightarrow> string \<Rightarrow> string \<Rightarrow> string" where
  "netstatLine queues local remote state = ''tcp        0    '' @ queues @ '' '' @ padRight 23 local @ '' '' @ padRight 23 remote @ '' '' @ state"

definition netstatStr :: "Persona \<Rightarrow> string" where
  "netstatStr p =
    (let mp = p_HostIP p @ '':'' @ Itoa (mgmtPort p)
     in lns ([''Active Internet connections (servers and established)'',
         ''Proto Recv-Q Send-Q Local Address           Foreign Address         State'']
       @ map (\<lambda>port. netstatLine ''  0'' (''0.0.0.0:'' @ Itoa port) ''0.0.0.0:*'' ''LISTEN'') (listenPorts p)
       @ [netstatLine ''  0'' ''127.0.0.1:3306'' ''0.0.0.0:*'' ''LISTEN'',
          netstatLine ''  0'' mp (p_GatewayIP p @ '':51224'') ''ESTABLISHED'',
          netstatLine ''140'' mp (p_BackupIP p @ '':43122'') ''ESTABLISHED'']))"

definition ssStr :: "Persona \<Rightarrow> string" where
  "ssStr p =
    lns ([''State    Recv-Q   Send-Q     Local Address:Port       Peer Address:Port'']
      @ map (\<lambda>port. ''LISTEN   0        128        '' @ padRight 24 (''0.0.0.0:'' @ Itoa port) @ '' 0.0.0.0:*'') (listenPorts p)
      @ [''LISTEN   0        70         '' @ padRight 24 ''127.0.0.1:3306'' @ '' 0.0.0.0:*''])"

section \<open>Hardware texts\<close>

definition lscpuStr :: "Persona \<Rightarrow> string" where
  "lscpuStr p =
    (if Embedded p then lns [
     ''Architecture:            aarch64'',
     ''  CPU op-mode(s):        32-bit, 64-bit'',
     ''  Byte Order:            Little Endian'',
     ''CPU(s):                  2'',
     ''  On-line CPU(s) list:   0,1'',
     ''Vendor ID:               ARM'',
     ''  Model name:            Cortex-A72'',
     ''    Model:               3'',
     ''    Thread(s) per core:  1'',
     ''    Core(s) per socket:  2'',
     ''    Socket(s):           1'',
     ''    Stepping:            r0p3'',
     ''    BogoMIPS:            108.00'',
     ''    Flags:               fp asimd evtstrm aes pmull sha1 sha2 crc32 cpuid'',
     ''Caches (sum of all):'',
     ''  L1d:                   128 KiB (2 instances)'',
     ''  L1i:                   96 KiB (2 instances)'',
     ''  L2:                    2 MiB (2 instances)'']
     else lns [
     ''Architecture:            x86_64'',
     ''  CPU op-mode(s):        32-bit, 64-bit'',
     ''  Byte Order:            Little Endian'',
     ''CPU(s):                  2'',
     ''  On-line CPU(s) list:   0,1'',
     ''Vendor ID:               GenuineIntel'',
     ''  Model name:            Intel(R) Xeon(R) CPU E5-2680 v4 @ 2.40GHz'',
     ''    CPU family:          6'',
     ''    Model:               79'',
     ''    Thread(s) per core:  1'',
     ''    Core(s) per socket:  2'',
     ''    Socket(s):           1'',
     ''    Stepping:            1'',
     ''    BogoMIPS:            4799.99'',
     ''Virtualization features:'',
     ''  Hypervisor vendor:     Xen'',
     ''  Virtualization type:   full'',
     ''Caches (sum of all):'',
     ''  L1d:                   64 KiB (2 instances)'',
     ''  L1i:                   64 KiB (2 instances)'',
     ''  L2:                    512 KiB (2 instances)'',
     ''  L3:                    35 MiB (1 instance)''])"

definition mountStr :: "Persona \<Rightarrow> string" where
  "mountStr p =
    (if Embedded p then lns [
     ''sysfs on /sys type sysfs (rw,nosuid,nodev,noexec,relatime)'',
     ''proc on /proc type proc (rw,nosuid,nodev,noexec,relatime)'',
     ''udev on /dev type devtmpfs (rw,nosuid,relatime,size=1981624k,nr_inodes=495406,mode=755)'',
     ''/dev/mmcblk0p1 on / type ext4 (rw,relatime)'',
     ''tmpfs on /run type tmpfs (rw,nosuid,nodev,noexec,relatime,size=403084k,mode=755)'',
     ''tmpfs on /dev/shm type tmpfs (rw,nosuid,nodev)'',
     ''tmpfs on /run/lock type tmpfs (rw,nosuid,nodev,noexec,relatime,size=5120k)'']
     else lns [
     ''sysfs on /sys type sysfs (rw,nosuid,nodev,noexec,relatime)'',
     ''proc on /proc type proc (rw,nosuid,nodev,noexec,relatime)'',
     ''udev on /dev type devtmpfs (rw,nosuid,relatime,size=1981624k,nr_inodes=495406,mode=755)'',
     ''/dev/xvda1 on / type ext4 (rw,relatime)'',
     ''/dev/xvdb1 on /var/lib/mysql type ext4 (rw,relatime)'',
     ''tmpfs on /run type tmpfs (rw,nosuid,nodev,noexec,relatime,size=403084k,mode=755)'',
     ''tmpfs on /dev/shm type tmpfs (rw,nosuid,nodev)'',
     ''tmpfs on /run/lock type tmpfs (rw,nosuid,nodev,noexec,relatime,size=5120k)''])"

definition dmesgStr :: "Persona \<Rightarrow> string" where
  "dmesgStr p =
    (if Embedded p then lns [
     ''[    0.000000] Linux version '' @ p_KernelRel p,
     ''[    0.000000] Machine model: Generic DT based system'',
     ''[    0.000000] efi: UEFI not found.'',
     ''[    0.000000] CPU: ARMv8 Processor [410fd083] revision 3'',
     ''[    0.000000] psci: probing for conduit method from DT.'',
     ''[    0.123456] EXT4-fs (mmcblk0p1): mounted filesystem with ordered data mode'',
     ''[    1.234567] systemd[1]: Detected architecture arm64.'',
     ''[    2.345678] mmc0: new ultra high speed SDR104 SDHC card at address aaaa'',
     ''[    5.678901] IPv6: ADDRCONF(NETDEV_CHANGE): eth0: link becomes ready'']
     else lns [
     ''[    0.000000] Linux version '' @ p_KernelRel p,
     ''[    0.000000] Command line: BOOT_IMAGE=/boot/vmlinuz-'' @ p_KernelRel p @ '' root=UUID='' @ p_RootUUID p @ '' ro console=tty1'',
     ''[    0.004000] KERNEL supported cpus: Intel GenuineIntel'',
     ''[    0.008000] x86/fpu: Supporting XSAVE feature 0x001: '' @ [SQUOTE] @ ''x87 floating point registers'' @ [SQUOTE],
     ''[    1.234567] EXT4-fs (xvda1): mounted filesystem with ordered data mode'',
     ''[    2.345678] systemd[1]: Detected virtualization xen.'',
     ''[    3.456789] systemd[1]: Detected architecture x86-64.'',
     ''[    4.567890] eth0: renamed from tmp0'',
     ''[    5.678901] IPv6: ADDRCONF(NETDEV_CHANGE): eth0: link becomes ready''])"

section \<open>The tools agree\<close>

definition served :: "ServiceSpec \<Rightarrow> bool" where
  "served s = (ss_Protocol s \<in> {''ssh'', ''telnet'', ''http'', ''https'', ''ftp''})"

lemma listenLoop_set: "set (listenLoop ss ports) = set ports \<union> ss_Port ` {s \<in> set ss. served s}"
  by (induction ss ports rule: listenLoop.induct) (auto simp: served_def)

lemma listenLoop_distinct: "distinct ports \<Longrightarrow> distinct (listenLoop ss ports)"
  by (induction ss ports rule: listenLoop.induct) auto

lemma sshPort_served: "sshPort ss = Some port \<Longrightarrow> port \<in> ss_Port ` {s \<in> set ss. served s}"
  by (induction ss) (auto simp: served_def split: if_splits)

lemma listenPorts_served: "set (listenPorts p) = ss_Port ` {s \<in> set (p_Services p). served s}"
  by (simp add: listenPorts_def listenLoop_set)

text \<open>
  What \<^verbatim>\<open>netstat\<close> and \<^verbatim>\<open>ss\<close> list as open to the outside are exactly the ports on which the instance
  serves a protocol, each once and in ascending order, and the administrator connections they show as
  established are on one of those ports (on 22 when it serves none).
\<close>

theorem listed_ports_are_served:
  "set (listenPorts p) = ss_Port ` {s \<in> set (p_Services p). served s} \<and>
   sorted (listenPorts p) \<and> distinct (listenPorts p) \<and>
   mgmtPort p \<in> (if listenPorts p = [] then {22} else set (listenPorts p))"
proof (intro conjI)
  show "mgmtPort p \<in> (if listenPorts p = [] then {22} else set (listenPorts p))"
  proof (cases "sshPort (p_Services p)")
    case None
    then show ?thesis by (auto simp: mgmtPort_def split: list.split)
  next
    case (Some port)
    then have "port \<in> set (listenPorts p)"
      using sshPort_served by (simp add: listenPorts_served)
    then show ?thesis using Some by (auto simp: mgmtPort_def)
  qed
qed (simp_all add: listenLoop_set listenPorts_def listenLoop_distinct)

lemma memory_adds_up:
  "m_used (memNumbers now p) + m_free (memNumbers now p) + m_buff (memNumbers now p) = m_total (memNumbers now p)"
  by (simp add: memNumbers_def Let_def)

lemma uint_mod_60: "uint ((h :: 32 word) mod 60) \<le> 59"
  by (simp add: uint_mod)

lemma disk_adds_up:
  assumes "0 \<le> blocks" "usage blocks h = (used, avail, pct)"
  shows "used + avail = blocks \<and> 14 \<le> pct \<and> pct \<le> 73 \<and> 0 \<le> used \<and> used \<le> blocks"
proof -
  have pct: "pct = 14 + uint (h mod 60)" "used = blocks * pct div 100" "avail = blocks - used"
    using assms(2) by (auto simp: usage_def Let_def)
  have "14 \<le> pct" "pct \<le> 73" using pct(1) uint_mod_60 [of h] by auto
  moreover have "blocks * pct \<le> blocks * 100"
    using assms(1) calculation by (intro mult_left_mono) auto
  then have "used \<le> blocks" unfolding pct(2) using zdiv_mono1 [of "blocks * pct" "blocks * 100" 100] by simp
  moreover have "0 \<le> used" unfolding pct(2) using assms(1) calculation by (simp add: pos_imp_zdiv_nonneg_iff)
  ultimately show ?thesis using pct(3) by simp
qed

lemma findPID_row:
  "findPID key rs = Some pid \<Longrightarrow> \<exists>r\<in>set rs. pr_pid r = pid \<and> Contains (pr_command r) key \<and> \<not> Contains (pr_command r) ''worker''"
  by (induction key rs rule: findPID.induct) (auto split: if_splits)

lemma shell_in_process_table: "\<exists>r\<in>set procTable. pr_pid r = shellPID \<and> pr_command r = ''-bash''"
  by (simp add: procTable_def daemonRows_def procRow_of_def)

end
