(* ===== verification/ShellCmd.thy ===== *)
theory ShellCmd
  imports Conversation ShellParse ShellSys
begin

text \<open>
  The shell's state (\<^verbatim>\<open>internal/shell/shell.go\<close>, type \<^verbatim>\<open>Shell\<close>) and the commands of \<^verbatim>\<open>commands.go\<close> that do not
  re-enter the shell, with \<^verbatim>\<open>[\<close>, \<^verbatim>\<open>nproc\<close> and the other small helpers of \<^verbatim>\<open>shell.go\<close> and \<^verbatim>\<open>interactive.go\<close>.
  A command's result is its output, its exit code and the shell it leaves; \<^const>\<open>None\<close> is a Go panic.
  The re-entry depth of the shell is not part of the record: it is the recursion parameter of the
  interpreter (theory \<open>ShellRun\<close>).
  The surroundings are a record: the clock, the time zone, the rendering drawn for a bait file, the
  shipped photographs, the SHA-256 digest in hexadecimal, the two texts that rest on floating-point
  division (\<^verbatim>\<open>/proc/uptime\<close> and a download's rate) whether the output is being captured, and
  whether a five-minute deadline is over after so many steps.
  Shown: the bytes an echo loader spells as escapes are the bytes it writes, and what one \<^verbatim>\<open>cat\<close> collects
  is bounded whatever it is asked to read.
\<close>

record world =
  w_now :: gotime
  w_zone :: zone
  w_reveal :: string
  w_loot :: "string \<Rightarrow> bytes option"
  w_sha :: "bytes \<Rightarrow> string"
  w_upIdle :: "int \<Rightarrow> string"
  w_rate :: "int \<Rightarrow> int \<Rightarrow> string"
  w_capturing :: bool
  w_expired :: "nat \<Rightarrow> bool"

record Pivot =
  pv_FS :: FS
  pv_P :: Persona

record shell =
  sh_s :: conv
  sh_fs :: session
  sh_pool :: int
  sh_p :: Persona
  sh_user :: string
  sh_style :: string
  sh_env :: "(string, string) gomap"
  sh_last :: int
  sh_quit :: bool
  sh_pivot :: "(string \<Rightarrow> Pivot option) option"
  sh_cron :: string
  sh_login :: gotime
  sh_capture :: "string option"
  sh_expandBudget :: int
  sh_subCount :: nat

definition maxExpandBytes :: int where "maxExpandBytes = 8388608"
definition maxCmdSubs :: nat where "maxCmdSubs = 256"
definition maxExecDepth :: nat where "maxExecDepth = 25"

definition defaultEnv :: "Persona \<Rightarrow> string \<Rightarrow> string \<Rightarrow> (string, string) gomap" where
  "defaultEnv p user home = [
     (''PATH'', if user \<noteq> ''root'' then ''/usr/local/bin:/usr/bin:/bin:/usr/local/games:/usr/games''
       else ''/usr/local/sbin:/usr/local/bin:/usr/sbin:/usr/bin:/sbin:/bin''),
     (''HOME'', home), (''USER'', user), (''LOGNAME'', user), (''SHELL'', ''/bin/bash''),
     (''TERM'', ''xterm-256color''), (''HOSTNAME'', p_Hostname p), (''PWD'', home), (''SHLVL'', ''1''),
     (''LANG'', ''en_US.UTF-8'')]"

definition newShell ::
  "world \<Rightarrow> conv \<Rightarrow> int \<Rightarrow> FS \<Rightarrow> Persona \<Rightarrow> string \<Rightarrow> string \<Rightarrow> (string \<Rightarrow> Pivot option) option \<Rightarrow> shell" where
  "newShell w s pool fs p user style pivot =
    (let home = (if user \<noteq> ''root'' then ''/home/'' @ user else ''/root'')
     in \<lparr>sh_s = s, sh_fs = NewSession fs home, sh_pool = pool, sh_p = p, sh_user = user, sh_style = style,
         sh_env = defaultEnv p user home, sh_last = 0, sh_quit = False, sh_pivot = pivot,
         sh_cron = [], sh_login = w_now w, sh_capture = None, sh_expandBudget = maxExpandBytes,
         sh_subCount = 0\<rparr>)"

definition prompt :: "shell \<Rightarrow> string" where
  "prompt sh =
    (let wd = cwd (sh_fs sh);
         home = getenv (sh_env sh) ''HOME'';
         disp = (if wd = home then ''~''
           else if home \<noteq> ''/'' \<and> HasPrefix wd (home @ ''/'') then ''~'' @ drop (length home) wd
           else wd)
     in sh_user sh @ ''@'' @ p_Hostname (sh_p sh) @ '':'' @ disp @ (if sh_user sh = ''root'' then ''#'' else ''$'') @ '' '')"

section \<open>Effects on the session\<close>

definition onSession :: "(conv \<Rightarrow> conv) \<Rightarrow> shell \<Rightarrow> shell" where
  "onSession f sh = sh\<lparr>sh_s := f (sh_s sh)\<rparr>"

definition tell :: "string \<Rightarrow> shell \<Rightarrow> shell" where
  "tell line = onSession (sayln line)"

definition tellAll :: "string list \<Rightarrow> shell \<Rightarrow> shell" where
  "tellAll ls sh = foldl (\<lambda>sh l. tell l sh) sh ls"

definition event :: "(SessionID \<Rightarrow> Entry) \<Rightarrow> shell \<Rightarrow> shell" where
  "event mk = onSession (record_event mk)"

definition ask :: "string \<Rightarrow> shell \<Rightarrow> (string \<times> bool) \<times> shell" where
  "ask label sh = (case Prompt label (sh_s sh) of (r, c) \<Rightarrow> (r, sh\<lparr>sh_s := c\<rparr>))"

definition writeFile :: "world \<Rightarrow> string \<Rightarrow> bytes \<Rightarrow> shell \<Rightarrow> vfs_error option \<times> shell" where
  "writeFile w path content sh =
    (case WriteFile (w_now w) (sh_fs sh) (sh_pool sh) path content of
       (e, s, g) \<Rightarrow> (e, sh\<lparr>sh_fs := s, sh_pool := g\<rparr>))"

definition removeFile :: "string \<Rightarrow> shell \<Rightarrow> shell" where
  "removeFile path sh =
    (case Remove (sh_fs sh) (sh_pool sh) path of (e, s, g) \<Rightarrow> sh\<lparr>sh_fs := s, sh_pool := g\<rparr>)"

definition makeDir :: "world \<Rightarrow> string \<Rightarrow> shell \<Rightarrow> shell" where
  "makeDir w path sh = sh\<lparr>sh_fs := snd (Mkdir (w_now w) (sh_fs sh) path)\<rparr>"

section \<open>Text helpers\<close>

definition isFlag :: "string \<Rightarrow> bool" where
  "isFlag a = HasPrefix a ''-''"

definition operands :: "string list \<Rightarrow> string list" where
  "operands argv = filter (\<lambda>a. \<not> isFlag a) (tl argv)"

definition lastOr :: "string \<Rightarrow> string list \<Rightarrow> string" where
  "lastOr d xs = (if xs = [] then d else last xs)"

text \<open>\<^verbatim>\<open>n, _ = strconv.Atoi(s)\<close>: the clamped value when it is out of range, zero when it is no number.\<close>

definition atoiVal :: "string \<Rightarrow> int" where
  "atoiVal s =
    (case Atoi s of
       Some n \<Rightarrow> n
     | None \<Rightarrow>
        let neg = HasPrefix s ''-''; d = (if neg \<or> HasPrefix s ''+'' then tl s else s)
        in if d \<noteq> [] \<and> list_all isDigit d then (if neg then minInt64 else maxInt64) else 0)"

definition nlToCrlf :: "string \<Rightarrow> string" where
  "nlToCrlf s = concat (map (\<lambda>c. if c = LF then [CR, LF] else [c]) s)"

definition replaceByte :: "char \<Rightarrow> string \<Rightarrow> string \<Rightarrow> string" where
  "replaceByte c new s = concat (map (\<lambda>x. if x = c then new else [x]) s)"

function ReplaceAll :: "string \<Rightarrow> string \<Rightarrow> string \<Rightarrow> string" where
  "ReplaceAll s old new =
    (if s = [] \<or> old = [] then s
     else if HasPrefix s old then new @ ReplaceAll (drop (length old) s) old new
     else hd s # ReplaceAll (tl s) old new)"
  by pat_completeness auto
termination
  by (relation "measure (\<lambda>(s, _). length s)") auto

declare ReplaceAll.simps [simp del]

definition hasImageExt :: "string \<Rightarrow> bool" where
  "hasImageExt p =
    (let low = ToLower p
     in HasSuffix low ''.png'' \<or> HasSuffix low ''.jpg'' \<or> HasSuffix low ''.jpeg'' \<or> HasSuffix low ''.gif'' \<or> HasSuffix low ''.bmp'')"

definition isLootImage :: "Persona \<Rightarrow> string \<Rightarrow> bool" where
  "isLootImage p ap = (p_LootPath p \<noteq> [] \<and> HasPrefix ap (p_LootPath p @ ''/'') \<and> hasImageExt ap)"

definition reveal :: "world \<Rightarrow> string" where
  "reveal w = TrimRight (w_reveal w) [LF] @ [LF]"

definition revealForLoot :: "world \<Rightarrow> string \<Rightarrow> string \<Rightarrow> string \<Rightarrow> shell \<Rightarrow> string \<times> shell" where
  "revealForLoot w kind ap cmd sh = (reveal w, event (\<lambda>i. LogHoneytoken i (kind @ '':'' @ path_Base ap) cmd) sh)"

section \<open>ls\<close>

definition lsLongNamed :: "zone \<Rightarrow> node \<Rightarrow> string \<Rightarrow> string" where
  "lsLongNamed zone n name =
    modeString (Mode n) @ '' '' @ fmtD 2 (LinkCount n) @ '' '' @ padRight 8 (n_uname (info n)) @ '' ''
    @ padRight 8 (n_gname (info n)) @ '' '' @ fmtD 8 (Size n) @ '' '' @ fmtStamp (clockOf zone (n_mtime (info n)))
    @ '' '' @ name @ [LF]"

definition lsLongLine :: "zone \<Rightarrow> node \<Rightarrow> string" where
  "lsLongLine zone n =
    (let mode = modeString (Mode n);
         mode = (if IsLink n then ''l'' @ tl mode else mode);
         name = Name n @ (if IsLink n \<and> LinkTarget n \<noteq> [] then '' -> '' @ LinkTarget n else [])
     in mode @ '' '' @ fmtD 2 (LinkCount n) @ '' '' @ padRight 8 (n_uname (info n)) @ '' ''
        @ padRight 8 (n_gname (info n)) @ '' '' @ fmtD 8 (Size n) @ '' '' @ fmtStamp (clockOf zone (n_mtime (info n)))
        @ '' '' @ name @ [LF])"

definition parentPath :: "string \<Rightarrow> string" where
  "parentPath ap =
    (let ap = TrimRight ap ''/''
     in if ap = [] then ''/''
        else case LastIndexByte ap (CHR ''/'') of Some (Suc i) \<Rightarrow> take (Suc i) ap | _ \<Rightarrow> ''/'')"

definition fakeInode :: "string \<Rightarrow> int" where
  "fakeInode path = uint (fnv32 path mod 8000000) + 100000"

definition lsDir :: "zone \<Rightarrow> session \<Rightarrow> bool \<Rightarrow> bool \<Rightarrow> string \<Rightarrow> node \<Rightarrow> string" where
  "lsDir zone fs long all ap n =
    (let listing = (case ReadDir fs ap of Inr es \<Rightarrow> es | Inl _ \<Rightarrow> []);
         visible = filter (\<lambda>e. all \<or> \<not> HasPrefix (Name e) ''.'') listing
     in if long then
          ''total '' @ Itoa (4 * (int (length visible) + (if all then 2 else 0))) @ [LF]
          @ (if all then lsLongNamed zone n ''.''
               @ lsLongNamed zone (case Stat fs (parentPath ap) of Inr pn \<Rightarrow> pn | Inl _ \<Rightarrow> n) ''..''
             else [])
          @ concat (map (lsLongLine zone) visible)
        else let names = (if all then [''.'', ''..''] else []) @ map Name visible
             in if names \<noteq> [] then Join_sep names ''  '' @ [LF] else [])"

definition lsPath :: "zone \<Rightarrow> session \<Rightarrow> bool \<Rightarrow> bool \<Rightarrow> nat \<Rightarrow> nat \<times> string \<Rightarrow> string" where
  "lsPath zone fs long all npaths = (\<lambda>(idx, pth).
     let ap = Resolve fs pth
     in case Stat fs ap of
          Inl _ \<Rightarrow> ''ls: cannot access '' @ [SQUOTE] @ pth @ [SQUOTE] @ '': No such file or directory'' @ [LF]
        | Inr n \<Rightarrow>
            (if npaths > 1 then (if idx > 0 then [LF] else []) @ pth @ '':'' @ [LF] else [])
            @ (if \<not> IsDir n then (if long then lsLongLine zone n else Name n @ [LF])
               else lsDir zone fs long all ap n))"

definition cmdLs :: "zone \<Rightarrow> session \<Rightarrow> string list \<Rightarrow> string" where
  "cmdLs zone fs argv =
    (let flags = filter (\<lambda>a. isFlag a \<and> length a > 1) (tl argv);
         long = list_ex (\<lambda>a. Contains a ''l'') flags;
         all = list_ex (\<lambda>a. Contains a ''a'') flags;
         paths = filter (\<lambda>a. \<not> (isFlag a \<and> length a > 1)) (tl argv);
         paths = (if paths = [] then [''.''] else paths)
     in concat (map (lsPath zone fs long all (length paths)) (enumerate 0 paths)))"

section \<open>Reading files\<close>

definition maxCmdOutput :: nat where "maxCmdOutput = 4194304"

definition procDynamic :: "world \<Rightarrow> Persona \<Rightarrow> string \<Rightarrow> string option" where
  "procDynamic w p ap =
    (if ap = ''/proc/uptime'' then Some (w_upIdle w (uptimeOf (w_now w) p))
     else if ap = ''/proc/meminfo'' then
       let m = memNumbers (w_now w) p; buffers = 121680; cached = m_buff m - buffers
       in Some (lns [
         ''MemTotal:       '' @ fmtD 8 (m_total m) @ '' kB'',
         ''MemFree:        '' @ fmtD 8 (m_free m) @ '' kB'',
         ''MemAvailable:   '' @ fmtD 8 (m_avail m) @ '' kB'',
         ''Buffers:        '' @ fmtD 8 buffers @ '' kB'',
         ''Cached:         '' @ fmtD 8 cached @ '' kB'',
         ''SwapCached:            0 kB'',
         ''SwapTotal:      '' @ fmtD 8 swapTotalKiB @ '' kB'',
         ''SwapFree:       '' @ fmtD 8 swapFreeKiB @ '' kB''])
     else None)"

definition readFile :: "world \<Rightarrow> shell \<Rightarrow> string \<Rightarrow> vfs_error + bytes" where
  "readFile w sh ap = (case procDynamic w (sh_p sh) ap of Some dyn \<Rightarrow> Ok dyn | None \<Rightarrow> ReadFile (sh_fs sh) ap)"

fun catLoop :: "world \<Rightarrow> string list \<Rightarrow> string \<Rightarrow> int \<Rightarrow> shell \<Rightarrow> (string \<times> int) \<times> shell" where
  "catLoop w [] b c sh = ((b, c), sh)"
| "catLoop w (f # fs) b c sh =
    (if length b \<ge> maxCmdOutput then ((b, c), sh)
     else let ap = Resolve (sh_fs sh) f
          in case Stat (sh_fs sh) ap of
               Inl e \<Rightarrow>
                 catLoop w fs (b @ ''cat: '' @ f @ (if e = ErrNotDir then '': Not a directory'' else '': No such file or directory'') @ [LF]) 1 sh
             | Inr n \<Rightarrow>
                 if IsDir n then catLoop w fs (b @ ''cat: '' @ f @ '': Is a directory'' @ [LF]) 1 sh
                 else if isLootImage (sh_p sh) ap then
                   let (art, sh') = revealForLoot w ''loot-view'' ap (''cat '' @ f) sh in catLoop w fs (b @ art) c sh'
                 else case procDynamic w (sh_p sh) ap of
                     Some dyn \<Rightarrow> catLoop w fs (b @ take (maxCmdOutput - length b) dyn) c sh
                   | None \<Rightarrow> catLoop w fs (b @ take (maxCmdOutput - length b) (Content n)) c sh)"

definition cmdCat :: "world \<Rightarrow> string list \<Rightarrow> shell \<Rightarrow> (string \<times> int) \<times> shell" where
  "cmdCat w argv sh = catLoop w (operands argv) [] 0 sh"

definition cmdCd :: "string list \<Rightarrow> shell \<Rightarrow> (string \<times> int) \<times> shell" where
  "cmdCd argv sh =
    (let target = (if length argv > 1 then argv ! 1 else getenv (sh_env sh) ''HOME'');
         ap = Resolve (sh_fs sh) target
     in case Chdir (sh_fs sh) ap of
          (Some e, _) \<Rightarrow>
            ((''-bash: cd: '' @ target @ (if e = ErrNotDir then '': Not a directory'' else '': No such file or directory'') @ [LF], 1), sh)
        | (None, fs) \<Rightarrow>
            (([], 0), sh\<lparr>sh_fs := fs,
               sh_env := mput ''PWD'' (cwd fs) (mput ''OLDPWD'' (getenv (sh_env sh) ''PWD'') (sh_env sh))\<rparr>))"

section \<open>echo and its escapes\<close>

definition isHexDigit :: "char \<Rightarrow> bool" where
  "isHexDigit c = (isDigit c \<or> (97 \<le> code c \<and> code c \<le> 102) \<or> (65 \<le> code c \<and> code c \<le> 70))"

definition hexDigitVal :: "char \<Rightarrow> int" where
  "hexDigitVal c =
    (if isDigit c then code c - 48
     else if 97 \<le> code c \<and> code c \<le> 102 then code c - 97 + 10
     else code c - 65 + 10)"

definition isOctDigit :: "char \<Rightarrow> bool" where
  "isOctDigit c = (48 \<le> code c \<and> code c \<le> 55)"

fun takeRun :: "(char \<Rightarrow> bool) \<Rightarrow> nat \<Rightarrow> string \<Rightarrow> string \<times> string" where
  "takeRun P (Suc k) (c # s) = (if P c then apfst ((#) c) (takeRun P k s) else ([], c # s))"
| "takeRun P k s = ([], s)"

lemma takeRun_length: "length (snd (takeRun P k s)) \<le> length s"
  by (induction P k s rule: takeRun.induct) auto

lemma takeRun_rest: "(d, r) = takeRun P k s \<Longrightarrow> length r \<le> length s"
  using takeRun_length [of P k s] by (metis snd_conv)

definition echoLetter :: "char \<Rightarrow> char option" where
  "echoLetter c = map_of [(CHR ''n'', LF), (CHR ''t'', TAB), (CHR ''r'', CR), (CHR ''a'', CHR 0x07),
     (CHR ''b'', CHR 0x08), (CHR ''f'', CHR 0x0C), (CHR ''v'', CHR 0x0B), (CHR ''e'', ESC),
     (BACKSLASH, BACKSLASH)] c"

function decodeEchoEscapes :: "string \<Rightarrow> string" where
  "decodeEchoEscapes [] = []"
| "decodeEchoEscapes [c] = [c]"
| "decodeEchoEscapes (c # e # s) =
    (if c \<noteq> BACKSLASH then c # decodeEchoEscapes (e # s)
     else case echoLetter e of
       Some b \<Rightarrow> b # decodeEchoEscapes s
     | None \<Rightarrow>
         if e = CHR ''x'' then
           (let (d, r) = takeRun isHexDigit 2 s
            in (if d = [] then BACKSLASH # ''x''
                else [char_of (foldl (\<lambda>h c. h * 16 + hexDigitVal c) 0 d mod 256)]) @ decodeEchoEscapes r)
         else if e = CHR ''0'' then
           (let (d, r) = takeRun isOctDigit 3 s
            in char_of (foldl (\<lambda>h c. h * 8 + (code c - 48)) 0 d mod 256) # decodeEchoEscapes r)
         else BACKSLASH # e # decodeEchoEscapes s)"
  by pat_completeness auto
termination
  by (relation "measure length") (auto dest!: takeRun_rest)

fun echoFlags :: "string list \<Rightarrow> bool \<Rightarrow> bool \<Rightarrow> string list \<times> bool \<times> bool" where
  "echoFlags [] nl escape = ([], nl, escape)"
| "echoFlags (a # rest) nl escape =
    (if a \<in> {''-n'', ''-e'', ''-ne'', ''-en'', ''-E''} then
       echoFlags rest (if Contains a ''n'' then False else nl)
         (if a = ''-E'' then False else if Contains a ''e'' then True else escape)
     else (a # rest, nl, escape))"

definition cmdEcho :: "string list \<Rightarrow> string" where
  "cmdEcho argv =
    (let (rest, nl, escape) = echoFlags (tl argv) True False;
         out = Join_sep rest '' '';
         out = (if escape then decodeEchoEscapes out else out)
     in if nl then out @ [LF] else out)"

section \<open>Filters\<close>

definition cmdUname :: "Persona \<Rightarrow> string list \<Rightarrow> string" where
  "cmdUname p argv =
    (if length argv = 1 then ''Linux'' @ [LF]
     else let letters = concat (map tl (filter isFlag (tl argv)));
              wants = (\<lambda>cs. list_ex (\<lambda>c. c \<in> set cs) letters)
          in if wants ''a'' then Uname p @ [LF]
             else let parts = (if wants ''s'' then [''Linux''] else []) @ (if wants ''n'' then [p_Hostname p] else [])
                    @ (if wants ''r'' then [p_KernelRel p] else []) @ (if wants ''v'' then [p_KernelVer p] else [])
                    @ (if wants ''m'' then [p_Arch p] else []) @ (if wants ''pi'' then [p_Arch p] else [])
                  in if parts = [] then ''Linux'' @ [LF] else Join_sep parts '' '' @ [LF])"

definition allDigits :: "string \<Rightarrow> bool" where
  "allDigits s = (s \<noteq> [] \<and> list_all isDigit s)"

record headTail =
  ht_n :: int
  ht_byteMode :: bool
  ht_bc :: int
  ht_file :: string

fun headTailArgs :: "string list \<Rightarrow> headTail \<Rightarrow> headTail" where
  "headTailArgs [] h = h"
| "headTailArgs (a # rest) h =
    (if a = ''-c'' \<and> rest \<noteq> [] then headTailArgs (tl rest) (h\<lparr>ht_byteMode := True, ht_bc := atoiVal (hd rest)\<rparr>)
     else if HasPrefix a ''-c'' then headTailArgs rest (h\<lparr>ht_byteMode := True, ht_bc := atoiVal (drop 2 a)\<rparr>)
     else if a = ''-n'' \<and> rest \<noteq> [] then headTailArgs (tl rest) (h\<lparr>ht_n := atoiVal (hd rest)\<rparr>)
     else if HasPrefix a ''-n'' then headTailArgs rest (h\<lparr>ht_n := atoiVal (drop 2 a)\<rparr>)
     else if length a > 1 \<and> hd a = CHR ''-'' \<and> allDigits (tl a) then headTailArgs rest (h\<lparr>ht_n := atoiVal (tl a)\<rparr>)
     else if isFlag a then headTailArgs rest h
     else headTailArgs rest (h\<lparr>ht_file := a\<rparr>))"

text \<open>
  The count after \<^verbatim>\<open>if n < 0 { n = -n }; if n > len { n = len }\<close>.  The smallest integer is its own negation,
  so it stays negative, and slicing with it panics.
\<close>

definition clampCount :: "int \<Rightarrow> nat \<Rightarrow> nat option" where
  "clampCount n len =
    (let n = (if n < 0 then wrap64 (- n) else n); n = (if n > int len then int len else n)
     in if n < 0 then None else Some (nat n))"

definition headTailOf :: "bool \<Rightarrow> headTail \<Rightarrow> string \<Rightarrow> string option" where
  "headTailOf tail h data =
    (if ht_byteMode h then
       map_option (\<lambda>n. if tail then drop (length data - n) data else take n data) (clampCount (ht_bc h) (length data))
     else let ls = splitByte LF (TrimRight data [LF])
          in map_option (\<lambda>n. joinByte LF (if tail then drop (length ls - n) ls else take n ls) @ [LF])
               (clampCount (ht_n h) (length ls)))"

definition cmdHeadTail :: "world \<Rightarrow> shell \<Rightarrow> string list \<Rightarrow> string \<Rightarrow> bool \<Rightarrow> (string \<times> int) option" where
  "cmdHeadTail w sh argv stdin tail =
    (let h = headTailArgs (tl argv) \<lparr>ht_n = 10, ht_byteMode = False, ht_bc = 0, ht_file = []\<rparr>
     in if ht_file h = [] then map_option (\<lambda>out. (out, 0)) (headTailOf tail h stdin)
        else case readFile w sh (Resolve (sh_fs sh) (ht_file h)) of
          Inl _ \<Rightarrow> Some ((if tail then ''tail'' else ''head'') @ '': cannot open '' @ [SQUOTE] @ ht_file h @ [SQUOTE]
                     @ '' for reading: No such file or directory'' @ [LF], 1)
        | Inr data \<Rightarrow> map_option (\<lambda>out. (out, 0)) (headTailOf tail h data))"

definition cmdWc :: "world \<Rightarrow> shell \<Rightarrow> string list \<Rightarrow> string \<Rightarrow> string \<times> int" where
  "cmdWc w sh argv stdin =
    (let mode = lastOr [] (filter isFlag (tl argv));
         file = lastOr [] (operands argv);
         count = (\<lambda>data.
           let lines = int (count_list data LF); words = int (length (Fields data)); n = int (length data)
           in if Contains mode ''l'' then Itoa lines @ '' '' @ file @ [LF]
              else if Contains mode ''w'' then Itoa words @ '' '' @ file @ [LF]
              else if Contains mode ''c'' then Itoa n @ '' '' @ file @ [LF]
              else fmtD 7 lines @ '' '' @ fmtD 7 words @ '' '' @ fmtD 7 n @ '' '' @ file @ [LF])
     in if file = [] then (count stdin, 0)
        else case readFile w sh (Resolve (sh_fs sh) file) of
          Inl _ \<Rightarrow> (''wc: '' @ file @ '': No such file or directory'' @ [LF], 1)
        | Inr data \<Rightarrow> (count data, 0))"

text \<open>The first operand is the pattern and the last of the others the file; an empty pattern operand is skipped.\<close>

fun grepArgs :: "string list \<Rightarrow> string \<Rightarrow> string \<Rightarrow> string \<times> string" where
  "grepArgs [] pattern file = (pattern, file)"
| "grepArgs (a # rest) pattern file =
    (if isFlag a then grepArgs rest pattern file
     else if pattern = [] then grepArgs rest a file
     else grepArgs rest pattern a)"

definition cmdGrep :: "world \<Rightarrow> shell \<Rightarrow> string list \<Rightarrow> string \<Rightarrow> string \<times> int" where
  "cmdGrep w sh argv stdin =
    (let (pattern, file) = grepArgs (tl argv) [] [];
         invert = list_ex (\<lambda>a. isFlag a \<and> Contains a ''v'') (tl argv);
         search = (\<lambda>data.
           let out = filter (\<lambda>l. Contains l pattern \<noteq> invert \<and> l \<noteq> []) (splitByte LF data)
           in if out = [] then ([], 1) else (joinByte LF out @ [LF], 0))
     in if file = [] then search stdin
        else case readFile w sh (Resolve (sh_fs sh) file) of
          Inl _ \<Rightarrow> (''grep: '' @ file @ '': No such file or directory'' @ [LF], 2)
        | Inr data \<Rightarrow> search data)"

definition whichDirs :: "string list" where
  "whichDirs = [''/usr/bin'', ''/bin'', ''/usr/sbin'', ''/sbin'', ''/usr/local/bin'']"

definition whichOne :: "session \<Rightarrow> string \<Rightarrow> string option" where
  "whichOne fs a = map_option (\<lambda>dir. dir @ ''/'' @ a) (find (\<lambda>dir. Exists fs (dir @ ''/'' @ a)) whichDirs)"

definition cmdWhich :: "session \<Rightarrow> string list \<Rightarrow> string \<times> int" where
  "cmdWhich fs argv =
    (let found = map (whichOne fs) (operands argv);
         out = concat (map (\<lambda>r. case r of Some p \<Rightarrow> [p] | None \<Rightarrow> []) found);
         c = (if None \<in> set found then 1 else 0)
     in if out = [] then ([], c) else (joinByte LF out @ [LF], c))"

definition cmdEnv :: "(string, string) gomap \<Rightarrow> string" where
  "cmdEnv env = concat (map (\<lambda>k. case mget env k of Some v \<Rightarrow> k @ ''='' @ v @ [LF] | None \<Rightarrow> [])
     [''PATH'', ''HOME'', ''USER'', ''LOGNAME'', ''SHELL'', ''TERM'', ''HOSTNAME'', ''PWD'', ''SHLVL'', ''LANG''])"

section \<open>stat and file\<close>

definition statText :: "zone \<Rightarrow> string \<Rightarrow> string \<Rightarrow> node \<Rightarrow> string" where
  "statText zone a ap n =
    joinByte LF [''  File: '' @ a,
      ''  Size: '' @ fmtDLeft 10 (Size n) @ '' Blocks: '' @ fmtDLeft 8 (truncDiv (Size n + 511) 512) @ '' IO Block: 4096   ''
        @ (if IsDir n then ''directory'' else if IsLink n then ''symbolic link'' else ''regular file''),
      ''Device: 801h/2049d'' @ [TAB] @ ''Inode: '' @ fmtDLeft 11 (fakeInode ap) @ '' Links: '' @ Itoa (LinkCount n),
      ''Access: ('' @ fmt0O 4 (modePerm (Mode n)) @ ''/'' @ modeString (Mode n) @ '')  Uid: ('' @ fmtD 5 (n_uid (info n)) @ ''/''
        @ padLeft 8 (n_uname (info n)) @ '')   Gid: ('' @ fmtD 5 (n_gid (info n)) @ ''/'' @ padLeft 8 (n_gname (info n)) @ '')'',
      ''Modify: '' @ fmtNano (clockOf zone (n_mtime (info n)))]"

definition cmdStat :: "zone \<Rightarrow> session \<Rightarrow> string list \<Rightarrow> string \<times> int" where
  "cmdStat zone fs argv =
    (let look = (\<lambda>a. Stat fs (Resolve fs a));
         out = map (\<lambda>a. case look a of
            Inl _ \<Rightarrow> ''stat: cannot statx '' @ [SQUOTE] @ a @ [SQUOTE] @ '': No such file or directory''
          | Inr n \<Rightarrow> statText zone a (Resolve fs a) n) (operands argv)
     in (joinByte LF out @ [LF], if list_ex (\<lambda>a. \<not> isOk (look a)) (operands argv) then 1 else 0))"

definition isPrintable :: "bytes \<Rightarrow> bool" where
  "isPrintable b = list_all (\<lambda>c. c = LF \<or> c = TAB \<or> c = CR \<or> (0x20 \<le> code c \<and> code c \<le> 0x7E)) b"

definition describeFile :: "node \<Rightarrow> string \<Rightarrow> string" where
  "describeFile n name =
    (let low = ToLower name; c = Content n
     in if IsDir n then ''directory''
        else if IsLink n then ''symbolic link to '' @ LinkTarget n
        else if HasSuffix low ''.jpg'' \<or> HasSuffix low ''.jpeg'' then
          ''JPEG image data, JFIF standard 1.01, resolution (DPI), density 72x72, segment length 16, baseline, precision 8, 1920x1080, components 3''
        else if HasSuffix low ''.png'' then ''PNG image data, 1920 x 1080, 8-bit/color RGBA, non-interlaced''
        else if HasSuffix low ''.gif'' then ''GIF image data, version 89a, 800 x 600''
        else if HasSuffix low ''.gz'' \<or> HasSuffix low ''.tgz'' then ''gzip compressed data, original size modulo 2^32''
        else if HasSuffix low ''.zip'' then ''Zip archive data, at least v2.0 to extract''
        else if HasSuffix low ''.tar'' then ''POSIX tar archive''
        else if HasSuffix low ''.sh'' then ''POSIX shell script, ASCII text executable''
        else if HasSuffix low ''.pdf'' then ''PDF document, version 1.5''
        else if HasPrefix c (CHR 0x7F # ''ELF'') then ''ELF 64-bit LSB pie executable, x86-64, version 1 (SYSV), dynamically linked''
        else if isPrintable c then ''ASCII text''
        else ''data'')"

definition cmdFile :: "session \<Rightarrow> string list \<Rightarrow> string" where
  "cmdFile fs argv =
    joinByte LF (map (\<lambda>a. case Stat fs (Resolve fs a) of
        Inl _ \<Rightarrow> a @ '': cannot open '' @ [BACKTICK] @ a @ [SQUOTE] @ '' (No such file or directory)''
      | Inr n \<Rightarrow> a @ '': '' @ describeFile n a) (operands argv)) @ [LF]"

section \<open>Changing files\<close>

definition touchFile :: "world \<Rightarrow> string \<Rightarrow> shell \<Rightarrow> shell" where
  "touchFile w t sh =
    (let ap = Resolve (sh_fs sh) t in if Exists (sh_fs sh) ap then sh else snd (writeFile w ap [] sh))"

definition copyFile :: "world \<Rightarrow> bool \<Rightarrow> string \<Rightarrow> string \<Rightarrow> shell \<Rightarrow> shell" where
  "copyFile w move from dest sh =
    (let a = Resolve (sh_fs sh) from; d = Resolve (sh_fs sh) dest
     in case ReadFile (sh_fs sh) a of
          Inl _ \<Rightarrow> sh
        | Inr data \<Rightarrow> let sh' = snd (writeFile w d data sh) in if move then removeFile a sh' else sh')"

definition cmdMutate :: "world \<Rightarrow> string list \<Rightarrow> shell \<Rightarrow> (string \<times> int) \<times> shell" where
  "cmdMutate w argv sh =
    (let targets = operands argv; verb = hd argv
     in (([], 0),
         if verb = ''touch'' then foldl (\<lambda>sh t. touchFile w t sh) sh targets
         else if verb = ''mkdir'' then foldl (\<lambda>sh t. makeDir w (Resolve (sh_fs sh) t) sh) sh targets
         else if verb = ''rm'' \<or> verb = ''rmdir'' then foldl (\<lambda>sh t. removeFile (Resolve (sh_fs sh) t) sh) sh targets
         else if verb = ''cp'' \<or> verb = ''mv'' then
           (if length targets \<ge> 2 then copyFile w (verb = ''mv'') (hd targets) (last targets) sh else sh)
         else sh))"

section \<open>Other commands\<close>

definition cmdHistory :: "string list \<Rightarrow> shell \<Rightarrow> (string \<times> int) \<times> shell" where
  "cmdHistory argv sh =
    (if length argv > 1 \<and> argv ! 1 = ''-c'' then (([], 0), event (\<lambda>i. LogCommandNote i ''history -c'' ''anti-forensics'') sh)
     else let p = sh_p sh;
              ls = [''ls -la /var/www/html'', ''cat /var/www/html/wp-config.php'',
                ''mysql -u '' @ p_WPDBUser p @ '' -p -h '' @ p_DBIP p @ '' '' @ p_WPDBName p,
                ''systemctl status nginx'', ''df -h'', ''cd /home/'' @ p_Username p @ ''/scripts'',
                ''./backup.sh'', ''ssh '' @ p_Username p @ ''@'' @ p_BackupIP p, ''free -m'', ''history'']
          in ((concat (map (\<lambda>(i, l). fmtD 5 (int i + 1) @ ''  '' @ l @ [LF]) (enumerate 0 ls)), 0), sh))"

definition serviceActions :: "string list" where
  "serviceActions = [''status'', ''start'', ''stop'', ''restart'', ''enable'', ''disable'']"

definition cmdService :: "gotime \<Rightarrow> Persona \<Rightarrow> string list \<Rightarrow> string" where
  "cmdService now p argv =
    (let action = lastOr [] (filter (\<lambda>a. a \<in> set serviceActions) (tl argv));
         names = filter (\<lambda>a. a \<notin> set serviceActions \<and> \<not> isFlag a \<and> a \<noteq> []) (tl argv);
         name = (case names of [] \<Rightarrow> [] | x # _ \<Rightarrow> x)
     in if action = ''status'' \<or> action = [] then systemctlStatus now p name else [])"

definition dpkgList :: string where
  "dpkgList = lns [
     ''Desired=Unknown/Install/Remove/Purge/Hold'',
     ''| Status=Not/Inst/Conf-files/Unpacked/halF-conf/Half-inst/trig-aWait/Trig-pend'',
     ''|/ Err?=(none)/Reinst-required (Status,Err: uppercase=bad)'',
     ''||/ Name           Version          Architecture Description'',
     ''+++-==============-================-============-================================='',
     ''ii  bash           5.1-6ubuntu1     amd64        GNU Bourne Again SHell'',
     ''ii  coreutils      8.32-4.1ubuntu1  amd64        GNU core utilities'',
     ''ii  curl           7.81.0-1ubuntu1  amd64        command line tool for transferring data'',
     ''ii  nginx          1.18.0-6ubuntu14 amd64        small, powerful, scalable web server'',
     ''ii  openssh-server 1:8.9p1-3ubuntu0 amd64        secure shell (SSH) server'']"

definition cmdDpkg :: "Persona \<Rightarrow> string list \<Rightarrow> string" where
  "cmdDpkg p argv =
    (if list_ex (\<lambda>a. a = ''-l'' \<or> a = ''--list'') (tl argv)
     then (if Embedded p then ReplaceAll dpkgList ''amd64'' ''arm64'' else dpkgList) else [])"

definition cmdIP :: "Persona \<Rightarrow> string list \<Rightarrow> string option" where
  "cmdIP p argv =
    (if length argv > 1 \<and> argv ! 1 \<in> {''r'', ''route''} then ipRouteStr p
     else if length argv > 1 \<and> argv ! 1 \<in> {''link'', ''l''} then Some (ipLinkStr p)
     else Some (ipAddrStr p))"

definition cmdNproc :: "session \<Rightarrow> string" where
  "cmdNproc fs =
    (let n = (case ReadFile fs ''/proc/cpuinfo'' of
          Inr data \<Rightarrow> length (filter (\<lambda>l. HasPrefix l ''processor'') (splitByte LF data))
        | Inl _ \<Rightarrow> 0)
     in Itoa (if n = 0 then 1 else int n) @ [LF])"

fun evalTest :: "session \<Rightarrow> string list \<Rightarrow> bool" where
  "evalTest fs [a] = (a \<noteq> [])"
| "evalTest fs [f, x] =
    (if f = ''-f'' then (case Stat fs x of Inr n \<Rightarrow> \<not> IsDir n | Inl _ \<Rightarrow> False)
     else if f = ''-d'' then (case Stat fs x of Inr n \<Rightarrow> IsDir n | Inl _ \<Rightarrow> False)
     else if f \<in> {''-e'', ''-r'', ''-w'', ''-x''} then Exists fs x
     else if f = ''-s'' then (case Stat fs x of Inr n \<Rightarrow> Size n > 0 | Inl _ \<Rightarrow> False)
     else if f = ''-z'' then x = []
     else if f = ''-n'' then x \<noteq> []
     else False)"
| "evalTest fs [l, f, r] =
    (if f = ''='' \<or> f = ''=='' then l = r
     else if f = ''!='' then l \<noteq> r
     else case (Atoi l, Atoi r) of
       (Some a, Some b) \<Rightarrow>
         (if f = ''-eq'' then a = b else if f = ''-ne'' then a \<noteq> b else if f = ''-lt'' then a < b
          else if f = ''-le'' then a \<le> b else if f = ''-gt'' then a > b else if f = ''-ge'' then a \<ge> b else False)
     | _ \<Rightarrow> False)"
| "evalTest fs _ = False"

definition cmdTest :: "session \<Rightarrow> string list \<Rightarrow> string \<times> int" where
  "cmdTest fs argv =
    (let a = tl argv; bracket = (hd argv = ''['')
     in if bracket \<and> (a = [] \<or> last a \<noteq> '']'') then (''-bash: [: missing '' @ [BACKTICK] @ '']'' @ [SQUOTE, LF], 2)
        else let a = (if bracket then butlast a else a);
                 neg = (a \<noteq> [] \<and> hd a = ''!'');
                 res = evalTest fs (if neg then tl a else a)
             in ([], if res \<noteq> neg then 0 else 1))"

definition systemBinDirs :: "string list" where
  "systemBinDirs = [''/usr/bin/'', ''/bin/'', ''/sbin/'', ''/usr/sbin/'', ''/usr/local/bin/'', ''/usr/local/sbin/'']"

definition inSystemBin :: "string \<Rightarrow> bool" where
  "inSystemBin ap = list_ex (\<lambda>d. HasPrefix ap d) systemBinDirs"

definition captureDropper :: "world \<Rightarrow> string \<Rightarrow> string \<Rightarrow> shell \<Rightarrow> shell" where
  "captureDropper w path command sh =
    (let ap = Resolve (sh_fs sh) path
     in if inSystemBin ap then sh
        else case ReadFile (sh_fs sh) ap of
          Inr content \<Rightarrow> if content \<noteq> [] then event (\<lambda>i. LogDropper (w_sha w) i ap command content) sh else sh
        | Inl _ \<Rightarrow> sh)"

definition stageString :: "statement \<Rightarrow> string" where
  "stageString st = Join_sep (map (\<lambda>s. Join_sep (args s) '' '') (stages st)) '' | ''"

section \<open>Spelled bytes\<close>

definition spell :: "bytes \<Rightarrow> string" where
  "spell b = concat (map (\<lambda>c. BACKSLASH # CHR ''x'' # hex2 c) b)"

lemma hexDigit_digit: "0 \<le> n \<Longrightarrow> n < 16 \<Longrightarrow> isHexDigit (hexDigit n) \<and> hexDigitVal (hexDigit n) = n"
  by (simp add: hexDigit_def isHexDigit_def hexDigitVal_def isDigit_def)

lemma hex2_value: "takeRun isHexDigit 2 (hex2 c @ s) = (hex2 c, s)"
  "foldl (\<lambda>h c. h * 16 + hexDigitVal c) 0 (hex2 c) = code c" "hex2 c \<noteq> []"
proof -
  have a: "0 \<le> code c div 16" "code c div 16 < 16" "0 \<le> code c mod 16" "code c mod 16 < 16"
    using code_range [of c] by presburger+
  note d = hexDigit_digit [OF a(1,2)] hexDigit_digit [OF a(3,4)]
  show "takeRun isHexDigit 2 (hex2 c @ s) = (hex2 c, s)"
    using d by (simp add: hex2_def numeral_2_eq_2)
  show "foldl (\<lambda>h c. h * 16 + hexDigitVal c) 0 (hex2 c) = code c" "hex2 c \<noteq> []"
    using d by (simp_all add: hex2_def)
qed

lemma decode_spell: "decodeEchoEscapes (spell b) = b"
proof (induction b)
  case Nil
  then show ?case by (simp add: spell_def)
next
  case (Cons c b)
  have "spell (c # b) = BACKSLASH # CHR ''x'' # (hex2 c @ spell b)" by (simp add: spell_def)
  moreover have "echoLetter (CHR ''x'') = None" by (simp add: echoLetter_def BACKSLASH_def)
  ultimately show ?case using Cons code_range [of c] by (simp add: hex2_value)
qed

lemma echo_spelled: "cmdEcho [''echo'', ''-ne'', spell b] = b"
proof -
  have "\<not> HasPrefix (spell b) ''-''" by (cases b) (auto simp: spell_def BACKSLASH_def)
  then have "spell b \<notin> {''-n'', ''-e'', ''-ne'', ''-en'', ''-E''}" by auto
  then have "echoFlags [''-ne'', spell b] True False = ([spell b], False, True)"
    by (simp add: Contains_def)
  then show ?thesis by (simp add: cmdEcho_def decode_spell)
qed

section \<open>What one command collects\<close>

lemma cat_message_length:
  "length (''cat: '' @ f @ (if b then '': Not a directory'' else '': No such file or directory'') @ [LF]) \<le> length f + 33"
  "length (''cat: '' @ f @ '': Is a directory'' @ [LF]) \<le> length f + 33"
  by simp_all

lemma catLoop_bound:
  assumes "\<forall>f\<in>set fs. length f + 33 \<le> k" "length (reveal w) \<le> k" "length b \<le> maxCmdOutput + k"
  shows "length (fst (fst (catLoop w fs b c sh))) \<le> maxCmdOutput + k"
  using assms
proof (induction fs arbitrary: b c sh)
  case (Cons f fs)
  show ?case
  proof (cases "length b \<ge> maxCmdOutput")
    case True
    then show ?thesis using Cons.prems by simp
  next
    case False
    have step: "length (fst (fst (catLoop w fs (b @ x) c' sh'))) \<le> maxCmdOutput + k" if "length x \<le> k" for x c' sh'
      using that False Cons.prems by (intro Cons.IH) auto
    have room: "length (fst (fst (catLoop w fs (b @ take (maxCmdOutput - length b) x) c' sh'))) \<le> maxCmdOutput + k" for x c' sh'
      using False Cons.prems by (intro Cons.IH) auto
    have f: "length f + 33 \<le> k" using Cons.prems(1) by simp
    define ap where "ap = Resolve (sh_fs sh) f"
    show ?thesis
    proof (cases "Stat (sh_fs sh) ap")
      case (Inl e)
      then show ?thesis
        using False step [OF order_trans [OF cat_message_length(1) f]] by (simp only: catLoop.simps ap_def [symmetric] Let_def sum.case if_False)
    next
      case (Inr n)
      then show ?thesis
        using False step [OF order_trans [OF cat_message_length(2) f]] step [OF Cons.prems(2)] room
        by (simp only: catLoop.simps ap_def [symmetric] Let_def sum.case if_False revealForLoot_def prod.case split: if_split option.split) simp
    qed
  qed
qed simp

end
