(* ===== verification/ShellInteract.thy ===== *)
theory ShellInteract
  imports ShellCmd Base64
begin

text \<open>
  The commands of \<^verbatim>\<open>internal/shell/interactive.go\<close> that take over the terminal and do not re-enter the
  interpreter: downloads, editors, transfers, package managers, bait viewers.  Pauses are not modelled;
  \<open>expired n\<close> tells whether \<^verbatim>\<open>find\<close>'s five minutes are over after \<open>n\<close> listed paths.  Shown: a session's
  input bounds the editor's loop, and \<^verbatim>\<open>find\<close> lists a bounded number of paths.
\<close>

section \<open>Bait images\<close>

definition lootHash :: "string \<Rightarrow> 32 word" where
  "lootHash name = foldl (\<lambda>h c. h * 131 + word_of_int (code c)) 0 name"

definition lootImageBytes :: "world \<Rightarrow> string \<Rightarrow> bytes option" where
  "lootImageBytes w ap =
    (let name = ToLower (path_Base ap);
         pick = (if list_ex (\<lambda>kw. Contains name kw) [''wallet'', ''seed'', ''key'', ''crypto'', ''coin'', ''btc''] then ''jt4''
           else [''jt3'', ''jt5'', ''jt6''] ! unat (lootHash name mod 3))
     in w_loot w (''loot/'' @ pick @ ''.jpg''))"

section \<open>Which commands take over\<close>

definition interactiveNames :: "string list" where
  "interactiveNames = [''top'', ''htop'', ''find'', ''wget'', ''curl'', ''vi'', ''vim'', ''vim.basic'', ''nano'',
     ''crontab'', ''passwd'', ''su'', ''tftp'', ''ftpget'', ''ftpput'', ''ssh'', ''scp'', ''sftp'', ''gcc'', ''cc'', ''g++'', ''make'',
     ''apt'', ''apt-get'', ''aptitude'', ''python'', ''python2'', ''python3'', ''perl'', ''ruby'', ''sh'', ''bash'', ''openssl'',
     ''nc'', ''ncat'', ''telnet'', ''mysql'', ''tcpdump'', ''strace'', ''ltrace'', ''tar'', ''rsync'', ''pip'', ''pip3'',
     ''jp2a'', ''catimg'', ''chafa'', ''img2txt'', ''asciiview'', ''aview'', ''cacaview'',
     ''vault'', ''passwords'', ''pass'', ''wallet'', ''balance'', ''balances'', ''secrets'', ''keepass'', ''lpass'', ''gopass'', ''bw'']"

definition isInteractive :: "string \<Rightarrow> bool" where
  "isInteractive name = (name \<in> set interactiveNames)"

definition firstOr :: "string \<Rightarrow> string list \<Rightarrow> string" where
  "firstOr d xs = (case xs of [] \<Rightarrow> d | x # _ \<Rightarrow> x)"

section \<open>Downloads\<close>

definition wgetURL :: "string list \<Rightarrow> string" where
  "wgetURL argv = (let u = ExtractURL argv in if u \<noteq> [] then u else firstOr [] (operands argv))"

definition fakeResolveIP :: "string \<Rightarrow> string" where
  "fakeResolveIP host =
    (let h = uint (fnv32 host)
     in Itoa ([45, 104, 138, 159, 172, 185, 193, 194] ! nat (h mod 8)) @ ''.'' @ Itoa (h div 256 mod 256) @ ''.''
        @ Itoa (h div 65536 mod 256) @ ''.'' @ Itoa (h div 16777216 mod 254 + 1))"

definition fakeDownloadSize :: "string \<Rightarrow> int" where
  "fakeDownloadSize url = 24000 + uint (fnv32 url mod 940000)"

definition downloadDur :: "int \<Rightarrow> int" where
  "downloadDur sz =
    (let d = truncDiv sz 400000 * 1000000000;
         d = (if d < 300000000 then 300000000 else d)
     in if d > 5000000000 then 5000000000 else d)"

definition humanBytes :: "int \<Rightarrow> string" where
  "humanBytes n =
    (if n \<ge> 1048576 then fmtF1 n 1048576 @ ''M'' else if n \<ge> 1024 then Itoa (n div 1024) @ ''K'' else Itoa n)"

definition elfHeader :: bytes where
  "elfHeader = CHR 0x7F # ''ELF'' @ [CHR 0x02, CHR 0x01, CHR 0x01] @ replicate 9 NUL @ replicate 112 NUL"

definition droppedPayload :: "string \<Rightarrow> bytes" where
  "droppedPayload name =
    (let low = ToLower name
     in if HasSuffix low ''.sh'' \<or> HasSuffix low ''.py'' \<or> HasSuffix low ''.pl'' \<or> HasSuffix low ''.rb''
        then lns [''#!/bin/sh'', ''# fetched''] else elfHeader)"

text \<open>The progress bar: every step of it on a live terminal, only the finished bar into a capture.\<close>

definition SlowProgress :: "world \<Rightarrow> string \<Rightarrow> conv \<Rightarrow> conv" where
  "SlowProgress w label =
    (if w_capturing w then say (CR # label @ '' '' @ progressBar 100 @ '' 100%'' @ [LF])
     else say (concat (map (\<lambda>i. CR # label @ '' '' @ progressBar (2 * i) @ '' '' @ fmtD 3 (2 * i) @ ''%'') [0..50]) @ [LF]))"

fun wgetFile :: "string list \<Rightarrow> string \<Rightarrow> string" where
  "wgetFile [] file = file"
| "wgetFile (a # rest) file =
    wgetFile rest (if a = ''-O'' \<and> rest \<noteq> [] then hd rest
      else if HasPrefix a ''-O'' \<and> length a > 2 then drop 2 a else file)"

definition iWget :: "world \<Rightarrow> string list \<Rightarrow> shell \<Rightarrow> int \<times> shell" where
  "iWget w argv sh =
    (let url = wgetURL argv
     in if url = [] then (1, tell ''wget: missing URL'' sh)
        else let host = ExtractHost url;
                 b = path_Base url;
                 file = wgetFile (tl argv) (if b = [] \<or> b = ''/'' \<or> b = ''.'' then ''index.html'' else b);
                 ip = fakeResolveIP host;
                 sz = fakeDownloadSize url;
                 dur = downloadDur sz;
                 stamp = fmtDateTime (clockOf (w_zone w) (w_now w));
                 sh = event (\<lambda>i. LogDownload i (Join_sep argv '' '') url host file) sh;
                 sh = tellAll [''--'' @ stamp @ ''--  '' @ url,
                   ''Resolving '' @ host @ '' ('' @ host @ '')... '' @ ip,
                   ''Connecting to '' @ host @ '' ('' @ host @ '')|'' @ ip @ ''|:80... connected.'',
                   ''HTTP request sent, awaiting response... 200 OK'',
                   ''Length: '' @ Itoa sz @ '' ('' @ humanBytes sz @ '') [application/octet-stream]''] sh
             in if file = ''-'' then (0, sh)
                else let sh = tellAll [''Saving to: '' @ [SQUOTE] @ file @ [SQUOTE], []] sh;
                         sh = onSession (SlowProgress w (file @ ''  '' @ humanBytes sz)) sh;
                         sh = tellAll [[], stamp @ '' ('' @ w_rate w sz dur @ '') - '' @ [SQUOTE] @ file @ [SQUOTE]
                           @ '' saved ['' @ Itoa sz @ ''/'' @ Itoa sz @ '']''] sh
                     in (0, snd (writeFile w (Resolve (sh_fs sh) file) (droppedPayload file) sh)))"

fun curlFile :: "string \<Rightarrow> string list \<Rightarrow> string option \<Rightarrow> string option" where
  "curlFile url [] file = file"
| "curlFile url (a # rest) file =
    curlFile url rest (if a = ''-O'' then Some (path_Base url)
      else if a = ''-o'' \<and> rest \<noteq> [] then Some (hd rest)
      else if HasPrefix a ''-o'' \<and> length a > 2 then Some (drop 2 a) else file)"

definition iCurl :: "world \<Rightarrow> string list \<Rightarrow> shell \<Rightarrow> int \<times> shell" where
  "iCurl w argv sh =
    (let url = wgetURL argv;
         host = ExtractHost url;
         sh = (if url \<noteq> [] then event (\<lambda>i. LogDownload i (Join_sep argv '' '') url host (path_Base url)) sh else sh)
     in case curlFile url (tl argv) None of
          Some name \<Rightarrow>
            let name = (if name = [] \<or> name = ''.'' \<or> name = ''/'' then ''index.html'' else name);
                sz = fakeDownloadSize url;
                k = Itoa (sz div 1024);
                sh = onSession (SlowProgress w ''  % Total    % Received % Xferd  Average Speed'') sh;
                sh = tell (''100 '' @ Itoa sz @ ''  100 '' @ Itoa sz @ ''    0     0  '' @ k
                  @ ''k      0 --:--:-- --:--:-- --:--:-- '' @ k @ ''k'') sh
            in (0, snd (writeFile w (Resolve (sh_fs sh) name) (droppedPayload name) sh))
        | None \<Rightarrow> (56, tell ''curl: (56) Recv failure: Connection reset by peer'' sh))"

definition iTftp :: "string list \<Rightarrow> shell \<Rightarrow> int \<times> shell" where
  "iTftp argv sh = (0, event (\<lambda>i. LogDownload i (Join_sep argv '' '') [] (lastOr [] (operands argv)) []) sh)"

definition iFtp :: "string list \<Rightarrow> shell \<Rightarrow> int \<times> shell" where
  "iFtp argv sh =
    (let host = (if length argv > 1 \<and> \<not> isFlag (argv ! 1) then argv ! 1 else [])
     in (0, event (\<lambda>i. LogDownload i (Join_sep argv '' '') [] host []) sh))"

section \<open>Transfers and passwords\<close>

definition remoteUser :: "string \<Rightarrow> string \<Rightarrow> string" where
  "remoteUser remote def = (case IndexByte remote (CHR ''@'') of Some i \<Rightarrow> take i remote | None \<Rightarrow> def)"

definition remoteHost :: "string \<Rightarrow> string" where
  "remoteHost remote =
    (let host = (case IndexByte remote (CHR ''@'') of Some i \<Rightarrow> drop (i + 1) remote | None \<Rightarrow> remote)
     in hd (splitByte (CHR '':'') host))"

definition remoteArg :: "string list \<Rightarrow> string" where
  "remoteArg argv = lastOr [] (filter (\<lambda>a. Contains a '':'') (operands argv))"

definition localArg :: "string list \<Rightarrow> string" where
  "localArg argv = lastOr [] (filter (\<lambda>a. \<not> Contains a '':'') (operands argv))"

definition askSecret :: "string \<Rightarrow> string \<Rightarrow> string \<Rightarrow> string \<Rightarrow> shell \<Rightarrow> shell" where
  "askSecret tool remote local user sh =
    (let host = remoteHost remote;
         ((pass, _), sh) = ask (remoteUser remote user @ ''@'' @ host @ [SQUOTE] @ ''s password: '') sh;
         sh = event (\<lambda>i. LogCredential i (tool @ '':'' @ host) pass) sh
     in event (\<lambda>i. LogCommandNote i (tool @ '' '' @ local @ '' -> '' @ remote) ''exfil'') sh)"

definition iScp :: "string list \<Rightarrow> shell \<Rightarrow> int \<times> shell" where
  "iScp argv sh =
    (let remote = remoteArg argv; local = localArg argv
     in if remote = [] then (1, tell ''usage: scp [options] source target'' sh)
        else let sh = askSecret ''scp'' remote local (sh_user sh) sh;
                 name = path_Base local;
                 name = (if name = [] \<or> name = ''.'' then ''archive.tar'' else name)
             in (0, tell (name @ ''                                100%   85KB   4.2MB/s   00:00'') sh))"

definition iRsync :: "string list \<Rightarrow> shell \<Rightarrow> int \<times> shell" where
  "iRsync argv sh =
    (let remote = remoteArg argv; local = localArg argv;
         sh = (if Contains remote '':'' then askSecret ''rsync'' remote local (sh_user sh) sh else sh);
         d = TrimPrefix (path_Clean local) ''/'';
         d = (if d = [] \<or> d = ''.'' then ''data'' else d)
     in (0, tellAll [''sending incremental file list'', d @ ''/'', [],
          ''sent 4,231,109 bytes  received 4,096 bytes  2,823,470.00 bytes/sec'',
          ''total size is 4,225,560  speedup is 1.00''] sh))"

definition iSu :: "string list \<Rightarrow> shell \<Rightarrow> int \<times> shell" where
  "iSu argv sh =
    (let ((pass, _), sh) = ask ''Password: '' sh
     in (0, event (\<lambda>i. LogCredential i (firstOr ''root'' (operands argv)) pass) sh))"

definition iPasswd :: "string list \<Rightarrow> shell \<Rightarrow> int \<times> shell" where
  "iPasswd argv sh =
    (let user = (if length argv > 1 \<and> \<not> isFlag (argv ! 1) then argv ! 1 else sh_user sh);
         sh = tell (''Changing password for '' @ user @ ''.'') sh;
         ((cur, _), sh) = ask ''Current password: '' sh;
         sh = event (\<lambda>i. LogCredential i user cur) sh;
         ((n1, _), sh) = ask ''New password: '' sh;
         ((n2, _), sh) = ask ''Retype new password: '' sh;
         sh = event (\<lambda>i. LogCommandNote i (''passwd new='' @ n1 @ '' retype='' @ n2) ''password-change'') sh
     in (0, tell ''passwd: password updated successfully'' sh))"

definition hasFlag :: "string list \<Rightarrow> string \<Rightarrow> bool" where
  "hasFlag argv flag = (flag \<in> set (tl argv))"

definition mysqlInline :: "string list \<Rightarrow> shell \<Rightarrow> shell" where
  "mysqlInline argv sh =
    foldl (\<lambda>sh a. if HasPrefix a ''-p'' \<and> length a > 2 then event (\<lambda>i. LogCredential i ''mysql'' (drop 2 a)) sh else sh) sh (tl argv)"

definition iMysql :: "string list \<Rightarrow> shell \<Rightarrow> int \<times> shell" where
  "iMysql argv sh =
    (let sh = mysqlInline argv sh;
         sh = (if hasFlag argv ''-p''
           then let ((pass, _), sh) = ask ''Enter password: '' sh in event (\<lambda>i. LogCredential i ''mysql'' pass) sh else sh)
     in (1, tell (''ERROR 2002 (HY000): Can'' @ [SQUOTE] @ ''t connect to MySQL server on '' @ [SQUOTE] @ p_DBIP (sh_p sh) @ [SQUOTE] @ '' (110)'') sh))"

section \<open>Interpreters, compilers and packages\<close>

definition interpVersion :: "string list \<Rightarrow> string option" where
  "interpVersion argv =
    (let name = hd argv
     in if \<not> list_ex (\<lambda>a. a = ''--version'' \<or> a = ''-V'' \<or> a = ''-v'') (tl argv) then None
        else if HasPrefix name ''python'' then Some ''Python 3.10.12''
        else if name = ''perl'' then
          Some (LF # ''This is perl 5, version 34, subversion 0 (v5.34.0) built for x86_64-linux-gnu-thread-multi'' @ [LF, LF]
            @ ''Copyright 1987-2022, Larry Wall'' @ [LF])
        else if name = ''ruby'' then Some ''ruby 3.0.2p107 (2021-07-07 revision 0db68f0233) [x86_64-linux-gnu]''
        else if name = ''node'' \<or> name = ''nodejs'' then Some ''v12.22.9''
        else if name = ''php'' then Some ''PHP 8.1.2 (cli) (built: Feb 25 2022 16:14:04) (NTS)''
        else None)"

fun scriptText :: "string list \<Rightarrow> string \<Rightarrow> string" where
  "scriptText [] c = c"
| "scriptText (a # rest) c = scriptText rest (if (a = ''-c'' \<or> a = ''-e'') \<and> rest \<noteq> [] then hd rest else c)"

definition iInterp :: "string list \<Rightarrow> shell \<Rightarrow> int \<times> shell" where
  "iInterp argv sh =
    (case interpVersion argv of
       Some v \<Rightarrow> (0, tell v sh)
     | None \<Rightarrow>
        let full = Join_sep argv '' '';
            c = scriptText (tl argv) [];
            exec = (list_ex (\<lambda>t. Contains c t) [''urllib'', ''requests'', ''socket'', ''exec'', ''system'']
              \<or> Contains full ''http://'' \<or> Contains full ''https://'');
            sh = (if exec then event (\<lambda>i. LogExec i full []) sh
              else event (\<lambda>i. LogDownload i full (ExtractURL argv) [] []) sh)
        in (139, tell (hd argv @ '': Segmentation fault (core dumped)'') sh))"

text \<open>The version answers end their inner lines with a bare line feed, only the last with CR LF.\<close>

definition compilerVersion :: "string \<Rightarrow> string" where
  "compilerVersion name =
    (if name = ''make'' then joinByte LF [''GNU Make 4.3'', ''Built for x86_64-pc-linux-gnu'',
        ''Copyright (C) 1988-2020 Free Software Foundation, Inc.'']
     else if name = ''cc'' \<or> name = ''gcc'' then joinByte LF [''gcc (Ubuntu 11.4.0-1ubuntu1~22.04) 11.4.0'',
        ''Copyright (C) 2021 Free Software Foundation, Inc.'']
     else if name = ''g++'' then joinByte LF [''g++ (Ubuntu 11.4.0-1ubuntu1~22.04) 11.4.0'',
        ''Copyright (C) 2021 Free Software Foundation, Inc.'']
     else name @ '' (Ubuntu 11.4.0-1ubuntu1~22.04) 11.4.0'')"

fun compileProbe :: "string \<Rightarrow> string list \<Rightarrow> string option" where
  "compileProbe name [] = None"
| "compileProbe name (a # rest) =
    (if a = ''--version'' \<or> a = ''-dumpversion'' \<or> (a = ''-v'' \<and> name \<noteq> ''make'') then Some (compilerVersion name)
     else if a = ''-v'' then Some (joinByte LF [''GNU Make 4.3'', ''Built for x86_64-pc-linux-gnu''])
     else compileProbe name rest)"

definition iCompile :: "string list \<Rightarrow> shell \<Rightarrow> int \<times> shell" where
  "iCompile argv sh =
    (case compileProbe (hd argv) (tl argv) of
       Some v \<Rightarrow> (0, tell v sh)
     | None \<Rightarrow> (1, tellAll [''In file included from main.c:3:'', ''main.c: In function '' @ [SQUOTE] @ ''main'' @ [SQUOTE] @ '':'',
         ''main.c:23:5: warning: implicit declaration of function '' @ [SQUOTE] @ ''strlcpy'' @ [SQUOTE] @ '' [-Wimplicit-function-declaration]'',
         ''net.c:44:12: warning: unused variable '' @ [SQUOTE] @ ''sock'' @ [SQUOTE] @ '' [-Wunused-variable]'',
         ''/usr/bin/ld: cannot find -lpthread: No such file or directory'',
         ''collect2: error: ld returned 1 exit status'']
         (event (\<lambda>i. LogCommandNote i (Join_sep argv '' '') ''compile-attempt'') sh)))"

definition packages :: "string list \<Rightarrow> string list" where
  "packages argv = tl (dropWhile (\<lambda>a. a = []) (operands argv))"

definition subcommand :: "string list \<Rightarrow> string" where
  "subcommand argv = firstOr [] (filter (\<lambda>a. a \<noteq> []) (operands argv))"

definition unpackOne :: "world \<Rightarrow> string \<Rightarrow> shell \<Rightarrow> shell" where
  "unpackOne w pkg sh =
    (let sh = tellAll [''Selecting previously unselected package '' @ pkg @ ''.'', ''Unpacking '' @ pkg @ '' (1.0-1) ...'',
           ''Setting up '' @ pkg @ '' (1.0-1) ...''] sh
     in snd (writeFile w (Resolve (sh_fs sh) (''/usr/bin/'' @ pkg)) elfHeader sh))"

definition aptInstall :: "world \<Rightarrow> string list \<Rightarrow> shell \<Rightarrow> shell" where
  "aptInstall w pkgs sh =
    (let sh = tellAll [''Reading package lists... Done'', ''Building dependency tree... Done'', ''Reading state information... Done''] sh
     in if pkgs = [] then tell ''0 upgraded, 0 newly installed, 0 to remove and 0 not upgraded.'' sh
        else let sh = tellAll ([''The following NEW packages will be installed:'', ''  '' @ Join_sep pkgs '' '',
                   ''0 upgraded, '' @ Itoa (int (length pkgs)) @ '' newly installed, 0 to remove and 0 not upgraded.'']
                   @ map (\<lambda>pkg. ''Get:1 http://archive.ubuntu.com/ubuntu jammy/universe amd64 '' @ pkg @ '' amd64 1.0-1 [1,024 kB]'') pkgs
                   @ [''Fetched 1,024 kB in 1s (980 kB/s)'']) sh;
                 sh = foldl (\<lambda>sh pkg. unpackOne w pkg sh) sh pkgs
             in tell ''Processing triggers for man-db (2.10.2-1) ...'' sh)"

definition removeOne :: "string \<Rightarrow> shell \<Rightarrow> shell" where
  "removeOne pkg sh =
    (let sh = tell (''Removing '' @ pkg @ '' (1.0-1) ...'') sh in removeFile (Resolve (sh_fs sh) (''/usr/bin/'' @ pkg)) sh)"

definition iApt :: "world \<Rightarrow> string list \<Rightarrow> shell \<Rightarrow> int \<times> shell" where
  "iApt w argv sh =
    (let sub = subcommand argv; pkgs = packages argv; full = Join_sep argv '' ''
     in if sub = ''install'' \<or> sub = ''reinstall'' then
          (0, aptInstall w pkgs (event (\<lambda>i. LogCommandNote i full ''apt-install'') sh))
        else if sub = ''update'' then
          (0, tellAll [''Hit:1 http://archive.ubuntu.com/ubuntu jammy InRelease'',
            ''Get:2 http://archive.ubuntu.com/ubuntu jammy-updates InRelease [119 kB]'', ''Fetched 119 kB in 1s (140 kB/s)'',
            ''Reading package lists... Done'', ''Building dependency tree... Done'', ''All packages are up to date.''] sh)
        else if sub = ''upgrade'' \<or> sub = ''full-upgrade'' \<or> sub = ''dist-upgrade'' then
          (0, tellAll [''Reading package lists... Done'', ''Building dependency tree... Done'', ''Calculating upgrade... Done'',
            ''0 upgraded, 0 newly installed, 0 to remove and 0 not upgraded.''] sh)
        else if sub = ''remove'' \<or> sub = ''purge'' \<or> sub = ''autoremove'' then
          (0, foldl (\<lambda>sh pkg. removeOne pkg sh)
            (tellAll [''Reading package lists... Done'', ''Building dependency tree... Done'']
              (event (\<lambda>i. LogCommandNote i full ''apt-remove'') sh)) pkgs)
        else (100, tell (''E: Invalid operation '' @ sub) sh))"

definition iPip :: "string list \<Rightarrow> shell \<Rightarrow> int \<times> shell" where
  "iPip argv sh =
    (let pkgs = packages argv
     in if subcommand argv \<noteq> ''install'' \<or> pkgs = [] then (0, sh)
        else (0, tellAll (concat (map (\<lambda>pkg. [''Collecting '' @ pkg, ''  Downloading '' @ pkg @ ''-1.0.0-py3-none-any.whl (48 kB)'']) pkgs)
               @ [''Installing collected packages: '' @ Join_sep pkgs '', '',
                  ''Successfully installed '' @ Join_sep pkgs ''-1.0.0 '' @ ''-1.0.0''])
             (event (\<lambda>i. LogCommandNote i (Join_sep argv '' '') ''pip-install'') sh)))"

section \<open>Editors and crontab\<close>

text \<open>The editor reads lines until a quit command or the end of the input; \<open>typed\<close> holds them in reverse.\<close>

function editLoop :: "string \<Rightarrow> string list \<Rightarrow> conv \<Rightarrow> (string \<times> bool) \<times> conv" where
  "editLoop target typed c =
    (case getLine c of
       ((line, False), c') \<Rightarrow> ((joinByte LF (rev typed), False), c')
     | ((line, True), c') \<Rightarrow>
         let t = TrimSpace line
         in if t \<in> {'':wq'', '':x'', ''ZZ'', '':wq!''} then ((joinByte LF (rev typed), True), sayln (DQUOTE # target @ DQUOTE # '' written'') c')
            else if t \<in> {'':q!'', '':q''} then ((joinByte LF (rev typed), False), c')
            else editLoop target (line # typed) c')"
  by pat_completeness auto
termination
  by (relation "measure (\<lambda>(_, _, c). length (c_in c))") (auto dest: getLine_shorter [OF sym])

declare editLoop.simps [simp del]

definition runEditor :: "string \<Rightarrow> shell \<Rightarrow> (string \<times> bool) \<times> shell" where
  "runEditor target sh =
    (let c = say [CR, LF, CR, LF] (sh_s sh);
         c = foldl (\<lambda>c l. sayln l c) c (replicate 6 ''~'' @ [''~                              VIM - Vi IMproved'', ''~'',
               DQUOTE # target @ DQUOTE # '' [New File]'']);
         (r, c) = editLoop target [] c
     in (r, sh\<lparr>sh_s := c\<rparr>))"

definition escapeNl :: "string \<Rightarrow> string" where
  "escapeNl = replaceByte LF [BACKSLASH, CHR ''n'']"

definition iEditor :: "world \<Rightarrow> string list \<Rightarrow> shell \<Rightarrow> int \<times> shell" where
  "iEditor w argv sh =
    (let target = (if length argv > 1 \<and> \<not> isFlag (last argv) then last argv else ''file'');
         ((body, saved), sh) = runEditor target sh;
         sh = event (\<lambda>i. LogCommandNote i (''editor('' @ target @ ''): '' @ escapeNl body) ''editor-input'') sh;
         ap = Resolve (sh_fs sh) target
     in (0, if saved \<and> target \<noteq> ''file'' \<and> \<not> inSystemBin ap
            then snd (writeFile w ap (if body \<noteq> [] then body @ [LF] else body) sh) else sh))"

fun crontabArgs :: "string list \<Rightarrow> shell \<Rightarrow> int \<times> shell" where
  "crontabArgs [] sh = (0, tell (''no crontab for '' @ sh_user sh) sh)"
| "crontabArgs (a # rest) sh =
    (if a = ''-l'' then
       (0, if TrimSpace (sh_cron sh) = [] then tell (''no crontab for '' @ sh_user sh) sh
           else tellAll (splitByte LF (TrimRight (sh_cron sh) [LF])) sh)
     else if a = ''-r'' then (0, sh\<lparr>sh_cron := []\<rparr>)
     else if a = ''-e'' then
       (let ((body, saved), sh) = runEditor (''/tmp/crontab.'' @ sh_user sh) sh
        in (0, if saved then event (\<lambda>i. LogCommandNote i (''crontab installed:'' @ [BACKSLASH] @ ''n'' @ escapeNl body) ''persistence'')
                 (sh\<lparr>sh_cron := body\<rparr>) else sh))
     else if a = ''-u'' \<and> rest \<noteq> [] then crontabArgs (tl rest) sh
     else if \<not> isFlag a then
       (0, case ReadFile (sh_fs sh) (Resolve (sh_fs sh) a) of
             Inr data \<Rightarrow> event (\<lambda>i. LogCommandNote i (''crontab installed from '' @ a @ '':'' @ [BACKSLASH] @ ''n'' @ escapeNl data) ''persistence'')
                 (sh\<lparr>sh_cron := data\<rparr>)
           | Inl _ \<Rightarrow> sh)
     else crontabArgs rest sh)"

definition iCrontab :: "string list \<Rightarrow> shell \<Rightarrow> int \<times> shell" where
  "iCrontab argv sh = crontabArgs (tl argv) sh"

section \<open>find\<close>

definition findDone :: "(nat \<Rightarrow> bool) \<Rightarrow> nat \<Rightarrow> bool" where
  "findDone expired cnt = (cnt > 5000 \<or> expired cnt)"

text \<open>One entry of a directory: the recursive call for a subdirectory, a line for anything else.\<close>

definition findEntry ::
  "(string \<Rightarrow> nat \<times> shell \<Rightarrow> nat \<times> shell) \<Rightarrow> (nat \<Rightarrow> bool) \<Rightarrow> string \<Rightarrow> nat \<times> shell \<Rightarrow> node \<Rightarrow> nat \<times> shell" where
  "findEntry walk expired dir = (\<lambda>(cnt, sh) e.
     if findDone expired cnt then (cnt, sh)
     else let kid = ReplaceAll (dir @ ''/'' @ Name e) ''//'' ''/''
          in if IsDir e then walk kid (cnt, sh) else (Suc cnt, tell kid sh))"

text \<open>
  The recursion of \<^verbatim>\<open>walkFind\<close> with the depth as fuel; every level counts a path before it descends, so
  5001 levels are never exceeded (\<open>walkFind_fuel\<close>).
\<close>

primrec walkFind :: "nat \<Rightarrow> (nat \<Rightarrow> bool) \<Rightarrow> string \<Rightarrow> nat \<times> shell \<Rightarrow> nat \<times> shell" where
  "walkFind 0 expired dir st = st"
| "walkFind (Suc n) expired dir st =
    (case st of (cnt, sh) \<Rightarrow>
       if findDone expired cnt then (cnt, sh)
       else let sh = tell dir sh
            in case ReadDir (sh_fs sh) dir of
                 Inl _ \<Rightarrow> (Suc cnt, sh)
               | Inr es \<Rightarrow> foldl (findEntry (walkFind n expired) expired dir) (Suc cnt, sh) es)"

definition iFind :: "(nat \<Rightarrow> bool) \<Rightarrow> string list \<Rightarrow> shell \<Rightarrow> int \<times> shell" where
  "iFind expired argv sh =
    (0, snd (walkFind 5001 expired (Resolve (sh_fs sh) (firstOr ''.'' (operands argv))) (0, sh)))"

section \<open>Screens and viewers\<close>

definition iTop :: "world \<Rightarrow> shell \<Rightarrow> int \<times> shell" where
  "iTop w sh =
    (let p = sh_p sh; now = w_now w; up = uptimeOf now p; hours = truncDiv up hourNs; days = truncDiv hours 24;
         m = memNumbers now p; mib = (\<lambda>n. padLeft 8 (fmtF1 n 1024)); tasks = int (length procTable)
     in (0, tellAll [''top - '' @ hhmmss (clockOf (w_zone w) now) @ '' up '' @ Itoa days @ '' days, '' @ fmtD 2 (goMod hours 24) @ '':''
            @ fmt0D 2 (goMod (truncDiv up minuteNs) 60) @ '',  1 user,  '' @ loadAverage days,
          ''Tasks: '' @ fmtD 3 tasks @ '' total,   1 running, '' @ fmtD 3 (tasks - 1) @ '' sleeping,   0 stopped,   0 zombie'',
          ''%Cpu(s):  2.3 us,  0.7 sy,  0.0 ni, 96.8 id,  0.2 wa,  0.0 hi,  0.0 si'',
          ''MiB Mem : '' @ mib (m_total m) @ '' total, '' @ mib (m_free m) @ '' free, '' @ mib (m_used m) @ '' used, '' @ mib (m_buff m) @ '' buff/cache'',
          ''MiB Swap:   2048.0 total,   1964.0 free,     84.0 used. '' @ mib (m_avail m) @ '' avail Mem'',
          [],
          ''    PID USER      PR  NI    VIRT    RES    SHR S  %CPU  %MEM     TIME+ COMMAND'',
          ''    611 mysql     20   0 1820400 184220  18120 S   3.0   4.6   8:42.11 mysqld'',
          ''    880 www-data  20   0  294500  43120  29800 S   0.7   1.1   0:33.40 php-fpm'',
          ''    720 www-data  20   0  209360  25240  16080 S   0.3   0.6   0:11.02 nginx'',
          []] sh))"

definition iTar :: "string list \<Rightarrow> shell \<Rightarrow> int \<times> shell" where
  "iTar argv sh =
    (if list_ex (\<lambda>a. (isFlag a \<or> length a \<le> 4) \<and> Contains a ''x'') (tl argv)
     then (1, tell ''tar: Error opening archive: Failed to open the archive'' sh) else (0, sh))"

definition revealLines :: "world \<Rightarrow> string list" where
  "revealLines w = splitByte LF (TrimRight (w_reveal w) [LF])"

definition iAsciiView :: "world \<Rightarrow> string list \<Rightarrow> shell \<Rightarrow> int \<times> shell" where
  "iAsciiView w argv sh =
    (let img = lastOr [] (operands argv)
     in if img = [] then (1, tell (hd argv @ '': no input file specified'') sh)
        else if \<not> isOk (Stat (sh_fs sh) (Resolve (sh_fs sh) img)) then (1, tell (hd argv @ '': '' @ img @ '': No such file or directory'') sh)
        else if \<not> hasImageExt img then (1, tell (hd argv @ '': '' @ img @ '': unrecognized image format'') sh)
        else (0, tellAll (revealLines w) (event (\<lambda>i. LogHoneytoken i (''ascii-view:'' @ path_Base img) (Join_sep argv '' '')) sh)))"

definition iVault :: "world \<Rightarrow> string list \<Rightarrow> shell \<Rightarrow> int \<times> shell" where
  "iVault w argv sh =
    (0, tellAll ((if hd argv \<in> {''wallet'', ''balance'', ''balances'', ''bw''}
            then [''Connecting to wallet daemon at 127.0.0.1:8332 ...'', ''Decrypting keystore ...'']
            else [''Unlocking vault ...'', ''Master password accepted. Rendering entry ...'']) @ [[]] @ revealLines w)
          (event (\<lambda>i. LogHoneytoken i (''vault:'' @ hd argv) (Join_sep argv '' '')) sh))"

definition looksLikeCommand :: "string \<Rightarrow> bool" where
  "looksLikeCommand s = list_ex (\<lambda>p. HasPrefix (TrimSpace s) p)
     [''wget'', ''curl'', ''sh '', ''bash'', ''/bin/'', ''chmod'', ''nc '', ''python'', ''rm '']"

end
