(* ===== verification/ShellFrame.thy ===== *)
theory ShellFrame
  imports ShellInteract VfsPool
begin

text \<open>
  What every shell command is allowed to do to its surroundings, as one relation between the shell before
  and after (\<open>evolves\<close>): input is only consumed, output and log only grow, every new event carries the
  session's own id and source, files change only through the operations of the session's filesystem, the
  identity stays, the exit code stays a byte, and the line's expansion budget is debited for everything
  that reaches the capture buffer.  The relation is reflexive and transitive, so it composes along a command; the operations of
  \<open>ShellCmd\<close> and \<open>ShellInteract\<close> are shown to satisfy it here.
\<close>

section \<open>The relation\<close>

definition ownEvent :: "SessionID \<Rightarrow> Entry \<Rightarrow> bool" where
  "ownEvent i e = (e_Session e = se_ID i \<and> e_SrcIP e = se_SrcIP i)"

definition convStep :: "conv \<Rightarrow> conv \<Rightarrow> bool" where
  "convStep c c' \<longleftrightarrow>
     length (c_in c') \<le> length (c_in c) \<and> (\<exists>x. c_out c' = c_out c @ x) \<and>
     (\<exists>es. c_log c' = c_log c @ es \<and> list_all (ownEvent (c_id c)) es) \<and>
     se_ID (c_id c') = se_ID (c_id c) \<and> se_SrcIP (c_id c') = se_SrcIP (c_id c)"

definition fsRun :: "vfs_op list \<Rightarrow> session \<times> int \<Rightarrow> session \<times> int" where
  "fsRun ops sg = fold (\<lambda>f (s, g). execOp f s g) ops sg"

definition fsStep :: "session \<times> int \<Rightarrow> session \<times> int \<Rightarrow> bool" where
  "fsStep sg sg' \<longleftrightarrow> (\<exists>ops. fsRun ops sg = sg')"

definition spends :: "int \<Rightarrow> string option \<Rightarrow> int \<Rightarrow> string option \<Rightarrow> bool" where
  "spends b cap b' cap' \<longleftrightarrow> b' \<le> b \<and> (0 \<le> b \<longrightarrow> 0 \<le> b') \<and>
     (case cap of None \<Rightarrow> cap' = None | Some t \<Rightarrow> \<exists>x. cap' = Some (t @ x) \<and> int (length x) \<le> b - b')"

definition sameHost :: "shell \<Rightarrow> shell \<Rightarrow> bool" where
  "sameHost sh sh' \<longleftrightarrow> sh_p sh' = sh_p sh \<and> sh_user sh' = sh_user sh \<and> sh_pivot sh' = sh_pivot sh \<and>
     sh_login sh' = sh_login sh \<and> sh_style sh' = sh_style sh"

definition codeOk :: "int \<Rightarrow> bool" where
  "codeOk n = (0 \<le> n \<and> n \<le> 255)"

definition evolves :: "shell \<Rightarrow> shell \<Rightarrow> bool" where
  "evolves sh sh' \<longleftrightarrow> convStep (sh_s sh) (sh_s sh') \<and> (codeOk (sh_last sh) \<longrightarrow> codeOk (sh_last sh')) \<and>
     fsStep (sh_fs sh, sh_pool sh) (sh_fs sh', sh_pool sh') \<and> sameHost sh sh' \<and>
     spends (sh_expandBudget sh) (sh_capture sh) (sh_expandBudget sh') (sh_capture sh')"

named_theorems evolve_intros

section \<open>It is a preorder\<close>

lemma convStep_refl [simp, intro]: "convStep c c"
  by (auto simp: convStep_def)

lemma ownEvent_id: "se_ID i = se_ID j \<Longrightarrow> se_SrcIP i = se_SrcIP j \<Longrightarrow> ownEvent i = ownEvent j"
  by (auto simp: ownEvent_def)

lemma convStep_trans [trans]:
  assumes "convStep a b" "convStep b c"
  shows "convStep a c"
proof -
  obtain x es where b: "c_out b = c_out a @ x" "c_log b = c_log a @ es" "list_all (ownEvent (c_id a)) es"
    using assms(1) by (auto simp: convStep_def)
  obtain y fs where c: "c_out c = c_out b @ y" "c_log c = c_log b @ fs" "list_all (ownEvent (c_id b)) fs"
    using assms(2) by (auto simp: convStep_def)
  have "ownEvent (c_id b) = ownEvent (c_id a)" using assms(1) by (intro ownEvent_id) (auto simp: convStep_def)
  with b c assms show ?thesis by (auto simp: convStep_def)
qed

lemma fsRun_append: "fsRun (xs @ ys) sg = fsRun ys (fsRun xs sg)"
  by (simp add: fsRun_def)

lemma fsStep_refl [simp, intro]: "fsStep sg sg"
  unfolding fsStep_def by (rule exI [of _ "[]"]) (simp add: fsRun_def)

lemma fsStep_trans: "fsStep a b \<Longrightarrow> fsStep b c \<Longrightarrow> fsStep a c"
  unfolding fsStep_def by (metis fsRun_append)

lemma fsStep_op: "execOp f s g = sg' \<Longrightarrow> fsStep (s, g) sg'"
  unfolding fsStep_def by (rule exI [of _ "[f]"]) (simp add: fsRun_def)

lemma spends_refl [simp, intro]: "spends b cap b cap"
  by (auto simp: spends_def split: option.split)

lemma spends_trans: "spends b c b' c' \<Longrightarrow> spends b' c' b'' c'' \<Longrightarrow> spends b c b'' c''"
  by (fastforce simp: spends_def split: option.splits)

lemma evolves_refl [simp, intro]: "evolves sh sh"
  by (simp add: evolves_def sameHost_def)

lemma evolves_trans [trans]: "evolves a b \<Longrightarrow> evolves b c \<Longrightarrow> evolves a c"
  unfolding evolves_def sameHost_def using convStep_trans fsStep_trans spends_trans by (metis (no_types, lifting))

section \<open>What it gives\<close>

lemma WriteFile_base: "base (fst (snd (WriteFile now s g p c))) = base s"
  by (auto simp: WriteFile_def Let_def split: sum.split prod.split bool.split)

lemma Remove_base: "base (fst (snd (Remove s g p))) = base s"
  by (auto simp: Remove_def Let_def split: sum.split prod.split option.split)

lemma execOp_base: "base (fst (execOp f s g)) = base s"
proof (cases f)
  case (OpWrite now p c)
  then show ?thesis by (simp add: WriteFile_base)
next
  case (OpMkdir now p)
  then show ?thesis by (auto simp: Mkdir_def Let_def split: sum.split)
next
  case (OpRemove p)
  then show ?thesis by (simp add: Remove_base)
next
  case (OpChdir p)
  then show ?thesis by (auto simp: Chdir_def Let_def split: sum.split)
qed

lemma fsRun_keeps:
  assumes "fsRun ops (s, g) = (s', g')" "sessionInv s"
  shows "sessionInv s' \<and> base s' = base s \<and> g' - bytes s' = g - bytes s \<and>
    (g \<le> maxGlobalOverlayBytes \<longrightarrow> g' \<le> maxGlobalOverlayBytes)"
  using assms
proof (induction ops arbitrary: s g)
  case Nil
  then show ?case by (simp add: fsRun_def)
next
  case (Cons f ops)
  obtain t h where e: "execOp f s g = (t, h)" by (rule prod.exhaust)
  then have r: "fsRun ops (t, h) = (s', g')" using Cons.prems(1) by (simp add: fsRun_def)
  have t: "sessionInv t" using execOp_inv [OF Cons.prems(2) e] .
  have "base t = base s" using execOp_base [of f s g] e by simp
  moreover have "h - g = bytes t - bytes s \<and> (g \<le> maxGlobalOverlayBytes \<longrightarrow> h \<le> maxGlobalOverlayBytes)"
    using execOp_meter [OF Cons.prems(2) e] .
  ultimately show ?case using Cons.IH [OF r t] by auto
qed

lemma evolves_fs:
  assumes "evolves sh sh'" "sessionInv (sh_fs sh)"
  shows "sessionInv (sh_fs sh')" "base (sh_fs sh') = base (sh_fs sh)"
    "sh_pool sh' - bytes (sh_fs sh') = sh_pool sh - bytes (sh_fs sh)"
    "sh_pool sh \<le> maxGlobalOverlayBytes \<Longrightarrow> sh_pool sh' \<le> maxGlobalOverlayBytes"
proof -
  obtain ops where "fsRun ops (sh_fs sh, sh_pool sh) = (sh_fs sh', sh_pool sh')"
    using assms(1) by (auto simp: evolves_def fsStep_def)
  from fsRun_keeps [OF this assms(2)]
  show "sessionInv (sh_fs sh')" "base (sh_fs sh') = base (sh_fs sh)"
    "sh_pool sh' - bytes (sh_fs sh') = sh_pool sh - bytes (sh_fs sh)"
    "sh_pool sh \<le> maxGlobalOverlayBytes \<Longrightarrow> sh_pool sh' \<le> maxGlobalOverlayBytes" by auto
qed

lemma convStep_proper: "convStep c c' \<Longrightarrow> proper s c \<Longrightarrow> proper s c'"
  by (auto simp: convStep_def proper_def ownEvent_def list_all_iff)

section \<open>Primitive effects\<close>

lemma convStep_say [intro]: "convStep c (say t c)"
  by (auto simp: convStep_def say_def)

lemma convStep_sayln [intro]: "convStep c (sayln t c)"
  unfolding sayln_def by (rule convStep_say)

lemma convStep_saylns: "convStep c (foldl (\<lambda>c l. sayln l c) c ls)"
  by (induction ls arbitrary: c) (auto intro: convStep_trans)

lemma convStep_event: "(\<And>i. ownEvent i (mk i)) \<Longrightarrow> convStep c (record_event mk c)"
  by (auto simp: convStep_def record_event_def)

lemma convStep_getLine: "getLine c = (r, c') \<Longrightarrow> convStep c c'"
proof -
  assume g: "getLine c = (r, c')"
  have "length (snd (ReadLine False (c_in c))) \<le> length (c_in c)"
    using readLineLoop_consumes [of "c_in c" "[]"] by (cases "c_in c = []") (auto simp: ReadLine_def)
  with g show ?thesis by (auto simp: convStep_def getLine_def split: prod.splits)
qed

lemma convStep_Prompt: "Prompt t c = (r, c') \<Longrightarrow> convStep c c'"
  unfolding Prompt_def by (metis convStep_getLine convStep_say convStep_trans)

lemma evolves_onSession: "convStep (sh_s sh) (f (sh_s sh)) \<Longrightarrow> evolves sh (onSession f sh)"
  by (simp add: evolves_def onSession_def sameHost_def)

lemma evolves_conv: "convStep (sh_s sh) c \<Longrightarrow> evolves sh (sh\<lparr>sh_s := c\<rparr>)"
  by (simp add: evolves_def sameHost_def)

lemma evolves_tell [evolve_intros]: "evolves sh (tell t sh)"
  unfolding tell_def by (rule evolves_onSession) auto

lemma evolves_foldl: "(\<And>sh x. evolves sh (f sh x)) \<Longrightarrow> evolves sh (foldl f sh xs)"
  by (induction xs arbitrary: sh) (auto intro: evolves_trans)

lemma evolves_tellAll [evolve_intros]: "evolves sh (tellAll ls sh)"
  unfolding tellAll_def by (rule evolves_foldl) (rule evolves_tell)

lemma evolves_event: "(\<And>i. ownEvent i (mk i)) \<Longrightarrow> evolves sh (event mk sh)"
  unfolding event_def by (rule evolves_onSession) (rule convStep_event)

lemma own_events [simp]:
  "ownEvent i (LogHoneytoken i a b)" "ownEvent i (LogCommandNote i a b)" "ownEvent i (LogCommand i a)"
  "ownEvent i (LogDropper f i a b c)" "ownEvent i (LogDownload i a b c d)" "ownEvent i (LogExec i a b)"
  "ownEvent i (LogCredential i a b)"
  by (simp_all add: ownEvent_def session_events)

lemma evolves_events [evolve_intros]:
  "evolves sh (event (\<lambda>i. LogHoneytoken i a b) sh)" "evolves sh (event (\<lambda>i. LogCommandNote i a b) sh)"
  "evolves sh (event (\<lambda>i. LogCommand i a) sh)" "evolves sh (event (\<lambda>i. LogDropper f i a b e) sh)"
  "evolves sh (event (\<lambda>i. LogDownload i a b e d) sh)" "evolves sh (event (\<lambda>i. LogExec i a b) sh)"
  "evolves sh (event (\<lambda>i. LogCredential i a b) sh)"
  by (rule evolves_event, simp)+

lemma evolves_ask: "ask t sh = (r, sh') \<Longrightarrow> evolves sh sh'"
  by (auto simp: ask_def intro!: evolves_conv convStep_Prompt split: prod.splits)

lemma evolves_fsop:
  "execOp f (sh_fs sh) (sh_pool sh) = (s, g) \<Longrightarrow> evolves sh (sh\<lparr>sh_fs := s, sh_pool := g\<rparr>)"
  by (auto simp: evolves_def sameHost_def intro: fsStep_op)

lemma evolves_writeFile [evolve_intros]: "evolves sh (snd (writeFile w p c sh))"
  using evolves_fsop [of "OpWrite (w_now w) p c" sh]
  by (auto simp: writeFile_def split: prod.split)

lemma evolves_removeFile [evolve_intros]: "evolves sh (removeFile p sh)"
  using evolves_fsop [of "OpRemove p" sh] by (auto simp: removeFile_def split: prod.split)

lemma evolves_makeDir [evolve_intros]: "evolves sh (makeDir w p sh)"
  using evolves_fsop [of "OpMkdir (w_now w) p" sh] by (simp add: makeDir_def)

lemma evolves_private [evolve_intros]:
  "evolves sh (sh\<lparr>sh_cron := a\<rparr>)" "evolves sh (sh\<lparr>sh_quit := q\<rparr>)"
  "evolves sh (sh\<lparr>sh_env := e\<rparr>)" "evolves sh (sh\<lparr>sh_subCount := k\<rparr>)"
  by (simp_all add: evolves_def sameHost_def)

lemma evolves_last: "evolves a sh \<Longrightarrow> codeOk n \<Longrightarrow> evolves a (sh\<lparr>sh_last := n\<rparr>)"
  by (simp add: evolves_def sameHost_def)

text \<open>The same facts as steps after what has already happened.\<close>

lemmas evolve_steps = evolve_intros [THEN evolves_trans [rotated]]

lemmas evolves_after = evolves_trans [rotated]

lemma evolves_foldl_after: "evolves a sh \<Longrightarrow> (\<And>sh x. evolves sh (f sh x)) \<Longrightarrow> evolves a (foldl f sh xs)"
  by (erule evolves_trans) (rule evolves_foldl)

section \<open>Commands that return text\<close>

lemma evolves_revealForLoot: "evolves sh (snd (revealForLoot w k ap c sh))"
  by (simp add: revealForLoot_def evolve_intros)

lemma evolves_catLoop: "evolves a sh \<Longrightarrow> evolves a (snd (catLoop w fs b c sh))"
proof (induction w fs b c sh rule: catLoop.induct)
  case (2 w f fs b c sh)
  then show ?case
    by (auto simp: Let_def revealForLoot_def evolve_steps split: sum.split option.split)
qed simp

lemma evolves_cmdCat: "evolves sh (snd (cmdCat w argv sh))"
  by (simp add: cmdCat_def evolves_catLoop)

lemma evolves_cmdCd: "evolves sh (snd (cmdCd argv sh))"
proof -
  define t where "t = (if length argv > 1 then argv ! 1 else getenv (sh_env sh) ''HOME'')"
  obtain e fs where c: "Chdir (sh_fs sh) (Resolve (sh_fs sh) t) = (e, fs)" by (rule prod.exhaust)
  then have "evolves sh (sh\<lparr>sh_fs := fs, sh_pool := sh_pool sh\<rparr>)"
    by (intro evolves_fsop [of "OpChdir (Resolve (sh_fs sh) t)"]) simp
  moreover have "sh\<lparr>sh_fs := fs, sh_pool := sh_pool sh\<rparr> = sh\<lparr>sh_fs := fs\<rparr>" by simp
  ultimately have "evolves sh (sh\<lparr>sh_fs := fs, sh_env := env\<rparr>)" for env
    using evolves_private(3) [of "sh\<lparr>sh_fs := fs\<rparr>" env] evolves_trans by fastforce
  with c show ?thesis unfolding cmdCd_def Let_def t_def [symmetric] by (auto split: option.split)
qed

lemma evolves_touchFile: "evolves sh (touchFile w t sh)"
  by (simp add: touchFile_def Let_def evolve_intros)

lemma evolves_copyFile: "evolves sh (copyFile w m a b sh)"
  by (auto simp: copyFile_def Let_def evolve_intros evolve_steps split: sum.split)

lemma evolves_cmdMutate: "evolves sh (snd (cmdMutate w argv sh))"
  by (auto simp: cmdMutate_def Let_def intro!: evolves_foldl evolves_touchFile evolves_makeDir evolves_removeFile evolves_copyFile)

lemma evolves_cmdHistory: "evolves sh (snd (cmdHistory argv sh))"
  by (auto simp: cmdHistory_def Let_def evolve_intros)

lemma evolves_captureDropper: "evolves sh (captureDropper w p c sh)"
  by (auto simp: captureDropper_def Let_def evolve_intros split: sum.split)

lemmas evolve_commands = evolves_cmdCat evolves_cmdCd evolves_cmdMutate evolves_cmdHistory evolves_captureDropper

section \<open>Commands that take over the terminal\<close>

lemma evolves_SlowProgress: "evolves a sh \<Longrightarrow> evolves a (onSession (SlowProgress w l) sh)"
  by (erule evolves_trans) (auto simp: SlowProgress_def intro!: evolves_onSession)

lemma evolves_iWget: "evolves sh (snd (iWget w argv sh))"
  by (auto simp: iWget_def Let_def intro!: evolve_steps evolves_SlowProgress evolves_tell)

lemma evolves_iCurl: "evolves sh (snd (iCurl w argv sh))"
  by (auto simp: iCurl_def Let_def intro!: evolve_steps evolves_SlowProgress split: option.split)

lemma evolves_iTftp: "evolves sh (snd (iTftp argv sh))" "evolves sh (snd (iFtp argv sh))"
  by (simp_all add: iTftp_def iFtp_def Let_def evolve_intros)

lemma evolves_asked: "ask t sh = (r, sh') \<Longrightarrow> evolves sh' b \<Longrightarrow> evolves sh b"
  using evolves_ask evolves_trans by blast

lemma evolves_askSecret: "evolves sh (askSecret t r l u sh)"
  by (auto simp: askSecret_def Let_def intro!: evolve_steps intro: evolves_ask split: prod.split)

lemma evolves_transfers: "evolves sh (snd (iScp argv sh))" "evolves sh (snd (iRsync argv sh))"
  by (auto simp: iScp_def iRsync_def Let_def intro!: evolve_steps evolves_askSecret)

lemma evolves_iSu: "evolves sh (snd (iSu argv sh))"
  by (auto simp: iSu_def intro!: evolve_steps intro: evolves_ask split: prod.split)

lemma evolves_ask_after: "evolves a sh \<Longrightarrow> ask t sh = (r, sh') \<Longrightarrow> evolves a sh'"
  using evolves_ask evolves_trans by blast

lemma evolves_iPasswd: "evolves sh (snd (iPasswd argv sh))"
proof -
  define user where "user = (if length argv > 1 \<and> \<not> isFlag (argv ! 1) then argv ! 1 else sh_user sh)"
  define a where "a = tell (''Changing password for '' @ user @ ''.'') sh"
  obtain cur o1 b where b: "ask ''Current password: '' a = ((cur, o1), b)" by (metis prod.collapse)
  define b' where "b' = event (\<lambda>i. LogCredential i user cur) b"
  obtain n1 o2 c where c: "ask ''New password: '' b' = ((n1, o2), c)" by (metis prod.collapse)
  obtain n2 o3 d where d: "ask ''Retype new password: '' c = ((n2, o3), d)" by (metis prod.collapse)
  have "evolves sh b'"
    unfolding b'_def by (rule evolve_steps, rule evolves_ask_after [OF _ b]) (simp add: a_def evolve_intros)
  then have "evolves sh d" using evolves_ask_after [OF evolves_ask_after [OF _ c] d] by blast
  then show ?thesis
    unfolding iPasswd_def Let_def user_def [symmetric] a_def [symmetric] b prod.case b'_def [symmetric] c d
    by (auto intro!: evolve_steps)
qed

lemma evolves_mysqlInline: "evolves sh (mysqlInline argv sh)"
  unfolding mysqlInline_def by (rule evolves_foldl) (simp add: evolve_intros)

lemma evolves_iMysql: "evolves sh (snd (iMysql argv sh))"
proof -
  define a where "a = mysqlInline argv sh"
  obtain pass ok b where b: "ask ''Enter password: '' a = ((pass, ok), b)" by (metis prod.collapse)
  have a: "evolves sh a" unfolding a_def by (rule evolves_mysqlInline)
  then have "evolves sh b" using b by (rule evolves_ask_after)
  with a show ?thesis
    unfolding iMysql_def Let_def a_def [symmetric] b prod.case by (auto intro!: evolve_steps)
qed

lemma evolves_tools: "evolves sh (snd (iInterp argv sh))" "evolves sh (snd (iCompile argv sh))"
  "evolves sh (snd (iPip argv sh))"
  by (auto simp: iInterp_def iCompile_def iPip_def Let_def intro!: evolve_steps split: option.split)

lemma evolves_unpackOne: "evolves sh (unpackOne w p sh)"
  by (auto simp: unpackOne_def Let_def intro!: evolve_steps)

lemma evolves_removeOne: "evolves sh (removeOne p sh)"
  by (auto simp: removeOne_def Let_def intro!: evolve_steps)

lemma evolves_aptInstall: "evolves a sh \<Longrightarrow> evolves a (aptInstall w pkgs sh)"
  by (auto simp: aptInstall_def Let_def intro!: evolve_steps evolves_foldl_after [OF _ evolves_unpackOne])

lemma evolves_iApt: "evolves sh (snd (iApt w argv sh))"
  by (simp add: iApt_def Let_def evolves_aptInstall evolve_steps evolve_intros evolves_foldl_after [OF _ evolves_removeOne])

lemma convStep_editLoop: "convStep c (snd (editLoop t typed c))"
proof (induction t typed c rule: editLoop.induct)
  case (1 t typed c)
  obtain line ok c' where g: "getLine c = ((line, ok), c')" by (metis prod.collapse)
  have c': "convStep c c'" using g by (rule convStep_getLine)
  show ?case
  proof (cases "ok \<and> TrimSpace line \<notin> {'':wq'', '':x'', ''ZZ'', '':wq!'', '':q!'', '':q''}")
    case True
    then have "convStep c' (snd (editLoop t (line # typed) c'))" using "1.IH" [OF g [symmetric] refl] by auto
    with True g c' show ?thesis by (subst editLoop.simps) (auto intro: convStep_trans)
  next
    case False
    with g c' show ?thesis
      by (subst editLoop.simps) (auto intro: convStep_trans [OF _ convStep_sayln] split: bool.split)
  qed
qed

lemma evolves_runEditor: "evolves a sh \<Longrightarrow> evolves a (snd (runEditor t sh))"
proof -
  define c where "c = foldl (\<lambda>c l. sayln l c) (say [CR, LF, CR, LF] (sh_s sh)) (replicate 6 ''~'' @
    [''~                              VIM - Vi IMproved'', ''~'', DQUOTE # t @ DQUOTE # '' [New File]''])"
  have "convStep (sh_s sh) c"
    unfolding c_def using convStep_saylns convStep_say convStep_trans by blast
  then have "convStep (sh_s sh) (snd (editLoop t [] c))" using convStep_editLoop convStep_trans by blast
  then have "evolves sh (snd (runEditor t sh))"
    unfolding runEditor_def Let_def c_def [symmetric] by (auto intro!: evolves_conv split: prod.split)
  then show "evolves a sh \<Longrightarrow> ?thesis" using evolves_trans by blast
qed

lemma evolves_iEditor: "evolves sh (snd (iEditor w argv sh))"
proof -
  define t where "t = (if length argv > 1 \<and> \<not> isFlag (last argv) then last argv else ''file'')"
  obtain body saved b where b: "runEditor t sh = ((body, saved), b)" by (metis prod.collapse)
  then have "evolves sh b" using evolves_runEditor [of sh sh t] by simp
  then show ?thesis unfolding iEditor_def Let_def t_def [symmetric] b prod.case by (auto intro!: evolve_steps)
qed

lemma evolves_crontabArgs: "evolves sh (snd (crontabArgs as sh))"
proof (induction as sh rule: crontabArgs.induct)
  case (2 a rest sh)
  define t where "t = ''/tmp/crontab.'' @ sh_user sh"
  obtain body saved b where b: "runEditor t sh = ((body, saved), b)" by (metis prod.collapse)
  then have "evolves sh b" using evolves_runEditor [of sh sh t] by simp
  with 2 show ?case
    by (simp only: crontabArgs.simps t_def [symmetric] b Let_def prod.case snd_conv if_distrib [of snd] if_split)
       (intro conjI impI, (simp add: evolve_intros evolve_steps split: sum.split)+)
qed (simp add: evolve_intros)

lemma evolves_screens: "evolves sh (snd (iTop w sh))" "evolves sh (snd (iTar argv sh))"
  "evolves sh (snd (iAsciiView w argv sh))" "evolves sh (snd (iVault w argv sh))"
  by (simp_all add: iTop_def iTar_def iAsciiView_def iVault_def Let_def evolve_intros evolve_steps)

lemma evolves_walkFind: "evolves a (snd st) \<Longrightarrow> evolves a (snd (walkFind n expired dir st))"
proof (induction n arbitrary: a dir st)
  case (Suc n)
  have "evolves a (snd st) \<Longrightarrow> evolves a (snd (findEntry (walkFind n expired) expired dir st e))" for st e
    using Suc.IH by (cases st) (auto simp: findEntry_def Let_def evolve_steps)
  then have "evolves a (snd st) \<Longrightarrow> evolves a (snd (foldl (findEntry (walkFind n expired) expired dir) st es))" for st es
    by (induction es arbitrary: st) auto
  with Suc.prems show ?case
    by (cases st) (auto simp: Let_def evolve_steps split: sum.split)
qed simp

lemma evolves_iFind: "evolves sh (snd (iFind expired argv sh))"
  by (simp add: iFind_def evolves_walkFind)

lemmas evolve_takeovers = evolves_iWget evolves_iCurl evolves_iTftp evolves_transfers evolves_iSu evolves_iPasswd
  evolves_iMysql evolves_tools evolves_iApt evolves_iEditor evolves_screens evolves_iFind

section \<open>find is bounded\<close>

lemma findEntry_count:
  assumes "\<And>st kid. fst st \<le> fst (walk kid st)"
  shows "fst st \<le> fst (foldl (findEntry walk expired dir) st es)"
proof (induction es arbitrary: st)
  case (Cons e es)
  have "fst st \<le> fst (findEntry walk expired dir st e)"
    using assms [of st] by (cases st) (auto simp: findEntry_def Let_def)
  also have "\<dots> \<le> fst (foldl (findEntry walk expired dir) (findEntry walk expired dir st e) es)" by (rule Cons.IH)
  finally show ?case by simp
qed simp

lemma walkFind_count: "fst st \<le> fst (walkFind n expired dir st)"
proof (induction n arbitrary: dir st)
  case (Suc n)
  then show ?case
    using findEntry_count [of "walkFind n expired" "(Suc (fst st), tell dir (snd st))" expired dir]
    by (cases st) (auto simp: Let_def split: sum.split intro: Suc_leD)
qed simp

text \<open>5001 levels are enough fuel: more never changes what is listed.\<close>

lemma walkFind_fuel: "5001 \<le> fst st + n \<Longrightarrow> walkFind (Suc n) expired dir st = walkFind n expired dir st"
proof (induction n arbitrary: dir st)
  case 0
  then show ?case by (cases st) (simp add: findDone_def)
next
  case (Suc n)
  obtain cnt sh where st: "st = (cnt, sh)" by (rule prod.exhaust)
  have entry: "findEntry (walkFind (Suc n) expired) expired dir t e = findEntry (walkFind n expired) expired dir t e"
    if "Suc cnt \<le> fst t" for t e
    using Suc that st by (cases t) (auto simp: findEntry_def Let_def simp del: walkFind.simps)
  have "foldl (findEntry (walkFind (Suc n) expired) expired dir) t es = foldl (findEntry (walkFind n expired) expired dir) t es"
    if "Suc cnt \<le> fst t" for t es
    using that
  proof (induction es arbitrary: t)
    case (Cons e es)
    have "Suc cnt \<le> fst (findEntry (walkFind n expired) expired dir t e)"
      using findEntry_count [of "walkFind n expired" t expired dir "[e]"] walkFind_count Cons.prems by fastforce
    then show ?case using Cons entry by (simp del: walkFind.simps)
  qed simp
  then show ?case
    unfolding st walkFind.simps(2) [of "Suc n"] walkFind.simps(2) [of n] by (simp add: Let_def split: sum.split del: walkFind.simps)
qed

section \<open>Exit codes\<close>

lemma codeOk_numerals [simp]: "codeOk 0" "codeOk 1" "codeOk (numeral n) \<longleftrightarrow> numeral n \<le> (255 :: int)"
  by (simp_all add: codeOk_def)

lemma code_takeovers:
  "codeOk (fst (iWget w argv sh))" "codeOk (fst (iCurl w argv sh))" "codeOk (fst (iTftp argv sh))" "codeOk (fst (iFtp argv sh))"
  "codeOk (fst (iScp argv sh))" "codeOk (fst (iRsync argv sh))" "codeOk (fst (iInterp argv sh))" "codeOk (fst (iCompile argv sh))"
  "codeOk (fst (iPip argv sh))" "codeOk (fst (iTop w sh))" "codeOk (fst (iTar argv sh))"
  "codeOk (fst (iAsciiView w argv sh))" "codeOk (fst (iVault w argv sh))" "codeOk (fst (iFind e argv sh))"
  by (simp_all add: iWget_def iCurl_def iTftp_def iFtp_def iScp_def iRsync_def iInterp_def iCompile_def iPip_def iTop_def
      iTar_def iAsciiView_def iVault_def iFind_def Let_def split: option.split)

lemma code_takeovers':
  "codeOk (fst (iSu argv sh))" "codeOk (fst (iPasswd argv sh))" "codeOk (fst (iEditor w argv sh))"
  "codeOk (fst (iMysql argv sh))" "codeOk (fst (iApt w argv sh))"
  by (simp_all add: iSu_def iPasswd_def iEditor_def iMysql_def iApt_def Let_def split_beta)

lemma code_crontabArgs: "codeOk (fst (crontabArgs as sh))"
  by (induction as sh rule: crontabArgs.induct) (simp_all add: Let_def split_beta)

end
