(* ===== verification/ShellRun.thy ===== *)
theory ShellRun
  imports ShellFrame
begin

text \<open>
  The interpreter of \<^verbatim>\<open>internal/shell/shell.go\<close>: expansion, the command table, pipelines, statements, lines
  and sessions.  The Go functions call each other in a cycle (a line runs statements, a statement expands
  words, a word may hold a command substitution, which runs a line) that \<^verbatim>\<open>execDepth\<close> cuts off.  Here the
  recursion parameter \<open>d\<close> of \<open>runLine\<close> is what \<^verbatim>\<open>maxExecDepth - execDepth\<close> is in the code, so the depth
  guard is the base case; \<open>runTopLine\<close> is the call at depth zero, which refills the expansion budget.  The
  functions between take the runner of nested lines as a parameter (\<open>rec\<close>), and the shell opened on a
  pivot host as another (\<open>nest\<close>).  A statement's flag tells whether it ended without a panic.
\<close>

section \<open>Expansion\<close>

definition takeBudget :: "string \<Rightarrow> shell \<Rightarrow> string \<times> shell" where
  "takeBudget s sh =
    (if sh_expandBudget sh \<le> 0 then ([], sh)
     else let s = (if int (length s) > sh_expandBudget sh then take (nat (sh_expandBudget sh)) s else s)
          in (s, sh\<lparr>sh_expandBudget := sh_expandBudget sh - int (length s)\<rparr>))"

definition runCaptured :: "nat \<Rightarrow> (string \<Rightarrow> shell \<Rightarrow> shell) \<Rightarrow> string \<Rightarrow> shell \<Rightarrow> string \<times> shell" where
  "runCaptured d rec line sh =
    (if d = 0 then ([], sh)
     else let sh' = rec line (sh\<lparr>sh_capture := Some []\<rparr>)
          in (case sh_capture sh' of Some buf \<Rightarrow> buf | None \<Rightarrow> [], sh'\<lparr>sh_capture := sh_capture sh\<rparr>))"

definition cmdSub :: "nat \<Rightarrow> (string \<Rightarrow> shell \<Rightarrow> shell) \<Rightarrow> string \<Rightarrow> shell \<Rightarrow> string \<times> shell" where
  "cmdSub d rec inner sh =
    (let sh = sh\<lparr>sh_subCount := sh_subCount sh + 1\<rparr>
     in if sh_subCount sh > maxCmdSubs \<or> sh_expandBudget sh \<le> 0 then ([], sh)
        else let (out, sh') = runCaptured d rec inner sh
             in (replaceByte LF '' '' (Trim out [LF]), sh'))"

text \<open>The scan for the parenthesis that closes \<open>d\<close> open ones: what is inside and what follows it.\<close>

fun spanTo :: "nat \<Rightarrow> string \<Rightarrow> string \<times> string" where
  "spanTo d [] = ([], [])"
| "spanTo d (c # s) =
    (if c = CHR '')'' \<and> d \<le> 1 then ([], s)
     else apfst ((#) c) (spanTo (if c = CHR ''('' then d + 1 else if c = CHR '')'' then d - 1 else d) s))"

lemma spanTo_length: "length (snd (spanTo d s)) \<le> length s"
  by (induction d s rule: spanTo.induct) auto

lemma spanTo_rest: "(a, r) = spanTo d s \<Longrightarrow> length r \<le> length s"
  using spanTo_length [of d s] by (metis snd_conv)

lemma upTo_rest: "(a, r) = upTo q s \<Longrightarrow> length r \<le> length s"
  using upTo_length [of q s] by (metis snd_conv)

function expandFrom ::
  "(string \<Rightarrow> shell \<Rightarrow> string \<times> shell) \<Rightarrow> string \<Rightarrow> string \<Rightarrow> shell \<Rightarrow> string \<times> shell" where
  "expandFrom sub [] b sh = (b, sh)"
| "expandFrom sub (c # s) b sh =
    (if c = BACKTICK then
       let (inner, rest) = upTo BACKTICK s; (out, sh') = sub inner sh in expandFrom sub rest (b @ out) sh'
     else if c \<noteq> CHR ''$'' then expandFrom sub s (b @ [c]) sh
     else if HasPrefix s ''$'' then expandFrom sub (tl s) (b @ Itoa shellPID) sh
     else if HasPrefix s ''(('' then
       let (inner, rest) = spanTo 2 (drop 2 s)
       in expandFrom sub (drop 1 rest) (b @ Itoa (evalArith (sh_env sh) inner)) sh
     else if HasPrefix s ''('' then
       let (inner, rest) = spanTo 1 (tl s); (out, sh') = sub inner sh in expandFrom sub rest (b @ out) sh'
     else if HasPrefix s ''?'' then expandFrom sub (tl s) (b @ Itoa (sh_last sh)) sh
     else if HasPrefix s ''{'' \<and> CHR ''}'' \<in> set (tl s) then
       let (name, rest) = upTo (CHR ''}'') (tl s); (v, sh') = takeBudget (getenv (sh_env sh) name) sh
       in expandFrom sub rest (b @ v) sh'
     else let name = takeWhile nameChar s
          in if name \<noteq> [] then
               let (v, sh') = takeBudget (getenv (sh_env sh) name) sh
               in expandFrom sub (dropWhile nameChar s) (b @ v) sh'
             else expandFrom sub s (b @ ''$'') sh)"
  by pat_completeness auto
termination
  by (relation "measure (\<lambda>(_, s, _). length s)")
    (auto dest!: upTo_rest spanTo_rest simp: length_dropWhile_le le_imp_less_Suc)

declare expandFrom.simps [simp del]

definition expand :: "(string \<Rightarrow> shell \<Rightarrow> string \<times> shell) \<Rightarrow> string \<Rightarrow> shell \<Rightarrow> string \<times> shell" where
  "expand sub w sh = (if list_ex (\<lambda>c. c = CHR ''$'' \<or> c = BACKTICK) w then expandFrom sub w [] sh else (w, sh))"

fun expandWords :: "(string \<Rightarrow> shell \<Rightarrow> string \<times> shell) \<Rightarrow> string list \<Rightarrow> shell \<Rightarrow> string list \<times> shell" where
  "expandWords sub [] sh = ([], sh)"
| "expandWords sub (a # as) sh =
    (let (x, sh) = expand sub a sh; (xs, sh) = expandWords sub as sh in (x # xs, sh))"

definition expandStage :: "(string \<Rightarrow> shell \<Rightarrow> string \<times> shell) \<Rightarrow> stage \<Rightarrow> shell \<Rightarrow> string list \<times> shell" where
  "expandStage sub stg sh = expandWords sub (args stg) sh"

section \<open>Output\<close>

definition emit :: "world \<Rightarrow> stage \<Rightarrow> string \<Rightarrow> shell \<Rightarrow> shell" where
  "emit w stg out sh =
    (if outNull stg then sh
     else if outFile stg \<noteq> [] then
       let ap = Resolve (sh_fs sh) (outFile stg);
           data = (case ReadFile (sh_fs sh) ap of
               Inr old \<Rightarrow> if appendT stg \<and> old \<noteq> [] then old @ out else out
             | Inl _ \<Rightarrow> out);
           (e, sh') = writeFile w ap data sh
       in if e = Some ErrNoSpace
          then onSession (say (''-bash: '' @ outFile stg @ '': No space left on device'' @ [CR, LF])) sh' else sh'
     else case sh_capture sh of
       Some buf \<Rightarrow> let (t, sh') = takeBudget out sh in sh'\<lparr>sh_capture := Some (buf @ t)\<rparr>
     | None \<Rightarrow>
         if out = [] then sh
         else onSession (say (nlToCrlf (if HasSuffix out [LF] then out else out @ [LF]))) sh)"

section \<open>The command table\<close>

definition IsAppliance :: "Persona \<Rightarrow> bool" where
  "IsAppliance p = (p_Profile p = ''legacy'')"

definition stripBinDir :: "string \<Rightarrow> string" where
  "stripBinDir arg0 =
    (case LastIndexByte arg0 (CHR ''/'') of
       Some i \<Rightarrow> if take (i + 1) arg0 \<in> set systemBinDirs then drop (i + 1) arg0 else arg0
     | None \<Rightarrow> arg0)"

text \<open>
  The cases of \<^verbatim>\<open>runCommand\<close>'s switch that only print: the result (\<^const>\<open>None\<close> a panic) of the named command,
  or \<^const>\<open>None\<close> when the name is not one of them.
\<close>

definition printing :: "world \<Rightarrow> shell \<Rightarrow> string \<Rightarrow> string list \<Rightarrow> string \<Rightarrow> (string \<times> int) option option" where
  "printing w sh name argv stdin =
    (let p = sh_p sh; fs = sh_fs sh; now = w_now w; zone = w_zone w; user = sh_user sh;
         srcIP = se_SrcIP (c_id (sh_s sh)); ok = (\<lambda>out. Some (Some (out, 0)))
     in if name \<in> {''ls'', ''dir''} then ok (cmdLs zone fs argv)
        else if name \<in> {''['', ''test''} then Some (Some (cmdTest fs argv))
        else if name = ''nproc'' then ok (cmdNproc fs)
        else if name = ''pwd'' then ok (cwd fs @ [LF])
        else if name = ''echo'' then ok (cmdEcho argv)
        else if name = ''whoami'' then ok (user @ [LF])
        else if name = ''id'' then
          ok (if user = ''root'' then ''uid=0(root) gid=0(root) groups=0(root)'' @ [LF]
              else let u = Itoa (p_UserUID p) @ ''('' @ user @ '')'' in ''uid='' @ u @ '' gid='' @ u @ '' groups='' @ u @ [LF])
        else if name = ''hostname'' then ok (p_Hostname p @ [LF])
        else if name = ''uname'' then ok (cmdUname p argv)
        else if name \<in> {''head'', ''tail''} then Some (cmdHeadTail w sh argv stdin (name = ''tail''))
        else if name = ''wc'' then Some (Some (cmdWc w sh argv stdin))
        else if name \<in> {''grep'', ''egrep'', ''fgrep''} then Some (Some (cmdGrep w sh argv stdin))
        else if name = ''which'' then Some (Some (cmdWhich fs argv))
        else if name \<in> {''env'', ''printenv''} then ok (cmdEnv (sh_env sh))
        else if name = ''stat'' then Some (Some (cmdStat zone fs argv))
        else if name = ''file'' then ok (cmdFile fs argv)
        else if name \<in> {''export'', ''unset'', ''set'', ''alias'', ''umask'', ''complete'', ''shopt''} then ok []
        else if name = ''ps'' then ok (cmdPs zone now p (sh_login sh) argv)
        else if name = ''free'' then ok (freeStr now p)
        else if name = ''df'' then ok (dfStr p)
        else if name = ''uptime'' then ok (uptimeStr zone now p)
        else if name = ''w'' then ok (wStr zone now p user srcIP (sh_login sh))
        else if name = ''who'' then
          ok (user @ ''     pts/0        '' @ fmtStamp (clockOf zone (sh_login sh)) @ '' ('' @ srcIP @ '')'' @ [LF])
        else if name = ''last'' then ok (lastStr zone now p user srcIP (sh_login sh))
        else if name = ''date'' then ok (fmtDate (clockOf zone now) @ [LF])
        else if name = ''ifconfig'' then ok (ifconfigStr now p)
        else if name = ''ip'' then Some (map_option (\<lambda>out. (out, 0)) (cmdIP p argv))
        else if name = ''netstat'' then ok (netstatStr p)
        else if name = ''ss'' then ok (ssStr p)
        else if name = ''lscpu'' then ok (lscpuStr p)
        else if name = ''lsblk'' then ok (lsblkStr p)
        else if name = ''mount'' then ok (mountStr p)
        else if name = ''dmesg'' then ok (dmesgStr p)
        else if name \<in> {''systemctl'', ''service''} then ok (cmdService now p argv)
        else if name = ''dpkg'' then ok (cmdDpkg p argv)
        else if name \<in> {''sleep'', ''true'', '':'', ''clear'', ''kill'', ''killall'', ''sync'', ''reset''} then ok []
        else if name \<in> {''chpasswd'', ''useradd'', ''usermod'', ''userdel'', ''adduser'', ''groupadd'', ''groupdel''} then ok []
        else if name \<in> {''enable'', ''system'', ''shell'', ''linuxshell''} \<and> IsAppliance p then ok []
        else if name = ''false'' then Some (Some ([], 1))
        else if name \<in> {''cut'', ''sort'', ''uniq'', ''tr'', ''awk'', ''sed'', ''tee'', ''xargs''} then ok stdin
        else None)"

definition busyboxAppletList :: "string list" where
  "busyboxAppletList = [''['', ''[['', ''ash'', ''awk'', ''base64'', ''basename'', ''cat'', ''chmod'', ''chown'', ''cp'',
     ''cut'', ''date'', ''dd'', ''df'', ''dmesg'', ''echo'', ''egrep'', ''env'', ''false'', ''fgrep'', ''free'', ''ftpget'', ''ftpput'',
     ''grep'', ''gunzip'', ''gzip'', ''head'', ''hostname'', ''id'', ''ifconfig'', ''kill'', ''killall'', ''ln'', ''login'', ''ls'',
     ''md5sum'', ''mkdir'', ''mount'', ''mv'', ''nc'', ''netstat'', ''nproc'', ''passwd'', ''ping'', ''printf'', ''ps'', ''pwd'',
     ''reboot'', ''rm'', ''rmdir'', ''route'', ''sed'', ''sh'', ''sleep'', ''sort'', ''tail'', ''tar'', ''telnet'', ''tftp'', ''top'',
     ''touch'', ''tr'', ''true'', ''uname'', ''uniq'', ''uptime'', ''wc'', ''wget'', ''which'', ''whoami'']"

definition busyboxBanner :: "Persona \<Rightarrow> string" where
  "busyboxBanner p = lns [
     ''BusyBox v'' @ p_BusyBoxVer p @ '' (Ubuntu 1:'' @ p_BusyBoxVer p @ ''-2ubuntu1) multi-call binary.'',
     ''BusyBox is copyright (C) 1998-2022 Erik Andersen, Rob Landley, Denys Vlasenko'',
     ''and others. Licensed under GPLv2. See source distribution for detailed'',
     ''copyright notices.'', [],
     ''Usage: busybox [function [arguments]...]'',
     ''   or: busybox --list[-full]'',
     ''   or: function [arguments]...'', [],
     [TAB] @ ''BusyBox is a multi-call binary that combines many common Unix'',
     [TAB] @ ''utilities into a single executable.  Most people will create a'',
     [TAB] @ ''link to busybox for each function they wish to use and BusyBox'',
     [TAB] @ ''will act like whatever it was invoked as.'', [],
     ''Currently defined functions:'',
     [TAB] @ Join_sep busyboxAppletList '', '']"

definition base64Input :: "world \<Rightarrow> string \<Rightarrow> string \<Rightarrow> shell \<Rightarrow> (string + bytes) \<times> shell" where
  "base64Input w file stdin sh =
    (if file = [] then (Ok stdin, sh)
     else let ap = Resolve (sh_fs sh) file
          in case ReadFile (sh_fs sh) ap of
               Inl _ \<Rightarrow> (Err (''base64: '' @ file @ '': No such file or directory'' @ [LF]), sh)
             | Inr data \<Rightarrow>
                 if isLootImage (sh_p sh) ap then
                   (Ok (case lootImageBytes w ap of Some img \<Rightarrow> img | None \<Rightarrow> reveal w),
                    event (\<lambda>i. LogHoneytoken i (''loot-grab:'' @ path_Base ap) (''base64 '' @ file)) sh)
                 else (Ok data, sh))"

definition cmdBase64 :: "(string \<Rightarrow> shell \<Rightarrow> shell) \<Rightarrow> world \<Rightarrow> string list \<Rightarrow> string \<Rightarrow> shell \<Rightarrow> (string \<times> int) \<times> shell" where
  "cmdBase64 rec w argv stdin sh =
    (let decode = list_ex (\<lambda>a. a \<in> {''-d'', ''--decode'', ''-D''}) (tl argv);
         (input, sh) = base64Input w (lastOr [] (operands argv)) stdin sh
     in case input of
          Inl msg \<Rightarrow> ((msg, 1), sh)
        | Inr data \<Rightarrow>
            if \<not> decode then ((StdEncode data @ [LF], 0), sh)
            else case StdDecode (concat (Fields data)) of
                None \<Rightarrow> ((''base64: invalid input'' @ [LF], 1), sh)
              | Some raw \<Rightarrow>
                  let sh = event (\<lambda>i. LogExec i (''base64 -d: '' @ take 1024 raw) (w_sha w raw)) sh
                  in if looksLikeCommand raw then (([], 0), rec (TrimSpace raw) sh) else ((raw, 0), sh))"

text \<open>A name that is no command: a file the attacker placed and runs by its path, or nothing.\<close>

definition runFile :: "world \<Rightarrow> string \<Rightarrow> string list \<Rightarrow> shell \<Rightarrow> (string \<times> int) \<times> shell" where
  "runFile w name argv sh =
    (if HasPrefix name ''./'' \<or> HasPrefix name ''/'' then
       let ap = Resolve (sh_fs sh) name; full = Join_sep argv '' '';
           missing = ((''-bash: '' @ name @ '': No such file or directory'' @ [LF], 127), sh)
       in if inSystemBin ap then missing
          else case Stat (sh_fs sh) ap of
              Inl _ \<Rightarrow> missing
            | Inr n \<Rightarrow>
                if IsDir n then missing
                else let sh' = (case ReadFile (sh_fs sh) ap of
                         Inr content \<Rightarrow> if content \<noteq> [] then event (\<lambda>i. LogDropper (w_sha w) i ap full content) sh else sh
                       | Inl _ \<Rightarrow> sh)
                     in (([], 0), event (\<lambda>i. LogExec i full ''dropped-exec'') sh')
     else ((''-bash: '' @ name @ '': command not found'' @ [LF], 127), sh))"

function runCommand ::
  "(string \<Rightarrow> shell \<Rightarrow> shell) \<Rightarrow> world \<Rightarrow> string list \<Rightarrow> string \<Rightarrow> shell \<Rightarrow> (string \<times> int) option \<times> shell" where
  "runCommand rec w [] stdin sh = (None, sh)"
| "runCommand rec w (arg0 # rest) stdin sh =
    (let name = stripBinDir arg0; argv = name # rest
     in case printing w sh name argv stdin of
          Some r \<Rightarrow> (r, sh)
        | None \<Rightarrow>
            if name \<in> {''exit'', ''logout''} then (Some (''logout'' @ [LF], 0), sh\<lparr>sh_quit := True\<rparr>)
            else if name = ''cat'' then apfst Some (cmdCat w argv sh)
            else if name = ''cd'' then apfst Some (cmdCd argv sh)
            else if name \<in> {''touch'', ''mkdir'', ''rm'', ''rmdir'', ''cp'', ''mv'', ''chmod'', ''chown'', ''ln''} then apfst Some (cmdMutate w argv sh)
            else if name = ''history'' then apfst Some (cmdHistory argv sh)
            else if name = ''sudo'' then (if rest \<noteq> [] then runCommand rec w rest stdin sh else (Some ([], 0), sh))
            else if name = ''base64'' then apfst Some (cmdBase64 rec w argv stdin sh)
            else if name = ''busybox'' then
              (case rest of
                 [] \<Rightarrow> (Some (busyboxBanner (sh_p sh), 0), sh)
               | a # xs \<Rightarrow>
                   let applet = (case LastIndexByte a (CHR ''/'') of Some i \<Rightarrow> drop (i + 1) a | None \<Rightarrow> a)
                   in if applet = ''--list'' \<or> applet = ''--list-full'' then (Some (joinByte LF busyboxAppletList @ [LF], 0), sh)
                      else if applet \<in> set busyboxAppletList then runCommand rec w (applet # xs) [] sh
                      else (Some (applet @ '': applet not found'' @ [LF], 127), sh))
            else if name \<in> {''enable'', ''system'', ''shell'', ''linuxshell''} then
              (Some (''-bash: '' @ name @ '': command not found'' @ [LF], 127), sh)
            else apfst Some (runFile w name argv sh))"
  by pat_completeness auto
termination
  by (relation "measure (\<lambda>(_, _, argv, _). length argv)") auto

declare runCommand.simps [simp del]

section \<open>Interactive commands\<close>

text \<open>The cases of \<^verbatim>\<open>runInteractive\<close>'s switch that neither run a line nor open a shell.\<close>

definition takeover :: "world \<Rightarrow> string \<Rightarrow> string list \<Rightarrow> shell \<Rightarrow> int \<times> shell" where
  "takeover w name argv sh =
    (if name = ''wget'' then iWget w argv sh
     else if name = ''curl'' then iCurl w argv sh
     else if name \<in> {''scp'', ''sftp''} then iScp argv sh
     else if name = ''tftp'' then iTftp argv sh
     else if name \<in> {''ftpget'', ''ftpput''} then iFtp argv sh
     else if name = ''su'' then iSu argv sh
     else if name \<in> {''python'', ''python2'', ''python3'', ''perl'', ''ruby''} then iInterp argv sh
     else if name \<in> {''gcc'', ''cc'', ''g++'', ''make''} then iCompile argv sh
     else if name \<in> {''apt'', ''apt-get'', ''aptitude''} then iApt w argv sh
     else if name \<in> {''pip'', ''pip3''} then iPip argv sh
     else if name = ''rsync'' then iRsync argv sh
     else if name = ''passwd'' then iPasswd argv sh
     else if name \<in> {''vi'', ''vim'', ''vim.basic'', ''nano''} then iEditor w argv sh
     else if name = ''crontab'' then iCrontab argv sh
     else if name = ''find'' then iFind (w_expired w) argv sh
     else if name \<in> {''top'', ''htop''} then iTop w sh
     else if name = ''mysql'' then iMysql argv sh
     else if name = ''tar'' then iTar argv sh
     else if name \<in> {''jp2a'', ''catimg'', ''chafa'', ''img2txt'', ''asciiview'', ''aview'', ''cacaview''} then iAsciiView w argv sh
     else if name \<in> {''vault'', ''passwords'', ''pass'', ''wallet'', ''balance'', ''balances'', ''secrets'', ''keepass'', ''lpass'', ''gopass'', ''bw''}
       then iVault w argv sh
     else (1, tell (name @ '': terminated'') sh))"

fun shellScript :: "string list \<Rightarrow> string option" where
  "shellScript (a # b # rest) = (if a = ''-c'' then Some b else shellScript (b # rest))"
| "shellScript _ = None"

definition iShExec :: "(string \<Rightarrow> shell \<Rightarrow> shell) \<Rightarrow> world \<Rightarrow> string list \<Rightarrow> shell \<Rightarrow> int \<times> shell" where
  "iShExec rec w argv sh =
    (case shellScript (tl argv) of
       Some inner \<Rightarrow>
         let sh = rec inner (event (\<lambda>i. LogExec i (hd argv @ '' -c: '' @ inner) []) sh) in (sh_last sh, sh)
     | None \<Rightarrow>
         if length argv > 1 \<and> \<not> isFlag (argv ! 1) then
           let full = hd argv @ '' '' @ argv ! 1;
               sh = captureDropper w (argv ! 1) full sh;
               sh = event (\<lambda>i. LogExec i full []) sh
           in (137, tell ''Killed'' sh)
         else (0, sh))"

definition iSSH :: "(Pivot \<Rightarrow> shell \<Rightarrow> shell) \<Rightarrow> string list \<Rightarrow> shell \<Rightarrow> int \<times> shell" where
  "iSSH nest argv sh =
    (let target = firstOr [] (operands argv);
         user = remoteUser target ''root'';
         host = (case IndexByte target (CHR ''@'') of Some i \<Rightarrow> drop (i + 1) target | None \<Rightarrow> target)
     in if host = [] then (255, tell ''usage: ssh [user@]hostname'' sh)
        else let sh = tellAll [''The authenticity of host '' @ [SQUOTE] @ host @ '' ('' @ host @ '')'' @ [SQUOTE] @ '' can'' @ [SQUOTE] @ ''t be established.'',
                   ''ED25519 key fingerprint is '' @ p_SSHKeyFP (sh_p sh) @ ''.'',
                   ''This key is not known by any other names.''] sh;
                 ((ans, ok), sh) = ask ''Are you sure you want to continue connecting (yes/no/[fingerprint])? '' sh
             in if \<not> ok then (255, sh)
                else if TrimSpace ans \<noteq> ''yes'' then (255, tell ''Host key verification failed.'' sh)
                else let sh = tell (''Warning: Permanently added '' @ [SQUOTE] @ host @ [SQUOTE] @ '' (ED25519) to the list of known hosts.'') sh;
                         ((pass, _), sh) = ask (user @ ''@'' @ host @ [SQUOTE] @ ''s password: '') sh;
                         sh = event (\<lambda>i. LogCredential i user pass) (tell [] sh)
                     in case sh_pivot sh of
                          Some resolve \<Rightarrow>
                            (case resolve host of
                               Some piv \<Rightarrow> (0, nest piv sh)
                             | None \<Rightarrow> (255, tell (''ssh: connect to host '' @ host @ '' port 22: Connection timed out'') sh))
                        | None \<Rightarrow> (255, tell (''ssh: connect to host '' @ host @ '' port 22: Connection timed out'') sh))"

definition runInteractive ::
  "(Pivot \<Rightarrow> shell \<Rightarrow> shell) \<Rightarrow> (string \<Rightarrow> shell \<Rightarrow> shell) \<Rightarrow> world \<Rightarrow> string list \<Rightarrow> shell \<Rightarrow> int \<times> shell" where
  "runInteractive nest rec w argv sh =
    (case argv of
       [] \<Rightarrow> (0, sh)
     | name # _ \<Rightarrow>
         if name = ''ssh'' then iSSH nest argv sh
         else if name = ''sh'' \<or> name = ''bash'' then iShExec rec w argv sh
         else takeover w name argv sh)"

section \<open>Statements and lines\<close>

fun assignLoop :: "(string \<Rightarrow> shell \<Rightarrow> string \<times> shell) \<Rightarrow> (string \<times> string) list \<Rightarrow> shell \<Rightarrow> shell" where
  "assignLoop sub [] sh = sh"
| "assignLoop sub ((k, v) # kvs) sh =
    (let (x, sh) = expand sub v sh in assignLoop sub kvs (sh\<lparr>sh_env := mput k x (sh_env sh)\<rparr>))"

fun pipeLoop ::
  "(string \<Rightarrow> shell \<Rightarrow> string \<times> shell) \<Rightarrow> (string \<Rightarrow> shell \<Rightarrow> shell) \<Rightarrow> world \<Rightarrow> stage list \<Rightarrow> string \<Rightarrow> int \<Rightarrow> shell \<Rightarrow> bool \<times> shell" where
  "pipeLoop sub rec w [] stdin c sh = (True, sh\<lparr>sh_last := c\<rparr>)"
| "pipeLoop sub rec w (stg # stgs) stdin c sh =
    (let (argv, sh) = expandStage sub stg sh
     in if argv = [] then pipeLoop sub rec w stgs stdin c sh
        else case runCommand rec w argv stdin sh of
            (None, sh) \<Rightarrow> (False, sh)
          | (Some (out, c'), sh) \<Rightarrow>
              if stgs = [] then pipeLoop sub rec w stgs stdin c' (emit w stg out sh)
              else pipeLoop sub rec w stgs out c' sh)"

definition runStatement ::
  "(Pivot \<Rightarrow> shell \<Rightarrow> shell) \<Rightarrow> world \<Rightarrow> nat \<Rightarrow> (string \<Rightarrow> shell \<Rightarrow> shell) \<Rightarrow> statement \<Rightarrow> shell \<Rightarrow> bool \<times> shell" where
  "runStatement nest w d rec st sh =
    (let sub = cmdSub d rec
     in if stages st = [] then (True, sh)
        else if length (stages st) = 1 \<and> args (hd (stages st)) = [] then
          (True, (assignLoop sub (assigns (hd (stages st))) sh)\<lparr>sh_last := 0\<rparr>)
        else let lst = args (last (stages st))
             in if length (stages st) > 1 \<and> lst \<noteq> [] \<and> (hd lst = ''sh'' \<or> hd lst = ''bash'') then
                  let sh = event (\<lambda>i. LogExec i (''pipe-to-'' @ hd lst @ '': '' @ stageString st) []) sh;
                      (argv, sh) = expandStage sub (hd (stages st)) sh;
                      (_, sh) = runInteractive nest rec w argv sh
                  in (True, sh\<lparr>sh_last := 0\<rparr>)
                else if length (stages st) = 1 then
                  let (argv, sh) = expandStage sub (hd (stages st)) sh
                  in if argv \<noteq> [] \<and> isInteractive (hd argv) then
                       let (c, sh) = runInteractive nest rec w argv sh in (True, sh\<lparr>sh_last := c\<rparr>)
                     else pipeLoop sub rec w (stages st) [] 0 sh
                else pipeLoop sub rec w (stages st) [] 0 sh)"

definition segfault :: string where
  "segfault = ''Segmentation fault (core dumped)''"

fun runStatements :: "(statement \<Rightarrow> shell \<Rightarrow> bool \<times> shell) \<Rightarrow> statement list \<Rightarrow> bool \<Rightarrow> shell \<Rightarrow> shell" where
  "runStatements run [] go sh = sh"
| "runStatements run (st # sts) go sh =
    (case (if go then run st sh else (True, sh)) of
       (False, sh) \<Rightarrow> tell segfault sh
     | (True, sh) \<Rightarrow>
         if go \<and> sh_quit sh then sh
         else runStatements run sts
           (if chain st = ''&&'' then sh_last sh = 0 else if chain st = ''||'' then sh_last sh \<noteq> 0 else True) sh)"

primrec runLine :: "(Pivot \<Rightarrow> shell \<Rightarrow> shell) \<Rightarrow> world \<Rightarrow> nat \<Rightarrow> string \<Rightarrow> shell \<Rightarrow> shell" where
  "runLine nest w 0 line sh = (tell segfault sh)\<lparr>sh_last := 139\<rparr>"
| "runLine nest w (Suc d) line sh = runStatements (runStatement nest w d (runLine nest w d)) (parse line) True sh"

definition runTopLine :: "(Pivot \<Rightarrow> shell \<Rightarrow> shell) \<Rightarrow> world \<Rightarrow> string \<Rightarrow> shell \<Rightarrow> shell" where
  "runTopLine nest w line sh =
    runLine nest w maxExecDepth line (sh\<lparr>sh_expandBudget := maxExpandBytes, sh_subCount := 0\<rparr>)"

section \<open>Sessions\<close>

definition shell_welcome :: "world \<Rightarrow> shell \<Rightarrow> shell" where
  "shell_welcome w sh =
    (let p = sh_p sh;
         sh = onSession (say ([CR, LF] @ ''Welcome to '' @ p_PrettyName p @ '' (GNU/Linux '' @ p_KernelRel p @ '' '' @ p_Arch p @ '')'' @ [CR, LF, CR, LF])) sh
     in tellAll ['' * Documentation:  https://help.ubuntu.com'', '' * Management:     https://landscape.canonical.com'',
          '' * Support:        https://ubuntu.com/pro'', [],
          ''Last login: '' @ fmtLogin (clockOf (w_zone w) (w_now w - 26 * hourNs)) @ '' from '' @ p_GatewayIP p] sh)"

definition countCommand :: "conv \<Rightarrow> conv" where
  "countCommand c = c\<lparr>c_id := (c_id c)\<lparr>se_CmdCount := se_CmdCount (c_id c) + 1\<rparr>\<rparr>"

text \<open>
  The prompt loop, with the number of prompts as fuel; the flag tells that the loop ended by itself.  The
  unread input bounds the prompts (\<open>shellLoop_ends\<close>).
\<close>

primrec shellLoop :: "(string \<Rightarrow> shell \<Rightarrow> shell) \<Rightarrow> nat \<Rightarrow> shell \<Rightarrow> bool \<times> shell" where
  "shellLoop run 0 sh = (False, sh)"
| "shellLoop run (Suc n) sh =
    (if sh_quit sh then (True, sh)
     else case ask (prompt sh) sh of ((line, ok), sh) \<Rightarrow>
       if \<not> ok then (True, sh)
       else let line = TrimSpace line
            in if line = [] then shellLoop run n sh
               else shellLoop run n (run line (event (\<lambda>i. LogCommand i line) (onSession countCommand sh))))"

definition loopFuel :: "shell \<Rightarrow> nat" where
  "loopFuel sh = Suc (length (c_in (sh_s sh)))"

definition interact :: "(Pivot \<Rightarrow> shell \<Rightarrow> shell) \<Rightarrow> world \<Rightarrow> shell \<Rightarrow> bool \<times> shell" where
  "interact nest w sh = (let sh = shell_welcome w sh in shellLoop (runTopLine nest w) (loopFuel sh) sh)"

text \<open>What is left of a shell when its session is released: the conversation and the shared counter.\<close>

definition closeShell :: "shell \<Rightarrow> conv \<times> int" where
  "closeShell sh = (sh_s sh, snd (Release (sh_fs sh) (sh_pool sh)))"

definition noPivot :: "Pivot \<Rightarrow> shell \<Rightarrow> shell" where
  "noPivot piv sh = sh"

text \<open>The shell on a pivot host has no resolver, so it never opens another.\<close>

definition pivotShell :: "world \<Rightarrow> Pivot \<Rightarrow> shell \<Rightarrow> shell" where
  "pivotShell w piv sh =
    (let inner = newShell w (sh_s sh) (sh_pool sh) (pv_FS piv) (pv_P piv) ''root'' (sh_style sh) None;
         (c, pool) = closeShell (snd (interact noPivot w inner))
     in sh\<lparr>sh_s := c, sh_pool := pool\<rparr>)"

definition Run ::
  "world \<Rightarrow> conv \<Rightarrow> int \<Rightarrow> FS \<Rightarrow> Persona \<Rightarrow> string \<Rightarrow> string \<Rightarrow> (string \<Rightarrow> Pivot option) option \<Rightarrow> conv \<times> int" where
  "Run w s pool fs p user style pivot =
    closeShell (snd (interact (pivotShell w) w (newShell w s pool fs p user style pivot)))"

definition exitStatus :: "shell \<Rightarrow> int" where
  "exitStatus sh = (if sh_last sh < 0 then 0 else sh_last sh)"

definition onceShell ::
  "world \<Rightarrow> conv \<Rightarrow> int \<Rightarrow> FS \<Rightarrow> Persona \<Rightarrow> string \<Rightarrow> string \<Rightarrow> (string \<Rightarrow> Pivot option) option \<Rightarrow> string \<Rightarrow> shell" where
  "onceShell w s pool fs p user style pivot line =
    runTopLine (pivotShell w) w line (onSession countCommand (newShell w s pool fs p user style pivot))"

definition RunOnce ::
  "world \<Rightarrow> conv \<Rightarrow> int \<Rightarrow> FS \<Rightarrow> Persona \<Rightarrow> string \<Rightarrow> string \<Rightarrow> (string \<Rightarrow> Pivot option) option \<Rightarrow> string \<Rightarrow> int \<times> conv \<times> int" where
  "RunOnce w s pool fs p user style pivot line =
    (let line = TrimSpace line
     in if line = [] then (0, s, pool)
        else let sh = onceShell w s pool fs p user style pivot line in (exitStatus sh, closeShell sh))"

text \<open>\<^verbatim>\<open>CaptureOutput\<close> diverts what the line writes; the rest of the conversation goes on.\<close>

definition RunOnceCaptured ::
  "world \<Rightarrow> conv \<Rightarrow> int \<Rightarrow> FS \<Rightarrow> Persona \<Rightarrow> string \<Rightarrow> string \<Rightarrow> (string \<Rightarrow> Pivot option) option \<Rightarrow> string \<Rightarrow> (string \<times> int) \<times> conv \<times> int" where
  "RunOnceCaptured w s pool fs p user style pivot line =
    (let line = TrimSpace line
     in if line = [] then (([], 0), s, pool)
        else let sh = onceShell (w\<lparr>w_capturing := True\<rparr>) (s\<lparr>c_out := []\<rparr>) pool fs p user style pivot line;
                 (c, pool') = closeShell sh
             in ((c_out c, exitStatus sh), c\<lparr>c_out := c_out s\<rparr>, pool'))"

end
