(* ===== verification/Auth.thy ===== *)
theory Auth
  imports Complex_Main Prelude
begin

text \<open>
  Who may log in: \<open>Accept\<close>, \<open>AcceptFrom\<close> and the appliance defaults of \<^verbatim>\<open>internal/persona/persona.go\<close>, and
  the per-source brute-force policy of \<^verbatim>\<open>internal/persona/bruteforce.go\<close>.  The clock and the random draw
  of an attempt are arguments; \<^verbatim>\<open>time.Time\<close> zero is \<^const>\<open>None\<close>.  The mutex makes \<open>consider\<close> atomic, so a
  history is a sequence of attempts.
\<close>

section \<open>The brute-force table\<close>

record BruteForceConfig =
  Enabled :: bool
  AfterTries :: int
  After :: int
  Probability :: rat

record srcAuth =
  tries :: int
  first :: "int option"
  accepted :: "string list"

record bruteForce =
  cfg :: BruteForceConfig
  src :: "(string, srcAuth) gomap"

definition maxBruteSources :: int where "maxBruteSources = 50000"

definition credKey :: "string \<Rightarrow> string \<Rightarrow> string" where
  "credKey user pass = user @ NUL # pass"

definition newSrcAuth :: srcAuth where
  "newSrcAuth = \<lparr>tries = 0, first = None, accepted = []\<rparr>"

definition bf_consider :: "int \<Rightarrow> rat \<Rightarrow> string \<Rightarrow> string \<Rightarrow> string \<Rightarrow> bruteForce \<Rightarrow> bool \<times> bruteForce" where
  "bf_consider now draw srcIP user pass b =
     (let known = mget (src b) srcIP
      in if known = None \<and> int (length (src b)) \<ge> maxBruteSources then (False, b)
         else
           let st = (case known of Some st \<Rightarrow> st | None \<Rightarrow> newSrcAuth);
               key = credKey user pass
           in if key \<in> set (accepted st) then (True, b\<lparr>src := mput srcIP st (src b)\<rparr>)
              else
                let st = st\<lparr>tries := tries st + 1,
                            first := (case first st of None \<Rightarrow> Some now | Some t \<Rightarrow> Some t)\<rparr>
                in if tries st \<ge> AfterTries (cfg b) \<and> now - the (first st) \<ge> After (cfg b)
                      \<and> draw < Probability (cfg b)
                   then (True, b\<lparr>src := mput srcIP (st\<lparr>accepted := key # accepted st\<rparr>) (src b)\<rparr>)
                   else (False, b\<lparr>src := mput srcIP st (src b)\<rparr>))"

section \<open>The persona's decision\<close>

text \<open>The fields of \<open>Persona\<close> the decision reads.\<close>

record Accounts =
  Username :: string
  RootPassword :: string
  UserPassword :: string
  Profile :: string
  bf :: "bruteForce option"

definition Accept :: "Accounts \<Rightarrow> string \<Rightarrow> string \<Rightarrow> bool" where
  "Accept p user pass =
     (if user = ''root'' then pass = RootPassword p
      else if user = Username p then pass = UserPassword p
      else False)"

definition knownUser :: "Accounts \<Rightarrow> string \<Rightarrow> bool" where
  "knownUser p name = (name = ''root'' \<or> name = Username p)"

definition SetBruteForce :: "BruteForceConfig \<Rightarrow> Accounts \<Rightarrow> Accounts" where
  "SetBruteForce c p = (if \<not> Enabled c then p\<lparr>bf := None\<rparr> else p\<lparr>bf := Some \<lparr>cfg = c, src = []\<rparr>\<rparr>)"

definition isAppliance :: "Accounts \<Rightarrow> bool" where
  "isAppliance p = (Profile p = ''legacy'')"

definition applianceRootDefaults :: "string list" where
  "applianceRootDefaults =
     [''root'', ''admin'', ''password'', ''pass'', ''default'', ''1234'', ''12345'', ''123456'', ''1111'', ''0000'',
      ''888888'', ''666666'', ''54321'', ''vizxv'', ''xc3511'', ''xmhdipc'', ''juantech'', ''system'', ''realtek'',
      ''klv123'', ''service'', ''supervisor'', ''guest'', ''7ujMko0vizxv'', ''7ujMko0admin'', ''ikwb'', ''dreambox'',
      ''meinsm'', ''hi3518'', ''anko'', ''zlxx.'']"

definition isApplianceDefaultCred :: "string \<Rightarrow> string \<Rightarrow> bool" where
  "isApplianceDefaultCred user pass = (user = ''root'' \<and> pass \<in> set applianceRootDefaults)"

text \<open>\<open>(accepted, bruteForced)\<close> and the persona with its table updated.\<close>

definition AcceptFrom ::
  "int \<Rightarrow> rat \<Rightarrow> string \<Rightarrow> string \<Rightarrow> string \<Rightarrow> Accounts \<Rightarrow> (bool \<times> bool) \<times> Accounts" where
  "AcceptFrom now draw srcIP user pass p =
     (if Accept p user pass then ((True, False), p)
      else case bf p of
          None \<Rightarrow> ((False, False), p)
        | Some b \<Rightarrow>
            if isAppliance p \<and> isApplianceDefaultCred user pass then ((True, False), p)
            else if \<not> knownUser p user then ((False, False), p)
            else case bf_consider now draw srcIP user pass b of
                (True, b') \<Rightarrow> ((True, True), p\<lparr>bf := Some b'\<rparr>)
              | (False, b') \<Rightarrow> ((False, False), p\<lparr>bf := Some b'\<rparr>))"

section \<open>Histories of attempts\<close>

type_synonym attempt = "int \<times> rat \<times> string \<times> string \<times> string"

fun attemptStep :: "attempt \<Rightarrow> bruteForce \<Rightarrow> bruteForce" where
  "attemptStep (now, draw, ip, user, pass) b = snd (bf_consider now draw ip user pass b)"

lemma bf_consider_cfg [simp]: "cfg (snd (bf_consider now draw ip user pass b)) = cfg b"
  by (simp add: bf_consider_def Let_def)

lemma consider_src:
  "src (snd (bf_consider now draw ip user pass b)) = src b \<and> mget (src b) ip = None \<or>
   (\<exists>st. src (snd (bf_consider now draw ip user pass b)) = mput ip st (src b) \<and>
      set (accepted (case mget (src b) ip of Some s \<Rightarrow> s | None \<Rightarrow> newSrcAuth)) \<subseteq> set (accepted st) \<and>
      (mget (src b) ip \<noteq> None \<or> int (length (src b)) < maxBruteSources))"
  by (auto simp: bf_consider_def Let_def newSrcAuth_def)

interpretation brute_table: bounded_steps "\<lambda>b. int (length (src b))" maxBruteSources attemptStep
proof (unfold_locales, goal_cases)
  case (1 b a)
  obtain now draw ip user pass where a: "a = (now, draw, ip, user, pass)" by (metis prod_cases5)
  from consider_src [of now draw ip user pass b] 1 show ?case
    unfolding a by (auto simp: length_mput split: option.splits)
qed

text \<open>The credential works for the source: it was accepted for it earlier.\<close>

definition cracked :: "string \<Rightarrow> string \<Rightarrow> string \<Rightarrow> bruteForce \<Rightarrow> bool" where
  "cracked ip user pass b =
     (case mget (src b) ip of Some st \<Rightarrow> credKey user pass \<in> set (accepted st) | None \<Rightarrow> False)"

interpretation brute_memory: monotone_steps "cracked ip user pass" attemptStep
proof (unfold_locales, goal_cases)
  case (1 b a)
  obtain now draw ip' user' pass' where a: "a = (now, draw, ip', user', pass')" by (metis prod_cases5)
  from consider_src [of now draw ip' user' pass' b] 1 show ?case
    unfolding a by (auto simp: cracked_def split: option.splits if_splits)
qed

lemma consider_cracked: "cracked ip user pass b \<Longrightarrow> fst (bf_consider now draw ip user pass b)"
  by (auto simp: cracked_def bf_consider_def Let_def split: option.splits)

lemma consider_accepts: "fst (bf_consider now draw ip user pass b) \<Longrightarrow> cracked ip user pass (snd (bf_consider now draw ip user pass b))"
  by (auto simp: cracked_def bf_consider_def Let_def split: option.splits if_splits)

text \<open>How the attempts of one source are counted and timed.\<close>

definition attemptsFrom :: "string \<Rightarrow> attempt list \<Rightarrow> attempt list" where
  "attemptsFrom ip as = filter (\<lambda>(now, draw, ip', user, pass). ip' = ip) as"

definition triesOf :: "string \<Rightarrow> bruteForce \<Rightarrow> int" where
  "triesOf ip b = (case mget (src b) ip of Some st \<Rightarrow> tries st | None \<Rightarrow> 0)"

lemma consider_tries:
  "triesOf ip (snd (bf_consider now draw ip' user pass b)) \<le> triesOf ip b + (if ip' = ip then 1 else 0)"
  by (cases "ip' = ip"; cases "mget (src b) ip'")
    (simp_all add: triesOf_def bf_consider_def Let_def newSrcAuth_def split: option.split)

lemma tries_le_attempts: "triesOf ip (fold attemptStep as b) \<le> triesOf ip b + int (length (attemptsFrom ip as))"
proof (induction as arbitrary: b)
  case (Cons a as)
  obtain now draw ip' user pass where a: "a = (now, draw, ip', user, pass)" by (metis prod_cases5)
  from Cons [of "attemptStep a b"] consider_tries [of ip now draw ip' user pass b] show ?case
    unfolding a by (auto simp: attemptsFrom_def split: if_splits)
qed (simp add: attemptsFrom_def)

lemma consider_needs_tries:
  assumes "fst (bf_consider now draw ip user pass b)" "\<not> cracked ip user pass b"
  shows "AfterTries (cfg b) \<le> triesOf ip b + 1 \<and> draw < Probability (cfg b)"
  using assms
  by (auto simp: bf_consider_def cracked_def triesOf_def newSrcAuth_def Let_def split: option.splits if_splits)

lemma fold_cfg: "cfg (fold attemptStep as b) = cfg b"
proof (induction as arbitrary: b)
  case (Cons a as)
  obtain now draw ip' user pass where "a = (now, draw, ip', user, pass)" by (metis prod_cases5)
  with Cons show ?case by simp
qed simp

definition newBruteForce :: "BruteForceConfig \<Rightarrow> bruteForce" where
  "newBruteForce c = \<lparr>cfg = c, src = []\<rparr>"

text \<open>
  C18: whatever the history of attempts, the table holds at most the maximum of sources; a source is let
  in with a new credential only after the configured number of attempts of its own; and a credential that
  worked once for a source works for it for ever after, through any later attempts of anyone.
\<close>

theorem brute_force_policy:
  fixes c :: BruteForceConfig
  defines "b \<equiv> \<lambda>as. fold attemptStep as (newBruteForce c)"
  shows "int (length (src (b as))) \<le> maxBruteSources \<and>
    (fst (bf_consider now draw ip user pass (b as)) \<and> \<not> cracked ip user pass (b as) \<longrightarrow>
       AfterTries c \<le> int (length (attemptsFrom ip as)) + 1 \<and> draw < Probability c) \<and>
    (fst (bf_consider now draw ip user pass (b as)) \<longrightarrow>
       fst (bf_consider now' draw' ip user pass (b (as @ (now, draw, ip, user, pass) # as'))))"
proof (intro conjI impI)
  show "int (length (src (b as))) \<le> maxBruteSources"
    unfolding b_def by (rule brute_table.history_bounded) (simp add: newBruteForce_def maxBruteSources_def)
next
  assume a: "fst (bf_consider now draw ip user pass (b as)) \<and> \<not> cracked ip user pass (b as)"
  have "cfg (b as) = c" by (simp add: b_def fold_cfg newBruteForce_def)
  with consider_needs_tries [of now draw ip user pass "b as"] a
  have r: "AfterTries c \<le> triesOf ip (b as) + 1" "draw < Probability c" by auto
  have "triesOf ip (b as) \<le> int (length (attemptsFrom ip as))"
    using tries_le_attempts [of ip as "newBruteForce c"] by (simp add: b_def triesOf_def newBruteForce_def)
  with r show "AfterTries c \<le> int (length (attemptsFrom ip as)) + 1" "draw < Probability c" by auto
next
  assume "fst (bf_consider now draw ip user pass (b as))"
  then have "cracked ip user pass (fold attemptStep as' (snd (bf_consider now draw ip user pass (b as))))"
    by (intro brute_memory.history_keeps consider_accepts)
  then have "cracked ip user pass (b (as @ (now, draw, ip, user, pass) # as'))"
    by (simp add: b_def)
  then show "fst (bf_consider now' draw' ip user pass (b (as @ (now, draw, ip, user, pass) # as')))"
    by (rule consider_cracked)
qed

lemma brute_force_policy_witness:
  "fst (bf_consider 9 1 ''a'' ''root'' ''x'' (fold attemptStep ([(0, 0, ''a'', ''root'', ''w'')] @ (5, 0, ''a'', ''root'', ''x'') # [(6, 1, ''b'', ''root'', ''x'')])
      (newBruteForce \<lparr>Enabled = True, AfterTries = 2, After = 3, Probability = 1 / 2\<rparr>)))"
proof -
  let ?c = "\<lparr>Enabled = True, AfterTries = 2, After = 3, Probability = 1 / 2\<rparr>"
  have "fst (bf_consider 5 0 ''a'' ''root'' ''x'' (fold attemptStep [(0, 0, ''a'', ''root'', ''w'')] (newBruteForce ?c)))"
    by (simp add: newBruteForce_def bf_consider_def newSrcAuth_def credKey_def maxBruteSources_def)
  then show ?thesis
    using brute_force_policy [of "[(0, 0, ''a'', ''root'', ''w'')]" ?c 5 0 "''a''" "''root''" "''x''" 9 1
        "[(6, 1, ''b'', ''root'', ''x'')]"] by blast
qed

text \<open>
  Without the policy a login succeeds exactly with an account of the host and its own password; with
  it the real password still always works and is never counted as brute force, and only an account of the
  host is ever let in.
\<close>

theorem accept_from_sound:
  "(bf p = None \<longrightarrow> AcceptFrom now draw ip user pass p = ((Accept p user pass, False), p)) \<and>
   (Accept p user pass \<longrightarrow> fst (AcceptFrom now draw ip user pass p) = (True, False)) \<and>
   (fst (fst (AcceptFrom now draw ip user pass p)) \<longrightarrow> knownUser p user) \<and>
   (snd (fst (AcceptFrom now draw ip user pass p)) \<longrightarrow>
      fst (fst (AcceptFrom now draw ip user pass p)) \<and> bf p \<noteq> None)"
  by (auto simp: AcceptFrom_def Accept_def knownUser_def isApplianceDefaultCred_def
      split: option.splits prod.splits bool.splits if_splits)

end
