(* ===== verification/Telnet.thy ===== *)
theory Telnet
  imports Conversation Auth
begin

text \<open>
  The telnet service (\<^verbatim>\<open>internal/proto/telnet/telnet.go\<close>): the reader that strips option negotiation from the
  client's bytes, the login dialogue and the IOS-style prompt.  The shell that a successful login enters is
  a parameter; sleeps only pass time.  The socket's bytes end where the peer closes or a deadline passes.
\<close>

section \<open>Stripping negotiation\<close>

definition IAC :: char where "IAC = CHR 0xFF"
definition SE :: char where "SE = CHR 0xF0"
definition SB :: char where "SB = CHR 0xFA"
definition WILL :: char where "WILL = CHR 0xFB"
definition WONT :: char where "WONT = CHR 0xFC"
definition DO :: char where "DO = CHR 0xFD"
definition DONT :: char where "DONT = CHR 0xFE"
definition optEcho :: char where "optEcho = CHR 0x01"
definition optSGA :: char where "optSGA = CHR 0x03"
definition optTType :: char where "optTType = CHR 0x18"
definition optNaws :: char where "optNaws = CHR 0x1F"
definition optTSpeed :: char where "optTSpeed = CHR 0x20"
definition optXDisploc :: char where "optXDisploc = CHR 0x23"
definition optNewEnviron :: char where "optNewEnviron = CHR 0x27"

lemmas telnet_chars = IAC_def SE_def SB_def WILL_def WONT_def DO_def DONT_def optEcho_def optSGA_def optTType_def
  optNaws_def optTSpeed_def optXDisploc_def optNewEnviron_def

definition maxSubnegLen :: nat where "maxSubnegLen = 256"
definition maxNegotiations :: nat where "maxNegotiations = 512"
definition loginAttempts :: nat where "loginAttempts = 3"

datatype read_error = EndOfInput | OversizedSubneg | NegotiationFlood

definition negotiate :: "char \<Rightarrow> char \<Rightarrow> bytes" where
  "negotiate cmd opt =
     (if cmd = DO then (if opt = optEcho \<or> opt = optSGA then [] else [IAC, WONT, opt])
      else if cmd = WILL then
        (if opt \<in> {optNaws, optTType, optTSpeed, optXDisploc, optNewEnviron} then [] else [IAC, DONT, opt])
      else [])"

text \<open>The scan for IAC SE; the first argument counts the bytes it may still take.\<close>

fun subneg :: "nat \<Rightarrow> bytes \<Rightarrow> read_error option \<times> bytes" where
  "subneg 0 inp = (Some OversizedSubneg, inp)"
| "subneg (Suc k) [] = (Some EndOfInput, [])"
| "subneg (Suc k) (x # inp) =
     (if x = IAC then
        (case inp of [] \<Rightarrow> (Some EndOfInput, []) | y # inp' \<Rightarrow> if y = SE then (None, inp') else subneg k inp')
      else subneg k inp)"

lemma subneg_length: "subneg k inp = (r, rest) \<Longrightarrow> length rest \<le> length inp"
  by (induction k inp rule: subneg.induct) (auto split: if_splits list.splits)

definition atEnd :: "bytes \<Rightarrow> bytes \<times> read_error option" where
  "atEnd got = (got, if got = [] then Some EndOfInput else None)"

text \<open>
  One call of \<open>Read\<close> with room for \<open>cap\<close> bytes: what was delivered, the error, the bytes left and the
  replies sent.
\<close>

function iacRead :: "nat \<Rightarrow> nat \<Rightarrow> bytes \<Rightarrow> bytes \<Rightarrow> (bytes \<times> read_error option) \<times> bytes \<times> bytes list" where
  "iacRead cap negs got inp =
     (if length got \<ge> cap then ((got, None), inp, [])
      else case inp of
        [] \<Rightarrow> (atEnd got, [], [])
      | b # inp1 \<Rightarrow>
          if b \<noteq> IAC then (if b = LF then ((got @ [b], None), inp1, []) else iacRead cap negs (got @ [b]) inp1)
          else case inp1 of
            [] \<Rightarrow> (atEnd got, [], [])
          | c # inp2 \<Rightarrow>
              if c = IAC then iacRead cap negs (got @ [IAC]) inp2
              else if c = WILL \<or> c = WONT \<or> c = DO \<or> c = DONT then
                (case inp2 of
                   [] \<Rightarrow> (atEnd got, [], [])
                 | opt # inp3 \<Rightarrow>
                     if negs + 1 > maxNegotiations then ((got, Some NegotiationFlood), inp3, [negotiate c opt])
                     else (case iacRead cap (negs + 1) got inp3 of (r, rest, reps) \<Rightarrow> (r, rest, negotiate c opt # reps)))
              else if c = SB then
                (case subneg (maxSubnegLen + 1) inp2 of
                   (Some e, rest) \<Rightarrow> ((got, Some e), rest, [])
                 | (None, rest) \<Rightarrow> iacRead cap negs got rest)
              else iacRead cap negs got inp2)"
  by pat_completeness auto
termination
  by (relation "measure (\<lambda>(cap, negs, got, inp). length inp)") (auto dest!: subneg_length [OF sym])

declare iacRead.simps [simp del]

section \<open>Login\<close>

definition accountsOf :: "Persona \<Rightarrow> bruteForce option \<Rightarrow> Accounts" where
  "accountsOf p b = \<lparr>Username = p_Username p, RootPassword = p_RootPassword p, UserPassword = p_UserPassword p,
     Profile = p_Profile p, bf = b\<rparr>"

fun readUsername :: "nat \<Rightarrow> Persona \<Rightarrow> conv \<Rightarrow> string option \<times> conv" where
  "readUsername 0 p c = (None, c)"
| "readUsername (Suc k) p c =
     (case Prompt (p_Hostname p @ '' login: '') c of
        ((u, False), c') \<Rightarrow> (None, c')
      | ((u, True), c') \<Rightarrow> if TrimSpace u \<noteq> [] then (Some (TrimSpace u), c') else readUsername k p c')"

definition loginUser :: "Persona \<Rightarrow> string \<Rightarrow> string" where
  "loginUser p typed = (if typed = p_Username p then p_Username p else ''root'')"

definition telnet_banner :: "Persona \<Rightarrow> string" where
  "telnet_banner p =
     [CR, LF] @ ''Ubuntu '' @ TrimPrefix (p_PrettyName p) ''Ubuntu '' @ '' '' @ p_Hostname p @ '' ttyS0'' @ [CR, LF, CR, LF]"

definition openingBurst :: bytes where
  "openingBurst = [IAC, DO, optTType, IAC, DO, optTSpeed, IAC, DO, optXDisploc, IAC, DO, optNewEnviron, IAC, WILL, optSGA, IAC, DO, optNaws]"

text \<open>
  The attempts left, the clock and the random draw of each, the conversation and the accounts; the result
  is the account to run a shell for, if any.
\<close>

fun loginLoop :: "nat \<Rightarrow> (nat \<Rightarrow> int \<times> rat) \<Rightarrow> Persona \<Rightarrow> conv \<Rightarrow> Accounts \<Rightarrow> string option \<times> conv \<times> Accounts" where
  "loginLoop 0 clock p c a = (None, c, a)"
| "loginLoop (Suc k) clock p c a =
     (case readUsername 64 p c of
        (None, c1) \<Rightarrow> (None, c1, a)
      | (Some user, c1) \<Rightarrow>
          (case Prompt ''Password: '' (say [IAC, WILL, optEcho] (setUsername user c1)) of
             ((pass, ok), c2) \<Rightarrow>
               let c3 = say [IAC, WONT, optEcho] c2
               in if \<not> ok then (None, c3, a)
                  else case AcceptFrom (fst (clock k)) (snd (clock k)) (se_SrcIP (c_id c3)) user pass a of
                    ((let_in, bruteForced), a') \<Rightarrow>
                      let c4 = record_event (\<lambda>i. LogCredentialResult i user pass let_in bruteForced) (say [CR, LF] c3)
                      in if let_in then (Some (loginUser p user), c4, a')
                         else loginLoop k clock p (say (''Login incorrect'' @ [CR, LF, CR, LF]) c4) a'))"

section \<open>The IOS-style prompt\<close>

definition ciscoReply :: "string \<Rightarrow> string \<Rightarrow> conv \<Rightarrow> conv" where
  "ciscoReply host cmd c =
     (if HasPrefix cmd ''en'' then sayln ''% Access denied'' c
      else if HasPrefix cmd ''show ver'' then
        sayln (host @ '' uptime is 41 weeks, 2 days'')
          (sayln ''Cisco IOS Software, C2900 Software, Version 15.7(3)M6, RELEASE SOFTWARE'' c)
      else if HasPrefix cmd ''show run'' then sayln ''% Incomplete command.'' c
      else sayln ''% Unknown command or computer name, or unable to find computer address'' c)"

lemma ciscoReply_in [simp]: "c_in (ciscoReply host cmd c) = c_in c"
  by (auto simp: ciscoReply_def sayln_def say_def)

lemma record_event_in [simp]: "c_in (record_event f c) = c_in c"
  by (simp add: record_event_def)

function ciscoLoop :: "string \<Rightarrow> conv \<Rightarrow> conv" where
  "ciscoLoop host c =
     (case Prompt (host @ ''>'') c of
        ((line, False), c') \<Rightarrow> c'
      | ((line, True), c') \<Rightarrow>
          let cmd = TrimSpace line
          in if cmd = [] then ciscoLoop host c'
             else let c'' = record_event (\<lambda>i. LogCommand i cmd) c'
                  in if cmd = ''exit'' \<or> cmd = ''logout'' \<or> cmd = ''quit'' then c''
                     else ciscoLoop host (ciscoReply host cmd c''))"
  by pat_completeness auto
termination
  by (relation "measure (\<lambda>(h, c). length (c_in c))") (auto dest!: Prompt_shorter [OF sym])

declare ciscoLoop.simps [simp del]

definition cisco :: "Persona \<Rightarrow> conv \<Rightarrow> conv" where
  "cisco p c =
     (case Prompt ''Username: '' (sayln [] (sayln ''User Access Verification'' (sayln [] (sayln [] c)))) of
        ((user, False), c1) \<Rightarrow> c1
      | ((user, True), c1) \<Rightarrow>
          (case Prompt ''Password: '' (say [IAC, WILL, optEcho] c1) of
             ((pass, ok), c2) \<Rightarrow>
               let c3 = say [IAC, WONT, optEcho] c2
               in if \<not> ok then c3
                  else ciscoLoop (p_Hostname p) (record_event (\<lambda>i. LogCredential i (TrimSpace user) pass) (say [CR, LF] c3))))"

text \<open>The handler, over the input with the negotiation already stripped.\<close>

definition telnet_Handle :: "(string \<Rightarrow> conv \<Rightarrow> conv) \<Rightarrow> (nat \<Rightarrow> int \<times> rat) \<Rightarrow> Persona \<Rightarrow> string \<Rightarrow> Accounts \<Rightarrow> SessionID \<Rightarrow> string \<Rightarrow> conv \<times> Accounts" where
  "telnet_Handle shellRun clock p style a s input =
     (let c = say openingBurst (setPersona (p_Hostname p) (opened s input))
      in if style = ''cisco'' then (cisco p c, a)
         else case loginLoop loginAttempts clock p (say (telnet_banner p) c) a of
                (None, c', a') \<Rightarrow> (c', a')
              | (Some user, c', a') \<Rightarrow> (shellRun user c', a'))"

section \<open>What the reader delivers and sends\<close>

text \<open>A client's stream: data bytes, option commands and subnegotiations.\<close>

datatype item = Data char | Opt char char | Sub bytes

fun itemBytes :: "item \<Rightarrow> bytes" where
  "itemBytes (Data c) = (if c = IAC then [IAC, IAC] else [c])"
| "itemBytes (Opt c opt) = [IAC, c, opt]"
| "itemBytes (Sub b) = [IAC, SB] @ b @ [IAC, SE]"

fun itemData :: "item \<Rightarrow> bytes" where
  "itemData (Data c) = [c]"
| "itemData _ = []"

fun itemReplies :: "item \<Rightarrow> bytes list" where
  "itemReplies (Opt c opt) = [negotiate c opt]"
| "itemReplies _ = []"

fun itemOk :: "item \<Rightarrow> bool" where
  "itemOk (Data c) = (c \<noteq> LF)"
| "itemOk (Opt c opt) = (c \<in> {WILL, WONT, DO, DONT})"
| "itemOk (Sub b) = (IAC \<notin> set b \<and> length b \<le> maxSubnegLen)"

lemma subneg_found: "IAC \<notin> set b \<Longrightarrow> length b < k \<Longrightarrow> subneg k (b @ IAC # SE # r) = (None, r)"
proof (induction b arbitrary: k)
  case Nil
  then show ?case by (cases k) auto
next
  case (Cons x b)
  then show ?case by (cases k) auto
qed

lemma iacRead_items:
  assumes "list_all itemOk items" "negs + length (concat (map itemReplies items)) \<le> maxNegotiations"
    "length got + length (concat (map itemData items)) < cap"
  shows "iacRead cap negs got (concat (map itemBytes items) @ LF # rest) =
    ((got @ concat (map itemData items) @ [LF], None), rest, concat (map itemReplies items))"
  using assms
proof (induction items arbitrary: negs got)
  case Nil
  then show ?case by (subst iacRead.simps) (simp add: telnet_chars LF_def)
next
  case (Cons i items)
  let ?tail = "concat (map itemBytes items) @ LF # rest"
  show ?case
  proof (cases i)
    case (Data c)
    then have "iacRead cap negs got (concat (map itemBytes (i # items)) @ LF # rest) = iacRead cap negs (got @ [c]) ?tail"
      using Cons.prems by (subst iacRead.simps) auto
    then show ?thesis using Cons.IH [of negs "got @ [c]"] Cons.prems Data by simp
  next
    case (Opt c opt)
    have "c \<noteq> IAC" "c \<noteq> SB" using Opt Cons.prems(1) by (auto simp: telnet_chars)
    then have "iacRead cap negs got (concat (map itemBytes (i # items)) @ LF # rest) =
        (case iacRead cap (negs + 1) got ?tail of (r, rest, reps) \<Rightarrow> (r, rest, negotiate c opt # reps))"
      using Cons.prems Opt by (subst iacRead.simps) auto
    then show ?thesis using Cons.IH [of "negs + 1" got] Cons.prems Opt by simp
  next
    case (Sub b)
    have "SB \<noteq> IAC" "SB \<notin> {WILL, WONT, DO, DONT}" by (auto simp: telnet_chars)
    moreover have "subneg (maxSubnegLen + 1) (b @ IAC # SE # ?tail) = (None, ?tail)"
      using Cons.prems(1) Sub by (intro subneg_found) auto
    ultimately have "iacRead cap negs got (concat (map itemBytes (i # items)) @ LF # rest) = iacRead cap negs got ?tail"
      using Cons.prems Sub by (subst iacRead.simps) auto
    then show ?thesis using Cons.IH [of negs got] Cons.prems Sub by simp
  qed
qed



text \<open>One round of the reader: it stops, or goes on with less input.\<close>

lemma iacRead_round:
  assumes "iacRead cap negs got inp = (r, rest, reps)"
  obtains "reps = []"
  | c opt where "reps = [negotiate c opt]"
  | got' inp' where "length inp' < length inp" "iacRead cap negs got' inp' = (r, rest, reps)"
  | c opt inp' reps' where "length inp' < length inp" "negs + 1 \<le> maxNegotiations" "iacRead cap (negs + 1) got inp' = (r, rest, reps')"
      "reps = negotiate c opt # reps'"
proof (cases "length got \<ge> cap")
  case True
  then show thesis using assms that(1) by (subst (asm) iacRead.simps) simp
next
  case cap: False
  show thesis
  proof (cases inp)
    case Nil
    then show thesis using assms that(1) cap by (subst (asm) iacRead.simps) simp
  next
    case (Cons b in1)
    show thesis
    proof (cases "b = IAC \<and> in1 \<noteq> []")
      case False
      then show thesis using assms cap Cons that(1) that(3) [of in1 "got @ [b]"]
        by (subst (asm) iacRead.simps) (auto split: if_splits)
    next
      case True
      then obtain c in2 where in1: "in1 = c # in2" by (cases in1) auto
      have here: "iacRead cap negs got inp =
          (if c = IAC then iacRead cap negs (got @ [IAC]) in2
           else if c = WILL \<or> c = WONT \<or> c = DO \<or> c = DONT then
             (case in2 of [] \<Rightarrow> (atEnd got, [], [])
              | opt # in3 \<Rightarrow>
                  if negs + 1 > maxNegotiations then ((got, Some NegotiationFlood), in3, [negotiate c opt])
                  else (case iacRead cap (negs + 1) got in3 of (r, rest, reps) \<Rightarrow> (r, rest, negotiate c opt # reps)))
           else if c = SB then
             (case subneg (maxSubnegLen + 1) in2 of (Some e, rest) \<Rightarrow> ((got, Some e), rest, []) | (None, rest) \<Rightarrow> iacRead cap negs got rest)
           else iacRead cap negs got in2)"
        using cap Cons True in1 by (subst iacRead.simps) simp
      have len: "length in2 < length inp" using Cons in1 by simp
      show thesis
      proof (cases "c = IAC \<or> \<not> (c = WILL \<or> c = WONT \<or> c = DO \<or> c = DONT) \<and> c \<noteq> SB")
        case True
        then show thesis using assms here len that(3) by (auto split: if_splits)
      next
        case False
        show thesis
        proof (cases "c = SB")
          case True
          have "SB \<noteq> IAC" "SB \<noteq> WILL" "SB \<noteq> WONT" "SB \<noteq> DO" "SB \<noteq> DONT" by (simp_all add: telnet_chars)
          moreover obtain e in3 where sn: "subneg (maxSubnegLen + 1) in2 = (e, in3)" by (cases "subneg (maxSubnegLen + 1) in2")
          moreover have "length in3 < length inp" using subneg_length [OF sn] len by simp
          ultimately show thesis using assms here True that(1) that(3) [of in3 got] by (cases e) simp_all
        next
          case False
          with \<open>\<not> (c = IAC \<or> \<not> (c = WILL \<or> c = WONT \<or> c = DO \<or> c = DONT) \<and> c \<noteq> SB)\<close>
          have c: "c \<noteq> IAC" "c = WILL \<or> c = WONT \<or> c = DO \<or> c = DONT" by auto
          show thesis
          proof (cases in2)
            case Nil
            then show thesis using assms here c that(1) by simp
          next
            case (Cons opt in3)
            obtain r' rest' reps' where i: "iacRead cap (negs + 1) got in3 = (r', rest', reps')" by (cases "iacRead cap (negs + 1) got in3")
            show thesis
            proof (cases "negs + 1 > maxNegotiations")
              case True
              then show thesis using assms here c Cons that(2) [of c opt] by simp
            next
              case False
              then have "r = r'" "rest = rest'" "reps = negotiate c opt # reps'" using assms here c Cons i by simp_all
              then show thesis using that(4) [of in3 reps' c opt] False i Cons len by simp
            qed
          qed
        qed
      qed
    qed
  qed
qed

lemma iacRead_replies:
  "iacRead cap negs got inp = (r, rest, reps) \<Longrightarrow> negs \<le> maxNegotiations \<Longrightarrow>
     length reps + negs \<le> maxNegotiations + 1 \<and> list_all (\<lambda>b. \<exists>c opt. b = negotiate c opt) reps"
proof (induction "length inp" arbitrary: inp negs got reps rule: less_induct)
  case less
  from less.prems(1) show ?case
  proof (cases rule: iacRead_round)
    case (3 got' inp')
    then show ?thesis using less.hyps less.prems(2) by blast
  next
    case (4 c opt inp' reps')
    then show ?thesis using less.hyps [OF 4(1,3,2)] by auto
  qed (use less.prems(2) in auto)
qed

lemma negotiate_shape:
  "negotiate c opt = [] \<or> (\<exists>o'. negotiate c opt = [IAC, WONT, o'] \<and> o' \<notin> {optEcho, optSGA}) \<or>
     (\<exists>o'. negotiate c opt = [IAC, DONT, o'] \<and> o' \<notin> {optNaws, optTType, optTSpeed, optXDisploc, optNewEnviron})"
proof (cases "negotiate c opt = []")
  case False
  then show ?thesis unfolding negotiate_def by (cases "c = DO") (simp_all split: if_splits)
qed simp

text \<open>
  C30: one read reflects at most one more reply than the allowed number of negotiations, each of at most
  three bytes, and no reply ever answers what the server itself asked for or offered in its opening burst.
\<close>

theorem telnet_reflection_bounded:
  assumes "iacRead cap 0 [] inp = (r, rest, reps)"
  shows "length reps \<le> maxNegotiations + 1 \<and> length (concat reps) \<le> 3 * (maxNegotiations + 1) \<and>
    list_all (\<lambda>b. b = [] \<or> (\<exists>opt. b = [IAC, WONT, opt] \<and> opt \<notin> {optEcho, optSGA}) \<or>
        (\<exists>opt. b = [IAC, DONT, opt] \<and> opt \<notin> {optNaws, optTType, optTSpeed, optXDisploc, optNewEnviron})) reps"
proof -
  have r: "length reps \<le> maxNegotiations + 1" "list_all (\<lambda>b. \<exists>c opt. b = negotiate c opt) reps"
    using iacRead_replies [OF assms] by auto
  have short: "length (negotiate c opt) \<le> 3" for c opt by (simp add: negotiate_def)
  have "length (concat reps) \<le> 3 * length reps"
    using r(2)
  proof (induction reps)
    case (Cons b reps)
    then have "length b \<le> 3" using short by auto
    with Cons show ?case by simp
  qed simp
  moreover have "list_all (\<lambda>b. b = [] \<or> (\<exists>opt. b = [IAC, WONT, opt] \<and> opt \<notin> {optEcho, optSGA}) \<or>
        (\<exists>opt. b = [IAC, DONT, opt] \<and> opt \<notin> {optNaws, optTType, optTSpeed, optXDisploc, optNewEnviron})) reps"
    using r(2) negotiate_shape unfolding list_all_iff by metis
  ultimately show ?thesis using r(1) by simp
qed

lemma telnet_reflection_bounded_witness:
  "length (snd (snd (iacRead 64 0 [] [IAC, DO, optNaws, IAC, WILL, optNaws, LF]))) \<le> maxNegotiations + 1"
proof -
  let ?i = "iacRead 64 0 [] [IAC, DO, optNaws, IAC, WILL, optNaws, LF]"
  have "?i = (fst ?i, fst (snd ?i), snd (snd ?i))" by simp
  from telnet_reflection_bounded [OF this] show ?thesis by blast
qed

section \<open>Who gets a shell\<close>

lemma AcceptFrom_accounts:
  "AcceptFrom now draw ip user pass a = (r, a') \<Longrightarrow>
     Username a' = Username a \<and> RootPassword a' = RootPassword a \<and> UserPassword a' = UserPassword a \<and>
     (bf a = None \<longrightarrow> bf a' = None)"
  by (auto simp: AcceptFrom_def split: if_splits option.splits prod.splits bool.splits)

lemma AcceptFrom_known: "AcceptFrom now draw ip user pass a = ((True, b), a') \<Longrightarrow> knownUser a user \<and> (bf a = None \<longrightarrow> Accept a user pass)"
  by (auto simp: AcceptFrom_def Accept_def knownUser_def isApplianceDefaultCred_def split: if_splits option.splits prod.splits bool.splits)

lemma say_log [simp]: "c_log (say x c) = c_log c" "c_id (say x c) = c_id c" "c_log (setUsername u c) = c_log c"
  by (simp_all add: say_def setUsername_def)

lemma Prompt_log: "Prompt l c = (r, c') \<Longrightarrow> c_log c' = c_log c \<and> c_id c' = c_id c"
  by (auto simp: Prompt_def getLine_def say_def split: prod.splits)

lemma readUsername_log: "readUsername k p c = (r, c') \<Longrightarrow> c_log c' = c_log c \<and> (\<forall>u. r = Some u \<longrightarrow> u \<noteq> [])"
proof (induction k arbitrary: c)
  case (Suc k)
  obtain u ok c1 where pr: "Prompt (p_Hostname p @ '' login: '') c = ((u, ok), c1)" by (metis prod.collapse)
  show ?case
  proof (cases "ok \<and> TrimSpace u = []")
    case True
    then have "readUsername k p c1 = (r, c')" using Suc.prems pr by simp
    from Suc.IH [OF this] Prompt_log [OF pr] show ?thesis by simp
  next
    case False
    then show ?thesis using Suc.prems pr Prompt_log [OF pr] by (cases ok) auto
  qed
qed simp

definition rejected :: "Entry \<Rightarrow> bool" where
  "rejected e \<longleftrightarrow> e_Event e = ''CREDENTIAL'' \<and> e_Note e = ''rejected''"

definition admitted :: "Accounts \<Rightarrow> string \<Rightarrow> Entry \<Rightarrow> bool" where
  "admitted a u e \<longleftrightarrow> e_Event e = ''CREDENTIAL'' \<and> e_Note e \<in> {''accepted'', ''accepted (brute-forced)''} \<and> knownUser a (e_Username e) \<and>
     (bf a = None \<longrightarrow> Accept a (e_Username e) (e_Password e)) \<and> (u = e_Username e \<or> u = ''root'')"

lemma knownUser_cong: "Username a' = Username a \<Longrightarrow> knownUser a' u = knownUser a u"
  by (simp add: knownUser_def)

lemma Accept_cong:
  "Username a' = Username a \<Longrightarrow> RootPassword a' = RootPassword a \<Longrightarrow> UserPassword a' = UserPassword a \<Longrightarrow> Accept a' u w = Accept a u w"
  by (simp add: Accept_def)

lemma loginLoop_logs:
  "loginLoop k clock p c a = (r, c', a') \<Longrightarrow>
     \<exists>es. c_log c' = c_log c @ es \<and> length es \<le> k \<and>
       (case r of None \<Rightarrow> list_all rejected es
        | Some u \<Rightarrow> es \<noteq> [] \<and> list_all rejected (butlast es) \<and> admitted a u (last es))"
proof (induction k arbitrary: c a r c' a')
  case 0
  then show ?case by simp
next
  case (Suc k)
  obtain ru c1 where ru: "readUsername 64 p c = (ru, c1)" by (cases "readUsername 64 p c")
  have l1: "c_log c1 = c_log c" using readUsername_log [OF ru] by simp
  show ?case
  proof (cases ru)
    case None
    then show ?thesis using Suc.prems ru l1 by simp
  next
    case (Some user)
    obtain pass ok c2 where pr: "Prompt ''Password: '' (say [IAC, WILL, optEcho] (setUsername user c1)) = ((pass, ok), c2)"
      by (metis prod.collapse)
    have l2: "c_log c2 = c_log c" using Prompt_log [OF pr] l1 by simp
    obtain acc bfd a1 where af: "AcceptFrom (fst (clock k)) (snd (clock k)) (se_SrcIP (c_id (say [IAC, WONT, optEcho] c2))) user pass a = ((acc, bfd), a1)"
      by (metis prod.collapse)
    let ?e = "LogCredentialResult (c_id c2) user pass acc bfd"
    let ?c4 = "record_event (\<lambda>i. LogCredentialResult i user pass acc bfd) (say [CR, LF] (say [IAC, WONT, optEcho] c2))"
    have l4: "c_log ?c4 = c_log c @ [?e]" using l2 by (simp add: record_event_def)
    consider "\<not> ok" | "ok" "acc" | "ok" "\<not> acc" by blast
    then show ?thesis
    proof cases
      case 1
      then show ?thesis using Suc.prems ru Some pr l2 by (auto simp: Let_def)
    next
      case 2
      then have "r = Some (loginUser p user)" "c' = ?c4" using Suc.prems ru Some pr af by (simp_all add: Let_def)
      moreover have "admitted a (loginUser p user) ?e"
        using AcceptFrom_known [of _ _ _ user pass a bfd a1] af 2
        by (auto simp: admitted_def LogCredentialResult_def loginUser_def)
      ultimately show ?thesis using l4 by (intro exI [of _ "[?e]"]) simp
    next
      case 3
      then have "loginLoop k clock p (say (''Login incorrect'' @ [CR, LF, CR, LF]) ?c4) a1 = (r, c', a')"
        using Suc.prems ru Some pr af by (simp add: Let_def)
      from Suc.IH [OF this] obtain es where es: "c_log c' = c_log ?c4 @ es" "length es \<le> k"
        "case r of None \<Rightarrow> list_all rejected es | Some u \<Rightarrow> es \<noteq> [] \<and> list_all rejected (butlast es) \<and> admitted a1 u (last es)"
        by auto
      have bfd: "\<not> bfd" using af 3 by (auto simp: AcceptFrom_def split: if_splits option.splits prod.splits bool.splits)
      have rej: "rejected ?e" using 3 bfd by (simp add: rejected_def LogCredentialResult_def)
      have "admitted a1 u e \<Longrightarrow> admitted a u e" for u e
        using AcceptFrom_accounts [OF af] knownUser_cong [of a1 a] Accept_cong [of a1 a] by (auto simp: admitted_def)
      with es rej l4 show ?thesis by (intro exI [of _ "?e # es"]) (auto split: option.splits)
    qed
  qed
qed



end
