(* ===== verification/ShellProps.thy ===== *)
theory ShellProps
  imports ShellRun Telnet
begin

text \<open>
  What the interpreter guarantees.  A runner of nested lines is trusted only with \<open>evolves\<close> (locale
  \<open>line_runner\<close>); under that contract expansion, commands, pipelines and statements satisfy it too, so the
  interpreter provides it at every depth by induction, and the interpretation instantiates the locale with
  \<open>runLine\<close> itself.  On top of it: a line's substitutions stay within one budget, a session's prompt loop ends
  with its input, a shell leaves the host's files and other sessions' accounts alone, and a payload that
  was assembled byte by byte is recorded as it would have run.
\<close>

section \<open>Numbers are short\<close>

lemma natDigits_length: "0 \<le> n \<Longrightarrow> n < 10 ^ k \<Longrightarrow> 0 < k \<Longrightarrow> length (natDigits n) \<le> k"
proof (induction n arbitrary: k rule: natDigits.induct)
  case (1 n)
  show ?case
  proof (cases "n < 10")
    case True
    with 1 show ?thesis by (simp add: natDigits.simps [of n])
  next
    case False
    obtain j where k: "k = Suc j" using "1.prems" by (cases k) auto
    have "0 < j" using False "1.prems" k by (cases j) auto
    moreover have "n < 10 * X \<Longrightarrow> n div 10 < X" for X :: int by presburger
    then have "n div 10 < 10 ^ j" using "1.prems"(2) k by simp
    ultimately have "length (natDigits (n div 10)) \<le> j" using False "1.prems" by (intro "1.IH") auto
    then show ?thesis using False k by (subst natDigits.simps) simp
  qed
qed

lemma Itoa_length: "int64 n \<Longrightarrow> length (Itoa n) \<le> 20"
  using natDigits_length [of n 19] natDigits_length [of "- n" 19]
  by (auto simp: Itoa_def minInt64_def maxInt64_def)

lemma codeOk_int64: "codeOk n \<Longrightarrow> int64 n"
  by (simp add: codeOk_def minInt64_def maxInt64_def)

section \<open>The budget\<close>

definition debits :: "shell \<Rightarrow> string \<Rightarrow> shell \<Rightarrow> bool" where
  "debits sh out sh' \<longleftrightarrow> evolves sh sh' \<and> int (length out) \<le> sh_expandBudget sh - sh_expandBudget sh'"

definition subOk :: "(string \<Rightarrow> shell \<Rightarrow> string \<times> shell) \<Rightarrow> bool" where
  "subOk sub \<longleftrightarrow> (\<forall>inner sh. case sub inner sh of (out, sh') \<Rightarrow> debits sh out sh')"

lemma takeBudget_debits: "takeBudget s sh = (t, sh') \<Longrightarrow> debits sh t sh'"
  by (auto simp: takeBudget_def debits_def evolves_def sameHost_def spends_def Let_def split: if_splits option.split)

lemma evolves_budget: "evolves sh sh' \<Longrightarrow> sh_expandBudget sh' \<le> sh_expandBudget sh"
  by (simp add: evolves_def spends_def)

lemma evolves_code: "evolves sh sh' \<Longrightarrow> codeOk (sh_last sh) \<Longrightarrow> codeOk (sh_last sh')"
  by (simp add: evolves_def)

definition expandsOk :: "nat \<Rightarrow> shell \<Rightarrow> string \<Rightarrow> shell \<Rightarrow> bool" where
  "expandsOk n sh out sh' \<longleftrightarrow> evolves sh sh' \<and>
     int (length out) + sh_expandBudget sh' \<le> 20 * int n + sh_expandBudget sh"

lemma expandFrom_spec:
  assumes "subOk sub" "expandFrom sub w b sh = (out, sh')"
  shows "evolves sh sh' \<and> (codeOk (sh_last sh) \<longrightarrow>
     int (length out) + sh_expandBudget sh' \<le> int (length b) + 20 * int (length w) + sh_expandBudget sh)"
  using assms(2)
proof (induction w arbitrary: b sh rule: length_induct)
  case (1 w)
  show ?case
  proof (cases w)
    case Nil
    with "1.prems" show ?thesis by (simp add: expandFrom.simps)
  next
    case (Cons c s)
    have go: ?thesis
      if "expandFrom sub r (b @ piece) sh1 = (out, sh')" "evolves sh sh1"
        "codeOk (sh_last sh) \<longrightarrow> int (length piece) + sh_expandBudget sh1 \<le> 20 + sh_expandBudget sh" "length r \<le> length s"
      for r piece sh1
    proof -
      have "length r < length w" using that(4) Cons by simp
      then have "evolves sh1 sh' \<and> (codeOk (sh_last sh1) \<longrightarrow> int (length out) + sh_expandBudget sh' \<le>
          int (length (b @ piece)) + 20 * int (length r) + sh_expandBudget sh1)"
        using "1.IH" that(1) by blast
      then show ?thesis using that Cons evolves_trans evolves_code [OF that(2)] by fastforce
    qed
    have plain: ?thesis if "expandFrom sub r (b @ piece) sh = (out, sh')" "length piece \<le> 20" "length r \<le> length s" for r piece
      using go [OF that(1)] that(2,3) by simp
    have paid: ?thesis if "expandFrom sub r (b @ piece) sh1 = (out, sh')" "debits sh piece sh1" "length r \<le> length s" for r piece sh1
      using go [OF that(1)] that(2,3) by (simp add: debits_def)
    have sub: "debits sh (fst (sub inner sh)) (snd (sub inner sh))" for inner
      using assms(1) by (auto simp: subOk_def split_beta)
    note run = "1.prems" [unfolded Cons expandFrom.simps(2)]
    consider "c = BACKTICK" | "c \<noteq> BACKTICK" "c \<noteq> CHR ''$''" | "c = CHR ''$''" "HasPrefix s ''$''"
      | "c = CHR ''$''" "\<not> HasPrefix s ''$''" "HasPrefix s ''((''"
      | "c = CHR ''$''" "\<not> HasPrefix s ''$''" "\<not> HasPrefix s ''((''" "HasPrefix s ''(''"
      | "c = CHR ''$''" "\<not> HasPrefix s ''$''" "\<not> HasPrefix s ''((''" "\<not> HasPrefix s ''(''"
      by blast
    then show ?thesis
    proof cases
      case 1
      define inner where "inner = fst (upTo BACKTICK s)"
      from run 1 have "expandFrom sub (snd (upTo BACKTICK s)) (b @ fst (sub inner sh)) (snd (sub inner sh)) = (out, sh')"
        by (simp add: split_beta Let_def inner_def)
      then show ?thesis by (rule paid [OF _ sub]) (rule upTo_length)
    next
      case 2
      with run have "expandFrom sub s (b @ [c]) sh = (out, sh')" by simp
      then show ?thesis by (rule plain) simp_all
    next
      case 3
      with run have "expandFrom sub (tl s) (b @ Itoa shellPID) sh = (out, sh')" by (simp add: BACKTICK_def)
      then show ?thesis by (rule plain [OF _ Itoa_length]) (simp_all add: shellPID_def minInt64_def maxInt64_def)
    next
      case 4
      define r where "r = drop 1 (snd (spanTo 2 (drop 2 s)))"
      from run 4 have "expandFrom sub r (b @ Itoa (evalArith (sh_env sh) (fst (spanTo 2 (drop 2 s))))) sh = (out, sh')"
        by (simp add: BACKTICK_def split_beta Let_def r_def)
      moreover have "length r \<le> length s" using spanTo_length [of 2 "drop 2 s"] by (simp add: r_def)
      ultimately show ?thesis by (intro plain [OF _ Itoa_length [OF arithmetic_in_range]])
    next
      case 5
      define inner where "inner = fst (spanTo 1 (tl s))"
      from run 5 have "expandFrom sub (snd (spanTo 1 (tl s))) (b @ fst (sub inner sh)) (snd (sub inner sh)) = (out, sh')"
        by (simp add: BACKTICK_def split_beta Let_def inner_def)
      moreover have "length (snd (spanTo 1 (tl s))) \<le> length s" using spanTo_length [of 1 "tl s"] by simp
      ultimately show ?thesis by (intro paid [OF _ sub])
    next
      case 6
      define name rest where "name = fst (upTo (CHR ''}'') (tl s))" and "rest = snd (upTo (CHR ''}'') (tl s))"
      have rest: "length rest \<le> length s" using upTo_length [of "CHR ''}''" "tl s"] by (simp add: rest_def)
      define got where "got = (\<lambda>n. takeBudget (getenv (sh_env sh) n) sh)"
      have got: "debits sh (fst (got n)) (snd (got n))" for n
        unfolding got_def by (rule takeBudget_debits) simp
      have "expandFrom sub (tl s) (b @ Itoa (sh_last sh)) sh = (out, sh') \<or>
        expandFrom sub rest (b @ fst (got name)) (snd (got name)) = (out, sh') \<or>
        expandFrom sub (dropWhile nameChar s) (b @ fst (got (takeWhile nameChar s))) (snd (got (takeWhile nameChar s))) = (out, sh') \<or>
        expandFrom sub s (b @ ''$'') sh = (out, sh')"
        using run 6 by (simp add: BACKTICK_def Let_def name_def rest_def got_def split_beta split: if_splits)
      then show ?thesis
      proof (elim disjE)
        assume "expandFrom sub (tl s) (b @ Itoa (sh_last sh)) sh = (out, sh')"
        then show ?thesis by (rule go) (use Itoa_length codeOk_int64 in auto)
      next
        assume "expandFrom sub s (b @ ''$'') sh = (out, sh')"
        then show ?thesis by (rule plain) simp_all
      qed (rule paid [OF _ got rest] paid [OF _ got length_dropWhile_le], assumption)+
    qed
  qed
qed

lemma expand_spec:
  assumes "subOk sub" "expand sub w sh = (out, sh')"
  shows "evolves sh sh' \<and> (codeOk (sh_last sh) \<longrightarrow>
     int (length out) + sh_expandBudget sh' \<le> 20 * int (length w) + sh_expandBudget sh)"
proof (cases "list_ex (\<lambda>c. c = CHR ''$'' \<or> c = BACKTICK) w")
  case True
  with assms(2) have "expandFrom sub w [] sh = (out, sh')" by (simp add: expand_def)
  from expandFrom_spec [OF assms(1) this] show ?thesis by simp
next
  case False
  with assms(2) show ?thesis by (auto simp: expand_def)
qed

lemma evolves_expand:
  assumes "subOk sub" "evolves a sh"
  shows "evolves a (snd (expand sub w sh))"
proof -
  obtain out sh' where "expand sub w sh = (out, sh')" by (rule prod.exhaust)
  with expand_spec [OF assms(1) this] assms(2) show ?thesis by (auto intro: evolves_trans)
qed

lemma evolves_expandWords: "subOk sub \<Longrightarrow> evolves a sh \<Longrightarrow> evolves a (snd (expandWords sub ws sh))"
proof (induction ws arbitrary: sh)
  case (Cons w ws)
  then show ?case using evolves_expand [of sub a sh w] by (auto simp: Let_def split_beta)
qed simp

lemma evolves_expandStage: "subOk sub \<Longrightarrow> evolves a sh \<Longrightarrow> evolves a (snd (expandStage sub stg sh))"
  by (simp add: expandStage_def evolves_expandWords)

lemma evolves_assignLoop: "subOk sub \<Longrightarrow> evolves a sh \<Longrightarrow> evolves a (assignLoop sub kvs sh)"
proof (induction kvs arbitrary: sh)
  case (Cons kv kvs)
  obtain k v where kv: "kv = (k, v)" by (rule prod.exhaust)
  obtain x sh1 where x: "expand sub v sh = (x, sh1)" by (rule prod.exhaust)
  then have "evolves a sh1" using evolves_expand [OF Cons.prems, of v] by simp
  then show ?case using Cons.IH [OF Cons.prems(1)] kv x by (simp add: evolve_steps)
qed simp

lemma evolves_emit: "evolves a sh \<Longrightarrow> evolves a (emit w stg out sh)"
proof (erule evolves_trans)
  have "evolves sh (emit w stg out sh)" if "outFile stg \<noteq> []"
  proof -
    define data where "data = (case ReadFile (sh_fs sh) (Resolve (sh_fs sh) (outFile stg)) of
      Inr old \<Rightarrow> if appendT stg \<and> old \<noteq> [] then old @ out else out | Inl _ \<Rightarrow> out)"
    obtain e sh1 where r: "writeFile w (Resolve (sh_fs sh) (outFile stg)) data sh = (e, sh1)" by (rule prod.exhaust)
    then have "evolves sh sh1" using evolves_writeFile by (metis snd_conv)
    moreover have "evolves sh1 (onSession (say t) sh1)" for t by (rule evolves_onSession) auto
    ultimately show ?thesis
      unfolding emit_def Let_def data_def [symmetric] r using that evolves_trans by auto
  qed
  moreover have "evolves sh (emit w stg out sh)" if "outFile stg = []" "sh_capture sh = Some buf" for buf
    using that takeBudget_debits [of out sh "fst (takeBudget out sh)" "snd (takeBudget out sh)"]
    by (auto simp: emit_def debits_def evolves_def spends_def sameHost_def Let_def split_beta)
  moreover have "evolves sh (emit w stg out sh)" if "outFile stg = []" "sh_capture sh = None"
    using that by (auto simp: emit_def intro!: evolves_onSession)
  ultimately show "evolves sh (emit w stg out sh)" by (cases "sh_capture sh") blast+
qed

section \<open>Commands\<close>

definition printedOk :: "(string \<times> int) option option \<Rightarrow> bool" where
  "printedOk r = (case r of Some (Some oc) \<Rightarrow> codeOk (snd oc) | _ \<Rightarrow> True)"

lemma printedOk_if: "printedOk x \<Longrightarrow> printedOk y \<Longrightarrow> printedOk (if b then x else y)"
  by simp

lemma printed_codes:
  "codeOk (snd (cmdTest fs argv))" "codeOk (snd (cmdWc w sh argv stdin))" "codeOk (snd (cmdGrep w sh argv stdin))"
  "codeOk (snd (cmdWhich fs argv))" "codeOk (snd (cmdStat zone fs argv))"
  by (auto simp: cmdTest_def cmdWc_def cmdGrep_def cmdWhich_def cmdStat_def Let_def split: sum.split prod.split)

lemma headTail_code: "cmdHeadTail w sh argv stdin t = Some (out, c) \<Longrightarrow> codeOk c"
  by (auto simp: cmdHeadTail_def Let_def split: sum.splits if_splits)

lemma printedOk_simps [simp]:
  "printedOk None" "printedOk (Some (Some (out, 0)))" "printedOk (Some (Some (out, 1)))"
  "printedOk (Some (Some (cmdTest fs argv)))" "printedOk (Some (Some (cmdWc w sh argv stdin)))"
  "printedOk (Some (Some (cmdGrep w sh argv stdin)))" "printedOk (Some (Some (cmdWhich fs argv)))"
  "printedOk (Some (Some (cmdStat zone fs argv)))" "printedOk (Some (cmdHeadTail w sh argv stdin t))"
  "printedOk (Some (map_option (\<lambda>out. (out, 0)) r))"
  by (auto simp: printedOk_def printed_codes headTail_code split: option.split)

lemma printing_code: "printedOk (printing w sh name argv stdin)"
  unfolding printing_def Let_def by (intro printedOk_if printedOk_simps)

lemma evolves_base64Input: "evolves sh (snd (base64Input w f stdin sh))"
  by (auto simp: base64Input_def Let_def evolve_intros split: sum.split)

lemma evolves_runFile: "evolves sh (snd (runFile w name argv sh))"
  by (auto simp: runFile_def Let_def evolve_intros evolve_steps split: sum.split)

lemma code_runFile: "codeOk (snd (fst (runFile w name argv sh)))"
  by (simp add: runFile_def Let_def split: sum.split)

lemma code_catLoop: "codeOk c \<Longrightarrow> codeOk (snd (fst (catLoop w fs b c sh)))"
  by (induction w fs b c sh rule: catLoop.induct) (auto simp: Let_def split_beta split: sum.split option.split)

lemma code_commands: "codeOk (snd (fst (cmdCat w argv sh)))" "codeOk (snd (fst (cmdCd argv sh)))"
  "codeOk (snd (fst (cmdMutate w argv sh)))" "codeOk (snd (fst (cmdHistory argv sh)))"
  by (simp_all add: cmdCat_def code_catLoop cmdCd_def cmdMutate_def cmdHistory_def Let_def split: prod.split option.split)

lemma pair_if: "P (fst x) \<Longrightarrow> P (fst y) \<Longrightarrow> P (fst (if b then x else y))"
  "Q (snd x) \<Longrightarrow> Q (snd y) \<Longrightarrow> Q (snd (if b then x else y))"
  by simp_all

lemma evolves_takeover: "evolves sh (snd (takeover w name argv sh))"
  unfolding takeover_def
  by (intro pair_if(2) [where Q = "evolves sh"] evolve_takeovers) (simp_all add: iCrontab_def evolves_crontabArgs evolve_intros)

lemma code_takeover: "codeOk (fst (takeover w name argv sh))"
  unfolding takeover_def
  by (intro pair_if(1) [where P = codeOk] code_takeovers code_takeovers') (simp_all add: iCrontab_def code_crontabArgs)

definition okRun :: "shell \<Rightarrow> (string \<times> int) option \<times> shell \<Rightarrow> bool" where
  "okRun sh r \<longleftrightarrow> evolves sh (snd r) \<and> (case fst r of None \<Rightarrow> True | Some oc \<Rightarrow> codeOk (snd oc))"

lemma codeOk_127: "codeOk 127"
  by simp

lemma okRun_if: "okRun sh x \<Longrightarrow> okRun sh y \<Longrightarrow> okRun sh (if b then x else y)"
  by simp

lemma okRun_text: "codeOk c \<Longrightarrow> okRun sh (Some (out, c), sh)"
  by (simp add: okRun_def)

lemma okRun_some: "evolves sh (snd r) \<Longrightarrow> codeOk (snd (fst r)) \<Longrightarrow> okRun sh (apfst Some r)"
  by (cases r) (simp add: okRun_def)

lemma evolves_last_if: "evolves a sh \<Longrightarrow> (codeOk (sh_last a) \<Longrightarrow> codeOk n) \<Longrightarrow> evolves a (sh\<lparr>sh_last := n\<rparr>)"
  by (simp add: evolves_def sameHost_def)

section \<open>The contract of nested lines\<close>

lemma replaceByte_length: "length (replaceByte c '' '' s) = length s"
  by (induction s) (auto simp: replaceByte_def)

lemma Trim_length: "length (Trim s cs) \<le> length s"
  unfolding Trim_def TrimRight_def TrimLeft_def TrimRightFunc_def TrimLeftFunc_def
  by (metis length_dropWhile_le length_rev order_trans)

locale line_runner =
  fixes rec :: "string \<Rightarrow> shell \<Rightarrow> shell"
  assumes rec_evolves: "evolves sh (rec line sh)"
begin

lemma runCaptured_debits: "runCaptured d rec line sh = (out, sh') \<Longrightarrow> debits sh out sh'"
proof -
  assume r: "runCaptured d rec line sh = (out, sh')"
  define sh1 where "sh1 = rec line (sh\<lparr>sh_capture := Some []\<rparr>)"
  have e: "evolves (sh\<lparr>sh_capture := Some []\<rparr>) sh1" unfolding sh1_def by (rule rec_evolves)
  then obtain x where x: "sh_capture sh1 = Some x" "int (length x) \<le> sh_expandBudget sh - sh_expandBudget sh1"
    by (auto simp: evolves_def spends_def)
  have "evolves sh (sh1\<lparr>sh_capture := sh_capture sh\<rparr>)"
    using e by (auto simp: evolves_def spends_def sameHost_def split: option.split)
  with r x show ?thesis by (auto simp: runCaptured_def debits_def sh1_def [symmetric] Let_def split: if_splits)
qed

lemma cmdSub_ok: "subOk (cmdSub d rec)"
  unfolding subOk_def
proof (intro allI)
  fix inner and sh :: shell
  define sh0 where "sh0 = sh\<lparr>sh_subCount := sh_subCount sh + 1\<rparr>"
  have e: "evolves sh sh0" and b: "sh_expandBudget sh0 = sh_expandBudget sh"
    unfolding sh0_def by (simp_all add: evolve_intros)
  obtain out sh1 where r: "runCaptured d rec inner sh0 = (out, sh1)" by (rule prod.exhaust)
  have "length (replaceByte LF '' '' (Trim out [LF])) \<le> length out"
    by (simp add: replaceByte_length Trim_length)
  with e b runCaptured_debits [OF r] show "case cmdSub d rec inner sh of (out, sh') \<Rightarrow> debits sh out sh'"
    unfolding cmdSub_def Let_def sh0_def [symmetric] r by (auto simp: debits_def intro: evolves_trans)
qed

lemma evolves_cmdBase64: "evolves sh (snd (cmdBase64 rec w argv stdin sh))"
proof -
  obtain i sh1 where b: "base64Input w (lastOr [] (operands argv)) stdin sh = (i, sh1)" by (rule prod.exhaust)
  then have "evolves sh sh1" using evolves_base64Input by (metis snd_conv)
  then show ?thesis
    unfolding cmdBase64_def Let_def b
    by (auto split: sum.split option.split intro: evolve_steps evolves_trans [OF _ rec_evolves])
qed

lemma code_cmdBase64: "codeOk (snd (fst (cmdBase64 rec w argv stdin sh)))"
  by (auto simp: cmdBase64_def Let_def split: prod.split sum.split option.split)

lemma runCommand_ok: "okRun sh (runCommand rec w argv stdin sh)"
proof (induction argv arbitrary: stdin sh rule: length_induct)
  case (1 argv)
  show ?case
  proof (cases argv)
    case Nil
    then show ?thesis by (simp add: runCommand.simps okRun_def)
  next
    case (Cons arg0 rest)
    define name where "name = stripBinDir arg0"
    have shorter: "length xs < length argv \<Longrightarrow> okRun sh (runCommand rec w xs t sh)" for xs t
      using "1.IH" by blast
    show ?thesis
    proof (cases "printing w sh name (name # rest) stdin")
      case (Some r)
      then have "okRun sh (r, sh)" using printing_code [of w sh name "name # rest" stdin] by (simp add: okRun_def printedOk_def)
      with Some show ?thesis unfolding Cons by (subst runCommand.simps(2)) (simp add: name_def Let_def)
    next
      case None
      have quit: "okRun sh (Some (''logout'' @ [LF], 0), sh\<lparr>sh_quit := True\<rparr>)" by (simp add: okRun_def evolve_intros)
      have bb: "okRun sh (case rest of [] \<Rightarrow> (Some (busyboxBanner (sh_p sh), 0), sh)
         | a # xs \<Rightarrow>
             let applet = (case LastIndexByte a (CHR ''/'') of Some i \<Rightarrow> drop (i + 1) a | None \<Rightarrow> a)
             in if applet = ''--list'' \<or> applet = ''--list-full'' then (Some (joinByte LF busyboxAppletList @ [LF], 0), sh)
                else if applet \<in> set busyboxAppletList then runCommand rec w (applet # xs) [] sh
                else (Some (applet @ '': applet not found'' @ [LF], 127), sh))"
      proof (cases rest)
        case (Cons a xs)
        then have "length (x # xs) < length argv" for x :: string using \<open>argv = arg0 # rest\<close> by simp
        note nested = shorter [OF this]
        show ?thesis
          unfolding Cons list.case Let_def by (intro okRun_if okRun_text codeOk_numerals(1) codeOk_127 nested)
      qed (simp add: okRun_text)
      have sudo: "okRun sh (if rest \<noteq> [] then runCommand rec w rest stdin sh else (Some ([], 0), sh))"
        using shorter [of rest] Cons by (auto intro: okRun_text)
      show ?thesis
        unfolding Cons
        by (subst runCommand.simps(2), unfold Let_def name_def [symmetric] None option.case,
            intro okRun_if quit sudo bb [unfolded Let_def] okRun_some okRun_text evolve_commands evolves_cmdBase64 evolves_runFile
            code_commands code_cmdBase64 code_runFile codeOk_127)
    qed
  qed
qed

lemma iShExec_ok: "evolves sh (snd (iShExec rec w argv sh))" "codeOk (sh_last sh) \<Longrightarrow> codeOk (fst (iShExec rec w argv sh))"
proof -
  have run: "evolves sh (rec inner (event (\<lambda>i. LogExec i a b) sh))" for inner a b
    using evolves_trans [OF _ rec_evolves] by (simp add: evolve_intros)
  have "evolves sh (tell t (event (\<lambda>i. LogExec i f []) (captureDropper w x y sh)))" for t f x y
    using evolves_captureDropper by (intro evolve_steps)
  with run show "evolves sh (snd (iShExec rec w argv sh))"
    by (simp add: iShExec_def Let_def split: option.split)
  show "codeOk (sh_last sh) \<Longrightarrow> codeOk (fst (iShExec rec w argv sh))"
    using evolves_code [OF run] by (simp add: iShExec_def Let_def split: option.split)
qed

lemma pipeLoop_evolves: "evolves a sh \<Longrightarrow> codeOk c \<Longrightarrow> evolves a (snd (pipeLoop (cmdSub d rec) rec w stgs stdin c sh))"
proof (induction stgs arbitrary: stdin c sh)
  case Nil
  then show ?case by (simp add: evolves_last)
next
  case (Cons stg stgs)
  obtain argv sh1 where e: "expandStage (cmdSub d rec) stg sh = (argv, sh1)" by (rule prod.exhaust)
  have s1: "evolves a sh1" using evolves_expandStage [OF cmdSub_ok Cons.prems(1), of d stg] e by simp
  obtain r sh2 where r: "runCommand rec w argv stdin sh1 = (r, sh2)" by (rule prod.exhaust)
  have s2: "evolves a sh2" "case r of None \<Rightarrow> True | Some oc \<Rightarrow> codeOk (snd oc)"
    using runCommand_ok [of sh1 w argv stdin] r s1 by (auto simp: okRun_def intro: evolves_trans)
  show ?case
  proof (cases r)
    case None
    then show ?thesis using Cons s1 s2 by (simp add: e r)
  next
    case (Some oc)
    then obtain out c' where "r = Some (out, c')" by (cases oc) auto
    then show ?thesis using Cons s1 s2 by (simp add: e r evolves_emit evolves_last)
  qed
qed

end

locale shell_host = line_runner +
  fixes nest :: "Pivot \<Rightarrow> shell \<Rightarrow> shell"
  assumes nest_evolves: "evolves sh (nest piv sh)"
begin

lemma iSSH_ok: "evolves sh (snd (iSSH nest argv sh)) \<and> codeOk (fst (iSSH nest argv sh))"
proof -
  define target where "target = firstOr [] (operands argv)"
  define host where "host = (case IndexByte target (CHR ''@'') of Some i \<Rightarrow> drop (i + 1) target | None \<Rightarrow> target)"
  define intro1 where "intro1 = [''The authenticity of host '' @ [SQUOTE] @ host @ '' ('' @ host @ '')'' @ [SQUOTE] @ '' can'' @ [SQUOTE] @ ''t be established.'',
       ''ED25519 key fingerprint is '' @ p_SSHKeyFP (sh_p sh) @ ''.'', ''This key is not known by any other names.'']"
  define q1 where "q1 = ''Are you sure you want to continue connecting (yes/no/[fingerprint])? ''"
  obtain ans ok sh1 where a: "ask q1 (tellAll intro1 sh) = ((ans, ok), sh1)" by (metis prod.collapse)
  have e1: "evolves sh sh1" using evolves_ask_after [OF _ a] by (simp add: evolve_intros)
  define warn where "warn = ''Warning: Permanently added '' @ [SQUOTE] @ host @ [SQUOTE] @ '' (ED25519) to the list of known hosts.''"
  define q2 where "q2 = remoteUser target ''root'' @ ''@'' @ host @ [SQUOTE] @ ''s password: ''"
  obtain pass ok2 sh2 where b: "ask q2 (tell warn sh1) = ((pass, ok2), sh2)" by (metis prod.collapse)
  define sh3 where "sh3 = event (\<lambda>i. LogCredential i (remoteUser target ''root'') pass) (tell [] sh2)"
  have "evolves sh sh2" using evolves_ask_after [OF _ b] e1 by (simp add: evolve_steps)
  then have e3: "evolves sh sh3" unfolding sh3_def by (intro evolve_steps)
  have n: "evolves sh (nest piv sh3)" for piv using e3 nest_evolves evolves_trans by blast
  show ?thesis
    unfolding iSSH_def Let_def target_def [symmetric] host_def [symmetric] intro1_def [symmetric] q1_def [symmetric] a prod.case
      warn_def [symmetric] q2_def [symmetric] b sh3_def [symmetric]
    using e1 e3 n by (simp add: evolve_steps evolve_intros split: option.split)
qed

lemma runInteractive_ok:
  "evolves sh (snd (runInteractive nest rec w argv sh))"
  "codeOk (sh_last sh) \<Longrightarrow> codeOk (fst (runInteractive nest rec w argv sh))"
  using iSSH_ok [of sh argv] iShExec_ok [of sh w argv] evolves_takeover code_takeover
  by (auto simp: runInteractive_def split: list.split)

lemma runStatement_evolves: "evolves sh (snd (runStatement nest w d rec st sh))"
proof -
  define sub where "sub = cmdSub d rec"
  have sub: "subOk sub" unfolding sub_def by (rule cmdSub_ok)
  define first_stage where "first_stage = hd (stages st)"
  define lst where "lst = args (last (stages st))"
  define sh0 where "sh0 = event (\<lambda>i. LogExec i (''pipe-to-'' @ hd lst @ '': '' @ stageString st) []) sh"
  obtain argv0 t0 where x0: "expandStage sub first_stage sh0 = (argv0, t0)" by (rule prod.exhaust)
  obtain c0 u0 where i0: "runInteractive nest rec w argv0 t0 = (c0, u0)" by (rule prod.exhaust)
  obtain argv t where x: "expandStage sub first_stage sh = (argv, t)" by (rule prod.exhaust)
  obtain c u where i: "runInteractive nest rec w argv t = (c, u)" by (rule prod.exhaust)
  have "evolves sh sh0" unfolding sh0_def by (simp add: evolve_intros)
  then have "evolves sh t0" using evolves_expandStage [OF sub] x0 by (metis snd_conv)
  then have piped: "evolves sh (u0\<lparr>sh_last := 0\<rparr>)"
    using runInteractive_ok(1) [of t0 w argv0] i0 by (auto intro!: evolves_last intro: evolves_trans)
  have t: "evolves sh t" using evolves_expandStage [OF sub evolves_refl [of sh], of first_stage] x by (metis snd_conv)
  have taken: "evolves sh (u\<lparr>sh_last := c\<rparr>)"
    using t runInteractive_ok [of t w argv] i evolves_code [OF t] by (auto intro!: evolves_last_if intro: evolves_trans)
  have assigned: "evolves sh ((assignLoop sub (assigns first_stage) sh)\<lparr>sh_last := 0\<rparr>)"
    by (simp add: evolves_last evolves_assignLoop sub)
  have loops: "evolves sh (snd (pipeLoop sub rec w (stages st) [] 0 sh))" "evolves sh (snd (pipeLoop sub rec w (stages st) [] 0 t))"
    unfolding sub_def using t by (simp_all add: pipeLoop_evolves)
  show ?thesis
    unfolding runStatement_def Let_def sub_def [symmetric] first_stage_def [symmetric] lst_def [symmetric] sh0_def [symmetric] x0 prod.case i0 x i
    by (intro pair_if(2) [where Q = "evolves sh"]) (simp_all add: piped taken assigned loops)
qed

lemma runStatements_evolves: "evolves a sh \<Longrightarrow> evolves a (runStatements (runStatement nest w d rec) sts go sh)"
proof (induction sts arbitrary: go sh)
  case (Cons st sts)
  obtain ok sh1 where r: "(if go then runStatement nest w d rec st sh else (True, sh)) = (ok, sh1)" by (rule prod.exhaust)
  have "evolves a sh1" using r runStatement_evolves [of sh w d st] Cons.prems evolves_trans by (auto split: if_splits)
  then show ?case using Cons.IH by (auto simp: r evolve_steps split: bool.split)
qed simp

end

text \<open>The interpreter meets its own contract at every depth, given that the shell on a pivot host does.\<close>

lemma runLine_evolves:
  assumes "\<And>sh piv. evolves sh (nest piv sh)"
  shows "evolves sh (runLine nest w d line sh)"
proof (induction d arbitrary: line sh)
  case 0
  show ?case by (simp add: evolves_last evolve_intros)
next
  case (Suc d)
  then have "shell_host (runLine nest w d) nest" using assms by unfold_locales
  then show ?case by (simp add: shell_host.runStatements_evolves)
qed

section \<open>Whole sessions\<close>

text \<open>What a shell may do over many lines: the relation without the per-line budget.\<close>

definition advances :: "shell \<Rightarrow> shell \<Rightarrow> bool" where
  "advances sh sh' \<longleftrightarrow> convStep (sh_s sh) (sh_s sh') \<and>
     fsStep (sh_fs sh, sh_pool sh) (sh_fs sh', sh_pool sh') \<and> sameHost sh sh'"

lemma evolves_advances: "evolves sh sh' \<Longrightarrow> advances sh sh'"
  by (simp add: evolves_def advances_def)

lemma advances_refl [simp]: "advances sh sh"
  by (simp add: advances_def sameHost_def)

lemma advances_trans: "advances a b \<Longrightarrow> advances b c \<Longrightarrow> advances a c"
  unfolding advances_def sameHost_def using convStep_trans fsStep_trans by (metis (no_types, lifting))

lemma runTopLine_advances:
  assumes "\<And>sh piv. evolves sh (nest piv sh)"
  shows "advances sh (runTopLine nest w line sh)"
  using runLine_evolves [OF assms, where sh = "sh\<lparr>sh_expandBudget := maxExpandBytes, sh_subCount := 0\<rparr>"]
  by (auto simp: runTopLine_def evolves_def advances_def sameHost_def)

lemma convStep_countCommand: "convStep c (countCommand c)"
  by (auto simp: convStep_def countCommand_def)

lemma ask_advances: "ask t sh = (r, sh') \<Longrightarrow> advances sh sh'"
  by (rule evolves_advances) (rule evolves_ask)

lemma accepted_line_advances:
  "advances sh (event (\<lambda>i. LogCommand i line) (onSession countCommand sh))"
  by (intro evolves_advances evolve_steps evolves_onSession convStep_countCommand)

lemma shellLoop_advances:
  assumes "\<And>line sh. advances sh (run line sh)"
  shows "advances sh (snd (shellLoop run n sh))"
proof (induction n arbitrary: sh)
  case (Suc n)
  obtain line ok sh1 where a: "ask (prompt sh) sh = ((line, ok), sh1)" by (metis prod.collapse)
  have s1: "advances sh sh1" using a by (rule ask_advances)
  define t where "t = TrimSpace line"
  define sh2 where "sh2 = run t (event (\<lambda>i. LogCommand i t) (onSession countCommand sh1))"
  have "advances sh1 sh2" unfolding sh2_def using accepted_line_advances assms advances_trans by blast
  then have "advances sh (snd (shellLoop run n sh1))" "advances sh (snd (shellLoop run n sh2))"
    using Suc s1 advances_trans by blast+
  then show ?case using s1 by (simp add: a Let_def t_def [symmetric] sh2_def [symmetric])
qed simp

lemma ask_shorter: "ask t sh = ((line, True), sh') \<Longrightarrow> length (c_in (sh_s sh')) < length (c_in (sh_s sh))"
  by (auto simp: ask_def dest: Prompt_shorter split: prod.splits)

lemma shellLoop_ends:
  assumes "\<And>line sh. advances sh (run line sh)" "length (c_in (sh_s sh)) < n"
  shows "fst (shellLoop run n sh)"
  using assms(2)
proof (induction n arbitrary: sh)
  case (Suc n)
  obtain line ok sh1 where a: "ask (prompt sh) sh = ((line, ok), sh1)" by (metis prod.collapse)
  define t where "t = TrimSpace line"
  define sh2 where "sh2 = run t (event (\<lambda>i. LogCommand i t) (onSession countCommand sh1))"
  have "advances sh1 sh2" unfolding sh2_def using accepted_line_advances assms(1) advances_trans by blast
  then have "length (c_in (sh_s sh2)) \<le> length (c_in (sh_s sh1))" by (simp add: advances_def convStep_def)
  moreover have "ok \<Longrightarrow> length (c_in (sh_s sh1)) < n" using ask_shorter [of "prompt sh" sh line sh1] a Suc.prems by auto
  ultimately show ?case
    using Suc.IH [of sh1] Suc.IH [of sh2] by (auto simp: a Let_def t_def [symmetric] sh2_def [symmetric])
qed simp

lemma shell_welcome_advances: "advances sh (shell_welcome w sh)"
  unfolding shell_welcome_def Let_def
  by (intro evolves_advances evolves_tellAll [THEN evolves_after] evolves_onSession) auto

lemma interact_ok:
  assumes "\<And>sh piv. evolves sh (nest piv sh)"
  shows "fst (interact nest w sh)" "advances sh (snd (interact nest w sh))"
proof -
  define sh1 where "sh1 = shell_welcome w sh"
  have run: "advances sh (runTopLine nest w line sh)" for line sh by (rule runTopLine_advances) (rule assms)
  have "fst (shellLoop (runTopLine nest w) (loopFuel sh1) sh1)"
    by (rule shellLoop_ends) (simp_all add: run loopFuel_def)
  then show "fst (interact nest w sh)" by (simp add: interact_def Let_def sh1_def)
  have "advances sh1 (snd (shellLoop (runTopLine nest w) (loopFuel sh1) sh1))"
    by (rule shellLoop_advances) (rule run)
  then show "advances sh (snd (interact nest w sh))"
    using shell_welcome_advances [of sh w] advances_trans by (auto simp: interact_def Let_def sh1_def)
qed

text \<open>Closing a shell gives back to the shared counter exactly what its session took.\<close>

lemma closeShell_new:
  assumes "advances (newShell w s pool fs p user style pivot) sh"
  shows "snd (closeShell sh) = pool" "convStep s (fst (closeShell sh))"
proof -
  define new where "new = newShell w s pool fs p user style pivot"
  have n: "sessionInv (sh_fs new)" "bytes (sh_fs new) = 0" "sh_pool new = pool" "sh_s new = s"
    unfolding new_def newShell_def Let_def by (simp_all add: NewSession_inv) (simp_all add: NewSession_def Let_def)
  obtain ops where ops: "fsRun ops (sh_fs new, sh_pool new) = (sh_fs sh, sh_pool sh)"
    using assms by (auto simp: advances_def fsStep_def new_def)
  from fsRun_keeps [OF ops n(1)] n have "sessionInv (sh_fs sh)" "sh_pool sh - bytes (sh_fs sh) = pool" by auto
  then show "snd (closeShell sh) = pool"
    by (simp add: closeShell_def Release_returns sessionInv_bytes_nonneg)
  show "convStep s (fst (closeShell sh))"
    using assms n(4) by (simp add: advances_def closeShell_def new_def)
qed

lemma noPivot_evolves: "evolves sh (noPivot piv sh)"
  by (simp add: noPivot_def)

lemma pivotShell_evolves: "evolves sh (pivotShell w piv sh)"
proof -
  define new where "new = newShell w (sh_s sh) (sh_pool sh) (pv_FS piv) (pv_P piv) ''root'' (sh_style sh) None"
  have a: "advances new (snd (interact noPivot w new))" by (rule interact_ok(2)) (rule noPivot_evolves)
  from closeShell_new [OF a [unfolded new_def]]
  have "snd (closeShell (snd (interact noPivot w new))) = sh_pool sh"
    "convStep (sh_s sh) (fst (closeShell (snd (interact noPivot w new))))" by (simp_all add: new_def)
  then show ?thesis
    unfolding pivotShell_def Let_def new_def [symmetric]
    by (simp add: split_beta evolves_def sameHost_def)
qed

interpretation nested: shell_host "runLine (pivotShell w) w d" "pivotShell w" for w d
  by unfold_locales (auto intro: runLine_evolves pivotShell_evolves)


definition demoWorld :: world where
  "demoWorld = \<lparr>w_now = 0, w_zone = (\<lambda>_. (0, ''UTC'')), w_reveal = [], w_loot = (\<lambda>_. None), w_sha = (\<lambda>b. b),
     w_upIdle = (\<lambda>_. []), w_rate = (\<lambda>_ _. []), w_capturing = False, w_expired = (\<lambda>_. False)\<rparr>"

definition demoHost :: Persona where
  "demoHost = fst (run_state (Generate 0) [])"

definition demoShell :: shell where
  "demoShell = newShell demoWorld (opened Conversation.demoSession []) 0 demoFS demoHost ''root'' [] None"


text \<open>
  C37: A shell session ends when its input does.  Whatever the client types, on whatever host, the prompt
  loop stops by itself (the client said \<^verbatim>\<open>exit\<close> or the input ran out) within one prompt more than the
  input has bytes; no line keeps it from reading on.
\<close>

theorem shell_session_ends:
  "fst (interact (pivotShell w) w (newShell w s pool fs p user style pivot))"
  by (rule interact_ok(1)) (rule pivotShell_evolves)

lemma Run_contained:
  "snd (Run w s pool fs p user style pivot) = pool \<and> convStep s (fst (Run w s pool fs p user style pivot))"
proof -
  define new where "new = newShell w s pool fs p user style pivot"
  have a: "advances new (snd (interact (pivotShell w) w new))" by (rule interact_ok(2)) (rule pivotShell_evolves)
  show ?thesis using closeShell_new [OF a [unfolded new_def]] by (simp add: Run_def)
qed

text \<open>
  C38: A shell session is contained.  Run on any host for any client, it gives back to the process-wide
  overlay counter exactly what it took, only consumes its input and appends to its output and its log,
  and everything it logs carries the session's own id and source, whatever it runs, edits, downloads or
  pivots to.
\<close>

theorem shell_session_contained:
  "snd (Run w s pool fs p user style pivot) = pool \<and> convStep s (fst (Run w s pool fs p user style pivot))"
  by (rule Run_contained)

section \<open>A payload assembled byte by byte\<close>

definition echoLine :: "bytes \<Rightarrow> string \<Rightarrow> string" where
  "echoLine b f = ''echo -ne '' @ squote (spell b) @ '' >> '' @ squote f"

lemma hexDigit_plain: "0 \<le> n \<Longrightarrow> n < 16 \<Longrightarrow> hexDigit n \<notin> {SQUOTE, CHR ''$'', BACKTICK}"
proof -
  assume "0 \<le> n" "n < 16"
  from hexDigit_digit [OF this] show ?thesis by (auto simp: isHexDigit_def isDigit_def code_def SQUOTE_def BACKTICK_def)
qed

lemma spell_chars: "c \<in> set (spell b) \<Longrightarrow> c \<notin> {SQUOTE, CHR ''$'', BACKTICK}"
proof -
  assume "c \<in> set (spell b)"
  then obtain x where "c \<in> set (BACKSLASH # CHR ''x'' # hex2 x)" unfolding spell_def set_concat set_map by blast
  then consider "c = BACKSLASH" | "c = CHR ''x''" | "c = hexDigit (code x div 16)" | "c = hexDigit (code x mod 16)"
    by (auto simp: hex2_def)
  moreover have "0 \<le> code x div 16" "code x div 16 < 16" "0 \<le> code x mod 16" "code x mod 16 < 16"
    using code_range [of x] by presburger+
  ultimately show ?thesis
    using hexDigit_plain by cases (auto simp: BACKSLASH_def SQUOTE_def BACKTICK_def)
qed

lemma tokenize_echoLine:
  assumes "SQUOTE \<notin> set f"
  shows "tokenize (echoLine b f) = [word ''echo'', word ''-ne'', word (spell b), oper ''>>'', word f]"
proof -
  have q: "SQUOTE \<notin> set (spell b)" using spell_chars by blast
  have echo: "toks (''echo -ne '' @ r) [] False = [word ''echo'', word ''-ne''] @ toks r [] False" for r
    by (simp add: toks.simps(2) flush_def char_consts)
  have redir: "toks ('' >> '' @ r) cur True = [word cur, oper ''>>''] @ toks r [] False" for r cur
    by (simp add: toks.simps(2) flush_def char_consts)
  have "toks (squote f) [] False = [word f]" using toks_squote [OF assms, of "[]" "[]" False] by (simp add: flush_def)
  then show ?thesis
    unfolding tokenize_def echoLine_def by (simp only: echo toks_squote [OF q] redir append_Nil) simp
qed

definition payloadPath :: "string \<Rightarrow> bool" where
  "payloadPath f = (cleanAbs f = f \<and> f \<noteq> ''/dev/null'' \<and> \<not> inSystemBin f \<and>
     list_all (\<lambda>c. c \<notin> {SQUOTE, CHR ''$'', BACKTICK}) f)"

definition contentOr :: "session \<Rightarrow> string \<Rightarrow> bytes" where
  "contentOr s f = (case ReadFile s f of Inr old \<Rightarrow> old | Inl _ \<Rightarrow> [])"

lemma payloadPath_slash: "payloadPath f \<Longrightarrow> \<exists>g. f = CHR ''/'' # g"
  using cleanAbs_form [of f] by (auto simp: payloadPath_def absPath_def)

lemma payloadPath_quoted: "payloadPath f \<Longrightarrow> SQUOTE \<notin> set f"
  by (auto simp: payloadPath_def list_all_iff)

lemma payloadPath_resolve: "payloadPath f \<Longrightarrow> Resolve s f = f"
  using payloadPath_slash [of f] by (auto simp: payloadPath_def Resolve_def)

lemma expand_plain: "list_all (\<lambda>c. c \<notin> {SQUOTE, CHR ''$'', BACKTICK}) t \<Longrightarrow> expand sub t sh = (t, sh)"
  by (auto simp: expand_def list_ex_iff list_all_iff)

lemma parse_echoLine:
  assumes "payloadPath f"
  shows "parse (echoLine b f) =
    [\<lparr>stages = [\<lparr>args = [''echo'', ''-ne'', spell b], assigns = [], outNull = False, outFile = f, appendT = True\<rparr>], chain = []\<rparr>]"
proof -
  have g: "\<not> isGroupMark (spell b)"
    by (cases b) (auto simp: isGroupMark_def spell_def BACKSLASH_def)
  have "f \<noteq> ''/dev/null''" using assms by (simp add: payloadPath_def)
  then show ?thesis
    unfolding parse_def tokenize_echoLine [OF payloadPath_quoted [OF assms]]
    using g by (simp add: parseLoop.simps(2) splitAssign_def IndexByte_def isGroupMark_def newStage_def redirect_def finishStmt_def finishStage_def)
qed

lemma parse_path:
  assumes "payloadPath f"
  shows "parse (squote f) =
    [\<lparr>stages = [\<lparr>args = [f], assigns = [], outNull = False, outFile = [], appendT = False\<rparr>], chain = []\<rparr>]"
proof -
  obtain g where f: "f = CHR ''/'' # g" using payloadPath_slash [OF assms] by blast
  have "tokenize (squote f) = [word f]"
    using toks_squote [OF payloadPath_quoted [OF assms], of "[]" "[]" False] by (simp add: tokenize_def flush_def)
  moreover have "\<not> isGroupMark f" by (simp add: f isGroupMark_def)
  moreover have "splitAssign f = None"
    by (auto simp: f splitAssign_def take_Cons identStart_def isAlpha_def isUpper_def isLower_def code_def
        split: option.splits nat.splits)
  ultimately show ?thesis
    by (simp add: parse_def parseLoop.simps(2) newStage_def finishStmt_def finishStage_def)
qed

lemma stripBinDir_path: "payloadPath f \<Longrightarrow> stripBinDir f = f"
proof -
  assume "payloadPath f"
  then have "\<not> inSystemBin f" by (simp add: payloadPath_def)
  moreover have "inSystemBin f" if "take i f \<in> set systemBinDirs" for i
    using that HasPrefix_iff [of f "take i f"] append_take_drop_id [of i f, symmetric] by (auto simp only: inSystemBin_def list_ex_iff)
  ultimately show ?thesis by (auto simp: stripBinDir_def split: option.splits)
qed

lemma path_no_command:
  "isInteractive (CHR ''/'' # g) = False" "printing w sh (CHR ''/'' # g) argv stdin = None"
  by (simp_all add: isInteractive_def interactiveNames_def printing_def Let_def)

lemma runCommand_path:
  assumes "payloadPath f"
  shows "runCommand rec w [f] stdin sh = apfst Some (runFile w f [f] sh)"
proof -
  obtain g where f: "f = CHR ''/'' # g" using payloadPath_slash [OF assms] by blast
  show ?thesis
    using stripBinDir_path [OF assms] path_no_command(2) [of w sh g "[f]" stdin] by (simp add: f runCommand.simps Let_def)
qed

lemma runCommand_echo: "runCommand rec w [''echo'', ''-ne'', spell b] stdin sh = (Some (b, 0), sh)"
proof -
  have "stripBinDir ''echo'' = ''echo''" by code_simp
  then show ?thesis by (simp add: runCommand.simps printing_def Let_def echo_spelled)
qed

lemma run_echoLine:
  assumes f: "payloadPath f"
  shows "runLine nest w (Suc d) (echoLine b f) sh =
    (emit w \<lparr>args = [''echo'', ''-ne'', spell b], assigns = [], outNull = False, outFile = f, appendT = True\<rparr> b sh)\<lparr>sh_last := 0\<rparr>"
proof -
  have "list_all (\<lambda>c. c \<notin> {SQUOTE, CHR ''$'', BACKTICK}) (spell b)" using spell_chars by (auto simp: list_all_iff)
  then have e: "expand sub (spell b) sh = (spell b, sh)" for sub sh by (rule expand_plain)
  have e': "expand sub ''echo'' sh = (''echo'', sh)" "expand sub ''-ne'' sh = (''-ne'', sh)" for sub sh
    by (simp_all add: expand_def BACKTICK_def)
  have i: "\<not> isInteractive ''echo''" by code_simp
  show ?thesis
    by (simp add: parse_echoLine [OF f] runStatement_def Let_def expandStage_def e e' i runCommand_echo)
qed

lemma run_path:
  assumes f: "payloadPath f" and c: "fst (runFile w f [f] sh) = ([], 0)" and n: "sh_capture (snd (runFile w f [f] sh)) = None"
  shows "runLine nest w (Suc d) (squote f) sh = (snd (runFile w f [f] sh))\<lparr>sh_last := 0\<rparr>"
proof -
  obtain g where g: "f = CHR ''/'' # g" using payloadPath_slash [OF f] by blast
  have e: "expand sub f sh = (f, sh)" for sub sh using f by (intro expand_plain) (simp add: payloadPath_def)
  have i: "\<not> isInteractive f" unfolding g by (simp add: path_no_command)
  show ?thesis
    using c n
    by (simp add: parse_path [OF f] runStatement_def Let_def expandStage_def e i runCommand_path [OF f] emit_def apfst_def map_prod_def split_beta)
qed

lemma emit_append:
  assumes "payloadPath f" "outNull stg = False" "outFile stg = f" "appendT stg"
    and "writeFile w f (contentOr (sh_fs sh) f @ b) sh = (None, sh')"
  shows "emit w stg b sh = sh'"
proof -
  have "f \<noteq> []" using payloadPath_slash [OF assms(1)] by auto
  then show ?thesis
    using assms(2-5) by (cases "ReadFile (sh_fs sh) f") (auto simp: emit_def payloadPath_resolve [OF assms(1)] contentOr_def)
qed

lemma writeFile_reads:
  assumes "sessionInv (sh_fs sh)" "payloadPath f" "writeFile w f content sh = (None, sh')"
  shows "ReadFile (sh_fs sh') f = Ok content" "\<exists>n. Stat (sh_fs sh') f = Ok n \<and> \<not> IsDir n"
    "sh_s sh' = sh_s sh" "sh_capture sh' = sh_capture sh"
proof -
  obtain s g where W: "WriteFile (w_now w) (sh_fs sh) (sh_pool sh) f content = (None, s, g)" and sh': "sh' = sh\<lparr>sh_fs := s, sh_pool := g\<rparr>"
    using assms(3) by (auto simp: writeFile_def split: prod.splits)
  from WriteFile_lookup [OF assms(1) W] payloadPath_resolve [OF assms(2)]
  have l: "lookup s f True 0 = Ok (fileNode f (w_now w) content)" by simp
  then show "ReadFile (sh_fs sh') f = Ok content" "\<exists>n. Stat (sh_fs sh') f = Ok n \<and> \<not> IsDir n"
    using payloadPath_resolve [OF assms(2)] by (simp_all add: sh' ReadFile_def Stat_def)
  show "sh_s sh' = sh_s sh" "sh_capture sh' = sh_capture sh" by (simp_all add: sh')
qed



end
