(* ===== verification/FakeHost.thy ===== *)
theory FakeHost
  imports VfsLoad ShellProps
begin

text \<open>
  The hosts the honeypot wears (\<^verbatim>\<open>internal/fakehost\<close>): the embedded trees rendered against the persona, and the
  backup host an attacker can pivot to, with the bait images grafted at the persona's own loot path.
  What the template engine makes of a file (\<^const>\<open>None\<close> when it does not parse or execute), the embedded trees
  and their manifests, the JSON decoder and the decoy images are parameters.
  Shown: every bait is readable where the persona says it is, and whoever looks at one is caught.
\<close>

record 'e assets =
  as_template :: "Persona \<Rightarrow> string \<Rightarrow> bytes \<Rightarrow> bytes option"
  as_timeParse :: "string \<Rightarrow> string \<Rightarrow> gotime option"
  as_unmarshal :: "bytes \<Rightarrow> 'e + manifest"
  as_hostManifest :: "bytes option"
  as_host :: "'e embed list"
  as_nasManifest :: "bytes option"
  as_nas :: "'e embed list"
  as_png :: bytes
  as_jpg :: bytes

definition binaryExt :: "string list" where
  "binaryExt = [''.png'', ''.jpg'', ''.jpeg'', ''.gif'', ''.pdf'', ''.gz'', ''.tgz'', ''.zip'', ''.tar'', ''.bin'', ''.ico'', ''.so'']"

definition isBinaryPath :: "string \<Rightarrow> bool" where
  "isBinaryPath path = (let low = ToLower path in list_ex (\<lambda>ext. HasSuffix low ext) binaryExt)"

definition renderer :: "'e assets \<Rightarrow> Persona \<Rightarrow> string \<Rightarrow> bytes \<Rightarrow> bytes" where
  "renderer A p path content =
    (if isBinaryPath path \<or> \<not> Contains content ''{{'' then content
     else case as_template A p path content of Some out \<Rightarrow> out | None \<Rightarrow> content)"

definition fakehost_Load :: "'e assets \<Rightarrow> gotime \<Rightarrow> Persona \<Rightarrow> 'e + FS" where
  "fakehost_Load A now p = Load (as_timeParse A) (as_unmarshal A) now (as_hostManifest A) (Some (renderer A p)) (as_host A)"

definition baitNames :: "string list" where
  "baitNames = [''aws_root_keys.png'', ''prod_db_credentials.png'', ''wallet_seed_phrase.png'', ''vpn_config_admin.png'',
     ''ssl_private_backup.jpg'', ''customer_export_full.jpg'', ''payroll_2026_q2.jpg'']"

definition baitBytes :: "'e assets \<Rightarrow> string \<Rightarrow> bytes" where
  "baitBytes A name = (if HasSuffix name ''.jpg'' \<or> HasSuffix name ''.jpeg'' then as_jpg A else as_png A)"

fun placeBaits :: "'e assets \<Rightarrow> gotime \<Rightarrow> string \<Rightarrow> int \<Rightarrow> string list \<Rightarrow> FS \<Rightarrow> FS" where
  "placeBaits A now dir i [] f = f"
| "placeBaits A now dir i (name # names) f =
    placeBaits A now dir (i + 1) names
      (FS_Place f (dir @ ''/'' @ name) (baitBytes A name) 0x180 ''root'' ''root'' (now - (5 * 24 - i * 7) * hourNs))"

definition graftLoot :: "'e assets \<Rightarrow> gotime \<Rightarrow> Persona \<Rightarrow> FS \<Rightarrow> FS" where
  "graftLoot A now p f =
    (if p_LootPath p = [] then f
     else placeBaits A now (p_LootPath p) 0 baitNames
       (FS_Mkdir f (p_LootPath p) 0x1C0 ''root'' ''root'' (now - 6 * 24 * hourNs)))"

definition LoadNAS :: "'e assets \<Rightarrow> gotime \<Rightarrow> Persona \<Rightarrow> 'e + FS" where
  "LoadNAS A now p =
    (case Load (as_timeParse A) (as_unmarshal A) now (as_nasManifest A) (Some (renderer A p)) (as_nas A) of
       Inl e \<Rightarrow> Err e
     | Inr f \<Rightarrow> Ok (graftLoot A now p f))"

definition NAS :: "'e assets \<Rightarrow> gotime \<Rightarrow> Persona \<Rightarrow> Pivot option" where
  "NAS A now p =
    (let np = p\<lparr>p_Hostname := p_BackupHost p, p_HostIP := p_BackupIP p\<rparr>
     in case LoadNAS A now np of Inl _ \<Rightarrow> None | Inr fs \<Rightarrow> Some \<lparr>pv_FS = fs, pv_P = np\<rparr>)"

section \<open>Rewriting one directory\<close>

text \<open>A rewriting that changes only what a directory holds.\<close>

definition inDir :: "(node \<Rightarrow> node) \<Rightarrow> bool" where
  "inDir g = (\<forall>n. info (g n) = info n)"

lemma inDir_put [intro]: "inDir (putChild k c)"
  by (simp add: inDir_def putChild_def)

lemma inDir_mode: "inDir g \<Longrightarrow> IsDir (g n) = IsDir n" "inDir g \<Longrightarrow> IsLink (g n) = IsLink n"
  by (simp_all add: inDir_def IsDir_def IsLink_def Mode_def)

lemma modAt_info: "inDir g \<Longrightarrow> info (modAt ks g n) = info n"
  by (cases ks; cases n) (auto simp: inDir_def split: option.splits)

lemma modAt_mode:
  assumes "inDir g"
  shows "IsDir (modAt ks g n) = IsDir n" "IsLink (modAt ks g n) = IsLink n"
  by (simp_all add: IsDir_def IsLink_def Mode_def modAt_info [OF assms])

lemma modAt_dirPath:
  assumes "inDir g"
  shows "dirPath ks n \<Longrightarrow> dirPath ks (modAt ks g n)"
proof (induction ks arbitrary: n)
  case Nil
  then show ?case using inDir_mode [OF assms, of n] by simp
next
  case (Cons k ks)
  then show ?case
    using modAt_mode [OF assms, of "k # ks" n] by (cases n) (auto split: option.splits)
qed

lemma modAt_comp: "modAt ks g (modAt ks h n) = modAt ks (\<lambda>x. g (h x)) n"
proof (induction ks arbitrary: n)
  case (Cons k ks)
  then show ?case by (cases n) (auto split: option.splits)
qed simp

lemma ensureWalk_id: "dirPath ks n \<Longrightarrow> ensureWalk mk ks n = n"
proof (induction ks arbitrary: n)
  case (Cons k ks)
  then obtain c where c: "mget (children n) k = Some c" "dirPath ks c" by (auto split: option.splits)
  then have "IsDir c" by (cases ks) auto
  with Cons.IH [OF c(2)] c(1) show ?case by (cases n) (simp add: putChild_def mput_same)
qed simp

lemma getNodeAt_modAt: "getNodeAt ks (modAt ks g n) = map_option g (getNodeAt ks n)"
proof (induction ks arbitrary: n)
  case (Cons k ks)
  then show ?case by (cases n) (auto split: option.splits)
qed simp

lemma dirPath_get: "dirPath ks n \<Longrightarrow> \<exists>d. getNodeAt ks n = Some d"
  by (induction ks arbitrary: n) (auto split: option.splits)

text \<open>The directory at \<open>cs\<close> is real and holds \<open>c\<close> under the name \<open>k\<close>.\<close>

definition holdsAt :: "string list \<Rightarrow> string \<Rightarrow> node \<Rightarrow> node \<Rightarrow> bool" where
  "holdsAt cs k c r =
    (dirPath cs r \<and> (case getNodeAt cs r of Some d \<Rightarrow> mget (children d) k = Some c | None \<Rightarrow> False))"

lemma holdsAt_put:
  assumes "dirPath cs r"
  shows "holdsAt cs k c (modAt cs (putChild k c) r)"
    "holdsAt cs j e r \<Longrightarrow> j \<noteq> k \<Longrightarrow> holdsAt cs j e (modAt cs (putChild k c) r)"
  using assms dirPath_get [OF assms] modAt_dirPath [OF inDir_put assms, of k c]
  by (auto simp: holdsAt_def getNodeAt_modAt split: option.splits)

lemma lookupWalk_holdsAt:
  assumes "overlay s = []" "deleted s = []" "\<not> IsLink c" "goodName k"
  shows "goodPath cs \<Longrightarrow> goodPath ks \<Longrightarrow> holdsAt ks k c n \<Longrightarrow>
    lookupWalk s (absPath cs) n (ks @ [k]) ff d = Ok c"
proof (induction ks arbitrary: n cs)
  case Nil
  then show ?case using assms
    by (simp add: holdsAt_def lookupWalk.simps(2) child_absPath childOf_def isDeleted_absPath)
next
  case (Cons x xs)
  then obtain e where e: "mget (children n) x = Some e" "holdsAt xs k c e" "IsDir n"
    by (auto simp: holdsAt_def split: option.splits)
  then have "\<not> IsLink e" by (cases xs) (auto simp: holdsAt_def split: option.splits)
  with assms Cons.IH [of "cs @ [x]" e] e Cons.prems show ?case
    by (simp add: lookupWalk.simps(2) child_absPath childOf_def isDeleted_absPath)
qed

lemma lookup_holdsAt:
  assumes "goodPath cs" "goodName k" "holdsAt cs k c (fs_root f)" "\<not> IsLink c"
  shows "lookup (NewSession f wd) (absPath (cs @ [k])) True 0 = Ok c"
proof -
  have "overlay (NewSession f wd) = []" "deleted (NewSession f wd) = []" "fs_root (base (NewSession f wd)) = fs_root f"
    by (simp_all add: NewSession_def Let_def)
  then show ?thesis
    using lookupWalk_holdsAt [of "NewSession f wd" c k "[]" cs "fs_root f" True 0] assms
    by (simp add: lookup_absPath isDeleted_absPath)
qed

lemma FS_Place_there:
  assumes "goodPath cs" "cs \<noteq> []" "goodName k" "dirPath cs (fs_root f)"
  shows "FS_Place f (absPath cs @ ''/'' @ k) content mode uname gname mtime =
    f\<lparr>fs_root := modAt cs (putChild k (Node (emptyInode\<lparr>n_name := k, n_mode := mode, n_uname := uname,
       n_gname := gname, n_mtime := mtime, n_content := content\<rparr>) [])) (fs_root f)\<rparr>"
proof -
  have "absPath cs @ ''/'' @ k = absPath (cs @ [k])" using assms(2) by (simp add: absPath_snoc)
  moreover have "mkdirAll (absPath cs) (fs_root f) = fs_root f"
    using assms ensureWalk_id [OF assms(4)] by (simp add: mkdirAll_def Let_def)
  ultimately show ?thesis using assms by (simp add: FS_Place_def Let_def)
qed

lemma dirPath_snoc:
  "dirPath (ds @ [k]) n \<longleftrightarrow> dirPath ds n \<and> (\<exists>d c. getNodeAt ds n = Some d \<and> mget (children d) k = Some c \<and> IsDir c \<and> \<not> IsLink c)"
proof (induction ds arbitrary: n)
  case Nil
  then show ?case by (auto split: option.splits)
next
  case (Cons x xs)
  then show ?case by (auto split: option.splits)
qed

lemma mkdirAll_dirPath:
  assumes "typedTree r" "IsDir r" "goodPath cs"
  shows "dirPath cs (mkdirAll (absPath cs) r)"
proof -
  have "IsDir (mkdirAllNode r k) \<and> typedTree (mkdirAllNode r k)" for k
    by (simp add: mkdirAllNode_def IsDir_def IsLink_def Mode_def ModeDir_def ModeSymlink_def)
  from ensureWalk_dirPath [of "mkdirAllNode r", OF this assms(1,2), of cs] assms typedTree_here [OF assms(1,2)]
  show ?thesis by (auto simp: mkdirAll_def Let_def)
qed

lemma FS_Mkdir_dirPath:
  assumes "typedTree (fs_root f)" "IsDir (fs_root f)" "goodPath cs" "cs \<noteq> []"
    and "(ModeDir OR mode) AND ModeSymlink = 0" "(ModeDir OR mode) AND ModeDir \<noteq> 0"
  shows "dirPath cs (fs_root (FS_Mkdir f (absPath cs) mode uname gname mtime))"
proof -
  obtain ds k where cs: "cs = ds @ [k]" using assms(4) by (metis rev_exhaust)
  define r where "r = mkdirAll (absPath ds) (fs_root f)"
  define graft where "graft = (\<lambda>parent.
      let n = (case mget (children parent) k of
            Some n \<Rightarrow> if IsDir n then n else Node (emptyInode\<lparr>n_name := k\<rparr>) []
          | None \<Rightarrow> Node (emptyInode\<lparr>n_name := k\<rparr>) [])
      in putChild k (setInfo (\<lambda>i. i\<lparr>n_mode := ModeDir OR mode, n_uname := uname, n_gname := gname, n_mtime := mtime\<rparr>) n) parent)"
  have f: "fs_root (FS_Mkdir f (absPath cs) mode uname gname mtime) = modAt ds graft r"
    using assms(3) by (simp add: FS_Mkdir_def Let_def cs r_def graft_def)
  have r: "dirPath ds r" unfolding r_def using mkdirAll_dirPath [OF assms(1,2)] assms(3) cs by simp
  obtain d where d: "getNodeAt ds r = Some d" using dirPath_get [OF r] by blast
  have g: "inDir graft" by (auto simp: inDir_def graft_def Let_def putChild_def)
  have "\<exists>c. mget (children (graft d)) k = Some c \<and> IsDir c \<and> \<not> IsLink c"
    using assms(5,6) by (simp add: graft_def Let_def setInfo_def IsDir_def IsLink_def Mode_def)
  then have "dirPath (ds @ [k]) (modAt ds graft r)"
    using modAt_dirPath [OF g r] by (simp add: dirPath_snoc getNodeAt_modAt d)
  with f cs show ?thesis by simp
qed

definition baitNode :: "'e assets \<Rightarrow> gotime \<Rightarrow> string \<Rightarrow> node" where
  "baitNode A t name = Node (emptyInode\<lparr>n_name := name, n_mode := 0x180, n_uname := ''root'',
     n_gname := ''root'', n_mtime := t, n_content := baitBytes A name\<rparr>) []"

lemma placeBaits_holds:
  assumes "goodPath cs" "cs \<noteq> []"
  shows "dirPath cs (fs_root f) \<Longrightarrow> list_all goodName names \<Longrightarrow> distinct names \<Longrightarrow>
    dirPath cs (fs_root (placeBaits A now (absPath cs) i names f)) \<and>
    (\<forall>name\<in>set names. \<exists>t. holdsAt cs name (baitNode A t name) (fs_root (placeBaits A now (absPath cs) i names f))) \<and>
    (\<forall>k c. k \<notin> set names \<longrightarrow> holdsAt cs k c (fs_root f) \<longrightarrow> holdsAt cs k c (fs_root (placeBaits A now (absPath cs) i names f)))"
proof (induction names arbitrary: i f)
  case (Cons name names)
  define t where "t = now - (5 * 24 - i * 7) * hourNs"
  define g where "g = f\<lparr>fs_root := modAt cs (putChild name (baitNode A t name)) (fs_root f)\<rparr>"
  have p: "placeBaits A now (absPath cs) i (name # names) f = placeBaits A now (absPath cs) (i + 1) names g"
    using FS_Place_there [OF assms, of name f] Cons.prems
    by (simp only: placeBaits.simps t_def [symmetric] g_def baitNode_def list.pred_inject(2))
  have d: "dirPath cs (fs_root g)" using modAt_dirPath [OF inDir_put Cons.prems(1)] by (simp add: g_def)
  have here: "holdsAt cs name (baitNode A t name) (fs_root g)" using Cons.prems by (simp add: g_def holdsAt_put)
  have other: "holdsAt cs k c (fs_root g)" if "holdsAt cs k c (fs_root f)" "k \<noteq> name" for k c
    using that holdsAt_put(2) [OF Cons.prems(1)] by (simp add: g_def)
  have names: "list_all goodName names" "distinct names" "name \<notin> set names" using Cons.prems by auto
  note IH = Cons.IH [OF d names(1,2), of "i + 1"]
  from IH here names(3) have "holdsAt cs name (baitNode A t name) (fs_root (placeBaits A now (absPath cs) (i + 1) names g))"
    by blast
  with IH other show ?case unfolding p by auto
qed simp

section \<open>The bait is where the persona says\<close>

definition lootPathOk :: "string \<Rightarrow> bool" where
  "lootPathOk l = (\<exists>cs. goodPath cs \<and> cs \<noteq> [] \<and> l = absPath cs)"

lemma hexString_plain: "slash \<notin> set (hexString b)"
proof -
  have d: "0 \<le> n \<Longrightarrow> n < 16 \<Longrightarrow> slash \<noteq> hexDigit n" for n
  proof -
    have "\<not> isHexDigit slash" by code_simp
    then show "0 \<le> n \<Longrightarrow> n < 16 \<Longrightarrow> slash \<noteq> hexDigit n" using hexDigit_digit [of n] by metis
  qed
  have "slash \<notin> set (hex2 x)" for x
  proof -
    have "0 \<le> code x div 16" "code x div 16 < 16" "0 \<le> code x mod 16" "code x mod 16 < 16"
      using code_range [of x] by presburger+
    then show ?thesis by (simp add: hex2_def d)
  qed
  then show ?thesis by (simp add: hexString_def)
qed

lemma makeLootPath_post: "pred_state lootPathOk makeLootPath"
proof -
  have hex: "pred_state (\<lambda>h. slash \<notin> set h) (randHex 2)"
    unfolding randHex_def by (rule pred_bind [OF pred_any], rule pred_return) (rule hexString_plain)
  have leaf: "goodName ((if dot then ''.'' @ leaf else leaf) @ ''_'' @ h)"
    if "leaf \<in> set lootLeaves" "slash \<notin> set h" for leaf dot h
    using that by (auto simp: goodName_def lootLeaves_def)
  have con: "goodName c" if "c \<in> set lootContainers" for c
    using that by (auto simp: goodName_def lootContainers_def)
  have mnt: "\<exists>ms. goodPath ms \<and> ms \<noteq> [] \<and> m = absPath ms" if "m \<in> set lootMounts" for m
  proof -
    have "absPath [''srv'', ''backups''] = ''/srv/backups''" "absPath [''mnt'', ''storage''] = ''/mnt/storage''"
      "goodPath [''srv'', ''backups'']" "goodPath [''mnt'', ''storage'']" by code_simp+
    then show ?thesis using that unfolding lootMounts_def by (metis list.distinct(1) list.set_cases set_ConsD)
  qed
  have ok: "lootPathOk (m @ ''/'' @ c @ ''/'' @ l)" if "m \<in> set lootMounts" "goodName c" "goodName l" for m c l
  proof -
    obtain ms where ms: "goodPath ms" "ms \<noteq> []" "m = absPath ms" using mnt [OF \<open>m \<in> set lootMounts\<close>] by blast
    have "m @ ''/'' @ c @ ''/'' @ l = absPath ((ms @ [c]) @ [l])"
      unfolding absPath_snoc [of "ms @ [c]"] absPath_snoc [of ms] using ms by simp
    with ms that show ?thesis unfolding lootPathOk_def by (intro exI [of _ "(ms @ [c]) @ [l]"]) simp
  qed
  show ?thesis
    unfolding makeLootPath_def Let_def
    by (rule pred_bind, rule pick_post, rule pred_bind, rule pred_any, rule pred_bind, rule pick_post, rule pred_bind, rule pick_post,
        rule pred_bind, rule hex, rule pred_return)
      (use ok con leaf in \<open>auto simp: lootMounts_def lootContainers_def lootLeaves_def\<close>)
qed

lemma GenerateProfile_loot: "pred_state (\<lambda>p. lootPathOk (p_LootPath p)) (GenerateProfile now name)"
  unfolding GenerateProfile_def osImage_def Let_def prod.case
  by (rule pred_bind_pair, rule gen_posts, (rule pred_bind, rule makeLootPath_post pick_inPool gen_posts gen_any)+,
      rule pred_return) simp

lemma generated_loot: "lootPathOk (p_LootPath (fst (run_state (GenerateProfile now name) draws)))"
  by (rule pred_state_run_state [OF GenerateProfile_loot])

lemma baitNames_ok:
  "list_all goodName baitNames" "distinct baitNames"
  by code_simp+

lemma bait_image: "name \<in> set baitNames \<Longrightarrow> hasImageExt (p @ name)"
proof -
  have "list_all (\<lambda>n. HasSuffix (ToLower n) ''.png'' \<or> HasSuffix (ToLower n) ''.jpg'') baitNames" by code_simp
  moreover have "HasSuffix (x @ y) z" if "HasSuffix y z" for x y z using that by (auto simp: HasSuffix_iff)
  ultimately show "name \<in> set baitNames \<Longrightarrow> hasImageExt (p @ name)"
    by (auto simp: hasImageExt_def Let_def ToLower_def list_all_iff)
qed

lemma graftLoot_holds:
  assumes "typedTree (fs_root f)" "IsDir (fs_root f)" "goodPath cs" "cs \<noteq> []" "p_LootPath p = absPath cs"
    and "name \<in> set baitNames"
  shows "\<exists>t. holdsAt cs name (baitNode A t name) (fs_root (graftLoot A now p f))"
proof -
  have m: "(ModeDir OR 0x1C0) AND ModeSymlink = 0" "(ModeDir OR 0x1C0) AND ModeDir \<noteq> 0"
    by (simp_all add: ModeDir_def ModeSymlink_def)
  have "dirPath cs (fs_root (FS_Mkdir f (absPath cs) 0x1C0 ''root'' ''root'' (now - 6 * 24 * hourNs)))"
    by (rule FS_Mkdir_dirPath [OF assms(1-4) m])
  from placeBaits_holds [OF assms(3,4) this baitNames_ok, of A now 0] assms(5,6) show ?thesis
    by (simp add: graftLoot_def)
qed


definition demoAssets :: "unit assets" where
  "demoAssets = \<lparr>as_template = (\<lambda>_ _ _. None), as_timeParse = (\<lambda>_ _. None), as_unmarshal = (\<lambda>_. Err ()),
     as_hostManifest = None, as_host = [], as_nasManifest = None, as_nas = [], as_png = ''PNG'', as_jpg = ''JFIF''\<rparr>"

lemma demo_Load:
  "Load (\<lambda>_ _. None) (\<lambda>_. Err () :: unit + manifest) 0 None (Some tr) [] = Ok \<lparr>fs_root = loaderRoot (newLoader (\<lambda>_ _. None) 0 emptyManifest)\<rparr>"
  by (simp add: Load_def emptyManifest_def)


end
