(* ===== verification/Ftp.thy ===== *)
theory Ftp
  imports Conversation
begin

text \<open>
  The FTP tarpit (\<^verbatim>\<open>internal/proto/ftp/ftp.go\<close>): the banner, the login dialogue until the client leaves or
  fails too often, and the daemon-specific replies.  Sleeps only pass time and are not modelled.
\<close>

definition maxFailedLogins :: nat where "maxFailedLogins = 3"

definition crlf :: "string list \<Rightarrow> string" where
  "crlf ls = concat (map (\<lambda>l. l @ [CR, LF]) ls)"

definition featVsftpd :: string where
  "featVsftpd = crlf [''211-Features:'', '' EPRT'', '' EPSV'', '' MDTM'', '' PASV'', '' REST STREAM'', '' SIZE'', '' TVFS'', '' UTF8'', ''211 End'']"

definition featPureFTPd :: string where
  "featPureFTPd = crlf [''211-Extensions supported:'', '' UTF8'', '' EPRT'', '' IDLE'', '' MDTM'', '' SIZE'', '' MFMT'', '' REST STREAM'',
     '' MLST type*;size*;sizd*;modify*;UNIX.mode*;UNIX.uid*;UNIX.gid*;unique*;'', '' MLSD'', '' PRET'', '' TVFS'', '' ESTA'', '' PASV'', '' EPSV'', ''211 End.'']"

definition featProFTPD :: string where
  "featProFTPD = crlf [''211-Features:'', '' EPRT'', '' EPSV'', '' MDTM'', '' MFMT'',
     '' MLST modify*;perm*;size*;type*;unique*;UNIX.group*;UNIX.mode*;UNIX.owner*;'', '' MLSD'', '' LANG en-US.UTF-8'', '' REST STREAM'', '' SIZE'',
     '' TVFS'', '' UTF8'', ''211 End'']"

definition knownVerbs :: "string list" where
  "knownVerbs = [''CWD'', ''CDUP'', ''PWD'', ''LIST'', ''NLST'', ''RETR'', ''STOR'', ''STOU'', ''APPE'', ''DELE'',
     ''MKD'', ''RMD'', ''RNFR'', ''RNTO'', ''TYPE'', ''PASV'', ''EPSV'', ''PORT'', ''EPRT'', ''SIZE'',
     ''MDTM'', ''MLSD'', ''MLST'', ''REST'', ''ABOR'', ''STAT'', ''ACCT'', ''SITE'', ''HELP'', ''MODE'',
     ''STRU'', ''ALLO'', ''OPTS'', ''AUTH'']"

definition software :: "Persona \<Rightarrow> string" where
  "software p = (if p_FTPSoftware p = ''proftpd'' \<or> p_FTPSoftware p = ''pure-ftpd'' then p_FTPSoftware p else ''vsftpd'')"

definition ftp_banner :: "Persona \<Rightarrow> string" where
  "ftp_banner p =
     (if p_FTPSoftware p = ''proftpd'' then
        ''220 ProFTPD '' @ p_FTPVer p @ '' Server ('' @ p_Hostname p @ '') [::ffff:'' @ p_HostIP p @ '']'' @ [CR, LF]
      else if p_FTPSoftware p = ''pure-ftpd'' then
        crlf [''220---------- Welcome to Pure-FTPd [privsep] ----------'', ''220-This is a private system - No anonymous login'',
          ''220 You are user number 1 of 50 allowed.'']
      else if p_FTPSoftware p = ''vsftpd'' then ''220 (vsFTPd '' @ p_FTPVer p @ '')'' @ [CR, LF]
      else ''220 (vsFTPd '' @ (if p_FTPVer p = [] then ''3.0.5'' else p_FTPVer p) @ '')'' @ [CR, LF])"

definition feat :: "Persona \<Rightarrow> string" where
  "feat p = (if software p = ''pure-ftpd'' then featPureFTPd else if software p = ''proftpd'' then featProFTPD else featVsftpd)"

definition unhandled :: "Persona \<Rightarrow> string \<Rightarrow> string" where
  "unhandled p cmd =
     (if software p = ''pure-ftpd'' then ''530 You aren'' @ [SQUOTE] @ ''t logged in.'' @ [CR, LF]
      else if software p = ''proftpd'' then
        (if cmd \<in> set knownVerbs then ''530 Please login with USER and PASS first.'' @ [CR, LF]
         else ''500 '' @ cmd @ '' not understood.'' @ [CR, LF])
      else ''530 Please login with USER and PASS.'' @ [CR, LF])"

definition splitCommand :: "string \<Rightarrow> string \<times> string" where
  "splitCommand line0 =
     (let line = TrimSpace line0
      in case IndexByte line (CHR '' '') of
           Some i \<Rightarrow> (ToUpper (take i line), TrimSpace (drop (i + 1) line))
         | None \<Rightarrow> (ToUpper line, []))"

text \<open>The reply to one command line: whether the dialogue goes on (with which user and failure count) and what was written and logged.\<close>

definition ftpReply :: "Persona \<Rightarrow> string \<Rightarrow> nat \<Rightarrow> string \<Rightarrow> conv \<Rightarrow> (string \<times> nat) option \<times> conv" where
  "ftpReply p user failed line c =
     (case splitCommand line of (cmd, arg) \<Rightarrow>
        if cmd = ''USER'' then (Some (arg, failed), say (''331 Please specify the password.'' @ [CR, LF]) c)
        else if cmd = ''PASS'' then
          (if user = [] then (Some (user, failed), say (''503 Login with USER first.'' @ [CR, LF]) c)
           else (if failed + 1 \<ge> maxFailedLogins then None else Some (user, failed + 1),
                 say (''530 Login incorrect.'' @ [CR, LF]) (record_event (\<lambda>i. LogCredential i user arg) c)))
        else if cmd = ''QUIT'' then (None, say (''221 Goodbye.'' @ [CR, LF]) c)
        else if cmd = ''SYST'' then
          (Some (user, failed),
           say (if software p = ''vsftpd'' then ''530 Please login with USER and PASS.'' @ [CR, LF] else ''215 UNIX Type: L8'' @ [CR, LF]) c)
        else if cmd = ''FEAT'' then (Some (user, failed), say (feat p) c)
        else if cmd = ''NOOP'' then (Some (user, failed), say (''200 NOOP ok.'' @ [CR, LF]) c)
        else (Some (user, failed), say (unhandled p cmd) c))"

lemma ftpReply_in: "ftpReply p user failed line c = (r, c') \<Longrightarrow> c_in c' = c_in c"
  by (auto simp: ftpReply_def say_def record_event_def split: prod.splits if_splits)

function ftpLoop :: "Persona \<Rightarrow> string \<Rightarrow> nat \<Rightarrow> conv \<Rightarrow> conv" where
  "ftpLoop p user failed c =
     (case getLine c of
        ((line, False), c') \<Rightarrow> c'
      | ((line, True), c') \<Rightarrow>
          (case ftpReply p user failed line c' of
             (None, c'') \<Rightarrow> c''
           | (Some (user', failed'), c'') \<Rightarrow> ftpLoop p user' failed' c''))"
  by pat_completeness auto
termination
  by (relation "measure (\<lambda>(p, u, f, c). length (c_in c))") (auto dest!: ftpReply_in [OF sym] getLine_shorter [OF sym])

declare ftpLoop.simps [simp del]

definition ftp_Handle :: "Persona \<Rightarrow> SessionID \<Rightarrow> string \<Rightarrow> conv" where
  "ftp_Handle p s input = ftpLoop p [] 0 (say (ftp_banner p) (setPersona (p_Hostname p) (opened s input)))"

section \<open>Every login is captured and none succeeds\<close>

lemma ftpLoop_invariant:
  assumes start: "I user failed c"
    and lines: "\<And>u f c l ok c'. I u f c \<Longrightarrow> getLine c = ((l, ok), c') \<Longrightarrow> I u f c'"
    and replies: "\<And>u f c l ok c0 c' u' f'. I u f c \<Longrightarrow> getLine c0 = ((l, ok), c) \<Longrightarrow> ftpReply p u f l c = (Some (u', f'), c') \<Longrightarrow> I u' f' c'"
    and stop: "\<And>u f c l ok c0 c'. I u f c \<Longrightarrow> getLine c0 = ((l, ok), c) \<Longrightarrow> ftpReply p u f l c = (None, c') \<Longrightarrow> Q c'"
    and gone: "\<And>u f c. I u f c \<Longrightarrow> Q c"
  shows "Q (ftpLoop p user failed c)"
  using start
proof (induction "length (c_in c)" arbitrary: user failed c rule: less_induct)
  case less
  obtain line ok c1 where g: "getLine c = ((line, ok), c1)" by (metis prod.collapse)
  have i1: "I user failed c1" using lines [OF less.prems g] .
  obtain r c2 where r: "ftpReply p user failed line c1 = (r, c2)" by (cases "ftpReply p user failed line c1")
  show ?case
  proof (cases "ok \<and> r \<noteq> None")
    case True
    then obtain u' f' where r': "r = Some (u', f')" by auto
    have "length (c_in c2) < length (c_in c)" using getLine_shorter [of c line c1] g True ftpReply_in [OF r] by simp
    moreover have "I u' f' c2" using replies [OF i1 g] r r' by simp
    ultimately have "Q (ftpLoop p u' f' c2)" using less.hyps by simp
    then show ?thesis using g r r' True by (subst ftpLoop.simps) simp
  next
    case False
    then show ?thesis using g r i1 stop [OF i1 g, of c2] gone by (subst ftpLoop.simps) (auto split: bool.splits option.splits)
  qed
qed

lemma proper_ftpReply: "proper s c \<Longrightarrow> ftpReply p u f l c = (r, c') \<Longrightarrow> proper s c'"
  by (auto simp: ftpReply_def split: prod.splits if_splits intro!: proper_intros)

lemma proper_ftpLoop: "proper s c \<Longrightarrow> proper s (ftpLoop p user failed c)"
  by (rule ftpLoop_invariant [where I = "\<lambda>_ _. proper s"]) (auto dest: proper_getLine proper_ftpReply)

interpretation ftp: protocol_handler "\<lambda>s i. outcomeOf (dur s i) (ftp_Handle p s i)"
  by (rule proper_handler) (auto simp: ftp_Handle_def intro!: proper_ftpLoop proper_intros)

text \<open>What a line read from the client can hold: no line terminator, whatever the client sent.\<close>

lemma TrimCRLF_set: "set (TrimCRLF b) \<subseteq> set b"
  by (auto simp: TrimCRLF_def TrimRight_def TrimRightFunc_def dest: set_dropWhileD)

lemma readLineLoop_set:
  "CR \<notin> set b \<Longrightarrow> LF \<notin> set b \<Longrightarrow> CR \<notin> set (fst (fst (readLineLoop b r))) \<and> LF \<notin> set (fst (fst (readLineLoop b r)))"
proof (induction b r rule: readLineLoop.induct)
  case (1 b)
  then show ?case using TrimCRLF_set [of b] by auto
next
  case (2 b c r)
  then show ?case using TrimCRLF_set [of b] TrimCRLF_set [of "b @ [c]"] by (auto simp: Let_def)
qed

definition oneLine :: "string \<Rightarrow> bool" where
  "oneLine l \<longleftrightarrow> CR \<notin> set l \<and> LF \<notin> set l"

lemma getLine_oneLine: "getLine c = ((l, ok), c') \<Longrightarrow> oneLine l \<and> c_out c' = c_out c \<and> c_log c' = c_log c"
  using readLineLoop_set [of "[]" "c_in c"] by (auto simp: getLine_def ReadLine_def oneLine_def split: prod.splits)

lemma trimSpaceLeft_set: "set (trimSpaceLeft s) \<subseteq> set s"
  by (induction s rule: trimSpaceLeft.induct) (subst trimSpaceLeft.simps, auto dest: in_set_dropD)

lemma trimSpaceRev_set: "set (trimSpaceRev s) \<subseteq> set s"
  by (induction s rule: trimSpaceRev.induct) (subst trimSpaceRev.simps, auto dest: in_set_dropD)

lemma TrimSpace_set: "set (TrimSpace s) \<subseteq> set s"
  using trimSpaceLeft_set [of s] trimSpaceRev_set [of "rev (trimSpaceLeft s)"] by (auto simp: TrimSpace_def)

lemma toUpperChar_ends: "toUpperChar c = CR \<Longrightarrow> c = CR" "toUpperChar c = LF \<Longrightarrow> c = LF"
proof -
  have "code (toUpperChar c) = (if isLower c then code c - 32 else code c)" by (auto simp: toUpperChar_def isLower_def)
  moreover have "code CR = 13" "code LF = 10" by code_simp+
  ultimately show "toUpperChar c = CR \<Longrightarrow> c = CR" "toUpperChar c = LF \<Longrightarrow> c = LF"
    by (auto simp: isLower_def toUpperChar_def split: if_splits)
qed

lemma splitCommand_oneLine: "oneLine line \<Longrightarrow> splitCommand line = (cmd, arg) \<Longrightarrow> oneLine cmd"
proof -
  assume l: "oneLine line" and sp: "splitCommand line = (cmd, arg)"
  obtain t where t: "cmd = ToUpper t" "set t \<subseteq> set line"
    using sp TrimSpace_set [of line] by (auto simp: splitCommand_def Let_def split: option.splits dest!: in_set_takeD)
  show ?thesis using l t toUpperChar_ends by (auto simp: oneLine_def ToUpper_def dest: sym)
qed

text \<open>A reply of the tarpit: whole lines, none of which is the success reply.\<close>

definition refusal :: "string \<Rightarrow> bool" where
  "refusal r \<longleftrightarrow> (\<exists>ls. r = crlf ls \<and> list_all (\<lambda>l. oneLine l \<and> \<not> HasPrefix l ''230'') ls)"

lemma refusal_crlf: "list_all (\<lambda>l. oneLine l \<and> \<not> HasPrefix l ''230'') ls \<Longrightarrow> refusal (crlf ls)"
  by (auto simp: refusal_def)

lemma refusal_one: "oneLine l \<Longrightarrow> \<not> HasPrefix l ''230'' \<Longrightarrow> refusal (l @ [CR, LF])"
  using refusal_crlf [of "[l]"] by (simp add: crlf_def)

lemma refusal_append: "refusal a \<Longrightarrow> refusal b \<Longrightarrow> refusal (a @ b)"
  unfolding refusal_def crlf_def by (elim exE, rule_tac x = "ls @ lsa" in exI) auto

lemma refusal_Nil: "refusal []"
  using refusal_crlf [of "[]"] by (simp add: crlf_def)

lemma refusal_feat: "refusal (feat p)"
  by (auto simp: feat_def featPureFTPd_def featProFTPD_def featVsftpd_def oneLine_def char_consts intro!: refusal_crlf)

lemma refusal_fixed:
  "refusal (''331 Please specify the password.'' @ [CR, LF])" "refusal (''503 Login with USER first.'' @ [CR, LF])"
  "refusal (''530 Login incorrect.'' @ [CR, LF])" "refusal (''221 Goodbye.'' @ [CR, LF])"
  "refusal (''530 Please login with USER and PASS.'' @ [CR, LF])" "refusal (''215 UNIX Type: L8'' @ [CR, LF])"
  "refusal (''200 NOOP ok.'' @ [CR, LF])" "refusal (''530 Please login with USER and PASS first.'' @ [CR, LF])"
  by (rule refusal_one; simp add: oneLine_def char_consts)+

lemma refusal_unhandled: "oneLine cmd \<Longrightarrow> refusal (unhandled p cmd)"
proof -
  assume "oneLine cmd"
  then have "refusal ((''500 '' @ cmd @ '' not understood.'') @ [CR, LF])"
    by (intro refusal_one) (simp_all add: oneLine_def char_consts)
  moreover have "refusal ((''530 You aren'' @ [SQUOTE] @ ''t logged in.'') @ [CR, LF])"
    by (intro refusal_one) (simp_all add: oneLine_def char_consts)
  ultimately show ?thesis
    unfolding unhandled_def by (simp only: append_assoc refusal_fixed simp_thms split: if_split)
qed

definition captured :: "string \<Rightarrow> nat \<Rightarrow> conv \<Rightarrow> bool" where
  "captured banner failed c \<longleftrightarrow>
     (\<exists>r. c_out c = banner @ r \<and> refusal r) \<and> length (c_log c) \<le> failed \<and>
     list_all (\<lambda>e. e_Event e = ''CREDENTIAL'' \<and> e_Username e \<noteq> []) (c_log c)"

lemma captured_say: "captured b f c \<Longrightarrow> refusal r \<Longrightarrow> captured b f (say r c)"
  by (auto simp: captured_def say_def intro: refusal_append)

text \<open>The text of a reply, apart from what it logs and whether it ends the dialogue.\<close>

definition ftpText :: "Persona \<Rightarrow> string \<Rightarrow> string \<Rightarrow> string" where
  "ftpText p user cmd =
     (if cmd = ''USER'' then ''331 Please specify the password.'' @ [CR, LF]
      else if cmd = ''PASS'' then if user = [] then ''503 Login with USER first.'' @ [CR, LF] else ''530 Login incorrect.'' @ [CR, LF]
      else if cmd = ''QUIT'' then ''221 Goodbye.'' @ [CR, LF]
      else if cmd = ''SYST'' then
        if software p = ''vsftpd'' then ''530 Please login with USER and PASS.'' @ [CR, LF] else ''215 UNIX Type: L8'' @ [CR, LF]
      else if cmd = ''FEAT'' then feat p
      else if cmd = ''NOOP'' then ''200 NOOP ok.'' @ [CR, LF]
      else unhandled p cmd)"

lemma refusal_ftpText: "oneLine cmd \<Longrightarrow> refusal (ftpText p user cmd)"
  unfolding ftpText_def by (simp only: refusal_fixed refusal_feat refusal_unhandled simp_thms split: if_split)

lemma ftpReply_shape:
  assumes "oneLine l" "ftpReply p u f l c = (r, c')"
  obtains w where "refusal w" "c' = say w c" "\<And>u' f'. r = Some (u', f') \<Longrightarrow> f' = f"
  | w arg where "refusal w" "u \<noteq> []" "c' = say w (record_event (\<lambda>i. LogCredential i u arg) c)"
      "r = (if f + 1 \<ge> maxFailedLogins then None else Some (u, f + 1))"
proof -
  obtain cmd arg where sp: "splitCommand l = (cmd, arg)" by (cases "splitCommand l")
  have w: "refusal (ftpText p u cmd)" using refusal_ftpText splitCommand_oneLine [OF assms(1) sp] by blast
  show thesis
  proof (cases "cmd = ''PASS'' \<and> u \<noteq> []")
    case True
    then have "r = (if f + 1 \<ge> maxFailedLogins then None else Some (u, f + 1))"
      "c' = say (ftpText p u cmd) (record_event (\<lambda>i. LogCredential i u arg) c)"
      using assms(2) sp by (auto simp: ftpReply_def ftpText_def)
    with True w that(2) show thesis by blast
  next
    case False
    have "ftpReply p u f l c = (if cmd = ''USER'' then Some (arg, f) else if cmd = ''QUIT'' then None else Some (u, f), say (ftpText p u cmd) c)"
      using False sp by (simp add: ftpReply_def ftpText_def)
    with assms(2) have "r = (if cmd = ''USER'' then Some (arg, f) else if cmd = ''QUIT'' then None else Some (u, f))"
      "c' = say (ftpText p u cmd) c" by simp_all
    with w that(1) [of "ftpText p u cmd"] show thesis by (auto split: if_splits)
  qed
qed

lemma captured_reply:
  assumes "captured b f c" "f < maxFailedLogins" "oneLine l" "ftpReply p u f l c = (r, c')"
  shows "captured b maxFailedLogins c' \<and> (\<forall>u' f'. r = Some (u', f') \<longrightarrow> captured b f' c' \<and> f' < maxFailedLogins)"
proof -
  have mono: "captured b g c \<Longrightarrow> g \<le> h \<Longrightarrow> captured b h c" for g h c by (auto simp: captured_def)
  from assms(3,4) show ?thesis
  proof (cases rule: ftpReply_shape)
    case (1 w)
    then have "captured b f c'" using captured_say [OF assms(1)] by simp
    with 1 assms(2) mono show ?thesis by auto
  next
    case (2 w arg)
    then have "captured b (f + 1) (record_event (\<lambda>i. LogCredential i u arg) c)"
      using assms(1) by (auto simp: captured_def record_event_def LogCredential_def)
    then have "captured b (f + 1) c'" using captured_say 2 by simp
    with 2 assms(2) mono show ?thesis by auto
  qed
qed

lemma ftpLoop_captured:
  assumes "captured b f c" "f < maxFailedLogins"
  shows "captured b maxFailedLogins (ftpLoop p u f c)"
proof (rule ftpLoop_invariant [where I = "\<lambda>_ f c. captured b f c \<and> f < maxFailedLogins"])
  show "captured b f' c' \<and> f' < maxFailedLogins"
    if "captured b f c \<and> f < maxFailedLogins" "getLine c0 = ((l, ok), c)" "ftpReply p u f l c = (Some (u', f'), c')" for u f c l ok c0 c' u' f'
    using captured_reply [of b f c l p u "Some (u', f')" c'] that getLine_oneLine [OF that(2)] by auto
  show "captured b maxFailedLogins c'"
    if "captured b f c \<and> f < maxFailedLogins" "getLine c0 = ((l, ok), c)" "ftpReply p u f l c = (None, c')" for u f c l ok c0 c'
    using captured_reply [of b f c l p u None c'] that getLine_oneLine [OF that(2)] by auto
qed (use assms in \<open>auto simp: captured_def dest: getLine_oneLine\<close>)


section \<open>A whole connection to the FTP listener\<close>

end
