(* ===== verification/TelnetService.thy ===== *)
theory TelnetService
  imports FakeHost Telnet Ftp
begin

text \<open>
  The services joined to the rest of the program.  A telnet login enters the fake shell (theory \<open>ShellRun\<close>)
  over the instance's file system, with the backup host (theory \<open>FakeHost\<close>) as the one pivot, and reads
  the socket through the option reader of theory \<open>Telnet\<close>, 4096 bytes at a time (the buffer of
  \<^verbatim>\<open>bufio.NewReader\<close>); the stream ends at the reader's first error.
  Shown: telnet and FTP both keep the server's contract (locale \<open>protocol_handler\<close>), so what the listener
  promises about a connection holds of each of them, down to the last command of the shell (theory \<open>SshService\<close>
  states it for all the services).
\<close>

section \<open>The stream behind the reader\<close>

text \<open>A result of \<open>iacRead\<close> that leaves at most \<open>n\<close> bytes unread; the rules follow the shape of the reader.\<close>

definition leaves :: "nat \<Rightarrow> ('a \<times> bytes \<times> 'b) \<Rightarrow> bool" where
  "leaves n x = (length (fst (snd x)) \<le> n)"

lemma leaves_cases:
  "(b \<Longrightarrow> leaves n x) \<Longrightarrow> (\<not> b \<Longrightarrow> leaves n y) \<Longrightarrow> leaves n (if b then x else y)"
  "(xs = [] \<Longrightarrow> leaves n x) \<Longrightarrow> (\<And>z zs. xs = z # zs \<Longrightarrow> leaves n (f z zs)) \<Longrightarrow>
     leaves n (case xs of [] \<Rightarrow> x | z # zs \<Rightarrow> f z zs)"
  "(\<And>r. q = (None, r) \<Longrightarrow> leaves n (g r)) \<Longrightarrow> (\<And>e r. q = (Some e, r) \<Longrightarrow> leaves n (h e r)) \<Longrightarrow>
     leaves n (case q of (None, r) \<Rightarrow> g r | (Some e, r) \<Rightarrow> h e r)"
  "leaves n t \<Longrightarrow> leaves n (case t of (r, rest, reps) \<Rightarrow> (r, rest, k reps))"
  by (auto simp: leaves_def split: list.splits prod.splits option.splits)

lemma leaves_mono: "leaves m x \<Longrightarrow> m \<le> n \<Longrightarrow> leaves n x"
  by (simp add: leaves_def)

lemma leaves_here: "length rest \<le> n \<Longrightarrow> leaves n (r, rest, reps)"
  by (simp add: leaves_def)

lemma iacRead_leaves: "leaves (length inp) (iacRead cap negs got inp)"
proof (induction inp arbitrary: negs got rule: length_induct)
  case (1 inp)
  then have IH: "leaves (length inp) (iacRead cap n g i)" if "length i < length inp" for n g i
    using that leaves_mono less_imp_le_nat by blast
  show ?case
    by (subst iacRead.simps, intro leaves_cases IH leaves_here)
       (auto dest: subneg_length)
qed

lemma iacRead_progress:
  assumes "0 < cap" "inp \<noteq> []" "iacRead cap 0 [] inp = (r, rest, reps)"
  shows "length rest < length inp"
proof -
  obtain b in1 where inp: "inp = b # in1" using assms(2) by (cases inp) auto
  have IH: "leaves (length in1) (iacRead cap n g i)" if "length i \<le> length in1" for n g i
    using that leaves_mono iacRead_leaves by blast
  have "leaves (length in1) (iacRead cap 0 [] inp)"
    using assms(1) unfolding inp
    by (subst iacRead.simps, intro leaves_cases IH leaves_here) (auto dest: subneg_length)
  then show ?thesis using assms(3) inp by (simp add: leaves_def)
qed

function iacStream :: "bytes \<Rightarrow> bytes" where
  "iacStream inp =
    (case iacRead 4096 0 [] inp of
       ((got, Some e), rest, reps) \<Rightarrow> got
     | ((got, None), rest, reps) \<Rightarrow> if inp = [] then got else got @ iacStream rest)"
  by pat_completeness auto
termination
  by (relation "measure length") (auto dest!: iacRead_progress [OF _ _ sym, rotated])

declare iacStream.simps [simp del]

section \<open>The whole service\<close>

definition nasResolver :: "'e assets \<Rightarrow> gotime \<Rightarrow> Persona \<Rightarrow> string \<Rightarrow> Pivot option" where
  "nasResolver A now p target =
    (if target \<noteq> p_BackupIP p \<and> target \<noteq> p_BackupHost p then None else NAS A now p)"

text \<open>
  A session reads and leaves the shared overlay counter \<open>pool\<close> as it finds it (\<open>shell_session_contained\<close>),
  so the counter is an argument and not a result.
\<close>

definition telnet_serve ::
  "'e assets \<Rightarrow> world \<Rightarrow> (nat \<Rightarrow> int \<times> rat) \<Rightarrow> FS \<Rightarrow> Persona \<Rightarrow> string \<Rightarrow> Accounts \<Rightarrow> int \<Rightarrow> SessionID \<Rightarrow> string \<Rightarrow> conv \<times> Accounts" where
  "telnet_serve A w clock fs p style a pool s raw =
    telnet_Handle (\<lambda>user c. fst (Run w c pool fs p user style (Some (nasResolver A (w_now w) p)))) clock p style a s (iacStream raw)"

lemma proper_convStep: "proper s c \<Longrightarrow> convStep c c' \<Longrightarrow> proper s c'"
  by (auto simp: proper_def convStep_def ownEvent_def list_all_iff)

lemma proper_shell: "proper s c \<Longrightarrow> proper s (fst (Run w c pool fs p user style pivot))"
  using Run_contained by (blast intro: proper_convStep)

lemma proper_readUsername: "proper s c \<Longrightarrow> readUsername k p c = (u, c') \<Longrightarrow> proper s c'"
proof (induction k arbitrary: c)
  case (Suc k)
  obtain l ok c1 where pr: "Prompt (p_Hostname p @ '' login: '') c = ((l, ok), c1)" by (metis prod.exhaust)
  have c1: "proper s c1" by (rule proper_Prompt [OF Suc.prems(1) pr])
  show ?case
  proof (cases "ok \<and> TrimSpace l = []")
    case True
    with Suc.prems(2) pr have "readUsername k p c1 = (u, c')" by simp
    then show ?thesis by (rule Suc.IH [OF c1])
  next
    case False
    with Suc.prems(2) pr have "c' = c1" by (cases ok) simp_all
    with c1 show ?thesis by simp
  qed
qed simp

lemma proper_loginLoop: "proper s c \<Longrightarrow> loginLoop k clock p c a = (r, c', a') \<Longrightarrow> proper s c'"
proof (induction k arbitrary: c a)
  case (Suc k)
  obtain u c1 where u: "readUsername 64 p c = (u, c1)" by (cases "readUsername 64 p c")
  have c1: "proper s c1" by (rule proper_readUsername [OF Suc.prems(1) u])
  show ?case
  proof (cases u)
    case None
    with Suc.prems(2) u c1 show ?thesis by simp
  next
    case (Some user)
    obtain pass ok c2 where pr: "Prompt ''Password: '' (say [IAC, WILL, optEcho] (setUsername user c1)) = ((pass, ok), c2)"
      by (metis prod.exhaust)
    have "proper s c2" by (rule proper_Prompt [OF _ pr]) (intro proper_intros c1)
    then have c3: "proper s (say [IAC, WONT, optEcho] c2)" by (rule proper_say)
    define c3 where "c3 = say [IAC, WONT, optEcho] c2"
    obtain x y b where ac: "AcceptFrom (fst (clock k)) (snd (clock k)) (se_SrcIP (c_id c3)) user pass a = ((x, y), b)"
      by (metis prod.exhaust)
    define c4 where "c4 = record_event (\<lambda>i. LogCredentialResult i user pass x y) (say [CR, LF] c3)"
    have c4: "proper s c4" unfolding c4_def by (intro proper_intros c3 [folded c3_def])
    have step: "loginLoop (Suc k) clock p c a =
        (if \<not> ok then (None, c3, a) else if x then (Some (loginUser p user), c4, b)
         else loginLoop k clock p (say (''Login incorrect'' @ [CR, LF, CR, LF]) c4) b)"
      using u Some pr ac by (simp add: Let_def c3_def c4_def)
    show ?thesis
    proof (cases "ok \<and> \<not> x")
      case True
      with step Suc.prems(2) have "loginLoop k clock p (say (''Login incorrect'' @ [CR, LF, CR, LF]) c4) b = (r, c', a')" by simp
      then show ?thesis by (rule Suc.IH [OF proper_say [OF c4]])
    next
      case False
      with step Suc.prems(2) have "c' = c3 \<or> c' = c4" by (cases ok) auto
      then show ?thesis using c3 c4 by (auto simp: c3_def)
    qed
  qed
qed simp

lemma proper_ciscoReply: "proper s c \<Longrightarrow> proper s (ciscoReply host cmd c)"
  by (simp add: ciscoReply_def proper_sayln)

lemma proper_ciscoLoop: "proper s c \<Longrightarrow> proper s (ciscoLoop host c)"
proof (induction host c rule: ciscoLoop.induct)
  case (1 host c)
  obtain l ok c' where p: "Prompt (host @ ''>'') c = ((l, ok), c')" by (metis prod.exhaust)
  have "proper s c'" by (rule proper_Prompt [OF 1(3) p])
  then have "proper s (record_event (\<lambda>i. LogCommand i x) c')" for x by (rule proper_intros)
  with 1(1,2) p \<open>proper s c'\<close> show ?case
    by (subst ciscoLoop.simps) (auto simp: Let_def proper_ciscoReply split: bool.splits)
qed

lemma proper_cisco:
  assumes "proper s c"
  shows "proper s (cisco p c)"
proof -
  define c0 where "c0 = sayln [] (sayln ''User Access Verification'' (sayln [] (sayln [] c)))"
  obtain user ok c1 where p1: "Prompt ''Username: '' c0 = ((user, ok), c1)" by (metis prod.exhaust)
  have c1: "proper s c1" by (rule proper_Prompt [OF _ p1]) (unfold c0_def, intro proper_intros assms)
  obtain pass ok2 c2 where p2: "Prompt ''Password: '' (say [IAC, WILL, optEcho] c1) = ((pass, ok2), c2)" by (metis prod.exhaust)
  have "proper s c2" by (rule proper_Prompt [OF proper_say [OF c1] p2])
  then have c3: "proper s (say [IAC, WONT, optEcho] c2)" by (rule proper_say)
  have "proper s (ciscoLoop (p_Hostname p) (record_event (\<lambda>i. LogCredential i (TrimSpace user) pass) (say [CR, LF] (say [IAC, WONT, optEcho] c2))))"
    by (intro proper_ciscoLoop proper_events proper_say \<open>proper s c2\<close>)
  with c1 c3 show ?thesis
    using p1 p2 by (cases ok) (simp_all add: cisco_def c0_def [symmetric] Let_def)
qed

lemma proper_telnet: "proper s (fst (telnet_serve A w clock fs p style a pool s raw))"
proof -
  have c: "proper s (say openingBurst (setPersona (p_Hostname p) (opened s (iacStream raw))))" by (intro proper_intros)
  show ?thesis
    unfolding telnet_serve_def telnet_Handle_def Let_def
    using proper_cisco [OF c] proper_loginLoop [OF proper_say [OF c]] proper_shell
    by (auto split: prod.splits option.splits)
qed

interpretation telnet: protocol_handler "\<lambda>s i. outcomeOf (dur s i) (fst (telnet_serve A w clock fs p style a pool s i))"
  by (rule proper_handler) (rule proper_telnet)

end
