(* ===== verification/Ssh.thy ===== *)
theory Ssh
  imports TelnetService "HOL-Library.Word"
begin

text \<open>
  The SSH service (\<^verbatim>\<open>internal/proto/ssh/ssh.go\<close>): the authentication callbacks, the requests of a session channel, the
  terminal line discipline between a channel and the shell, the banner-and-tarpit, and the handler that composes
  them.  The transport is \<^verbatim>\<open>golang.org/x/crypto/ssh\<close>: its \<open>NewServerConn\<close> is an argument, given the configuration with
  its callbacks and answering with the authenticated user and the channels the client opens; so are the key of a seed
  and the signer of a key.  A channel's requests and bytes are what the client sends on it.  The goroutine that drains
  a channel's requests runs beside the shell: what it logs once the shell has started is merged with what the shell
  logs in the order the channel's \<open>turns\<close> give, and is all logged before the next channel is served.
\<close>

section \<open>Constants\<close>

definition ssh_captureTimeout :: int where "ssh_captureTimeout = 15 * secondNs"
definition maxKexBytes :: nat where "maxKexBytes = 512"
definition tarpitHold :: int where "tarpitHold = 5 * minuteNs"
definition maxAuthTries :: nat where "maxAuthTries = 6"
definition handshakeTimeout :: int where "handshakeTimeout = 30 * secondNs"
definition sessionDeadline :: int where "sessionDeadline = 60 * minuteNs"
definition startTimeout :: int where "startTimeout = 2 * minuteNs"
definition maxCookedLine :: nat where "maxCookedLine = 64 * 1024"

section \<open>Wire strings\<close>

definition Uint32 :: "bytes \<Rightarrow> 32 word" where
  "Uint32 b = word_of_int (horner_sum code 256 (rev (take 4 b)))"

definition PutUint32 :: "32 word \<Rightarrow> bytes" where
  "PutUint32 v = map (\<lambda>k. char_of (uint (drop_bit (8 * k) v) mod 256)) [3, 2, 1, 0]"

definition sshString :: "bytes \<Rightarrow> string \<times> bytes \<times> bool" where
  "sshString b =
    (if length b < 4 then ([], b, False)
     else let n = Uint32 b; b = drop 4 b
          in if (of_nat (length b) :: 32 word) < n then ([], b, False)
             else (take (unat n) b, drop (unat n) b, True))"

definition sshStringOnly :: "bytes \<Rightarrow> string" where
  "sshStringOnly payload = fst (sshString payload)"

definition parseEnvReq :: "bytes \<Rightarrow> (string \<times> string) option" where
  "parseEnvReq payload =
    (case sshString payload of
       (_, _, False) \<Rightarrow> None
     | (name, rest, True) \<Rightarrow> (case sshString rest of (_, _, False) \<Rightarrow> None | (v, _, True) \<Rightarrow> Some (name, v)))"

section \<open>The terminal line discipline\<close>

record cookedTTY =
  ct_pending :: bytes
  ct_line :: bytes
  ct_prevCR :: bool
  ct_eof :: bool
  ct_echo :: bytes

definition newTTY :: cookedTTY where
  "newTTY = \<lparr>ct_pending = [], ct_line = [], ct_prevCR = False, ct_eof = False, ct_echo = []\<rparr>"

definition tty_Write :: "bytes \<Rightarrow> cookedTTY \<Rightarrow> cookedTTY" where
  "tty_Write b t = t\<lparr>ct_echo := ct_echo t @ b\<rparr>"

definition endLine :: "cookedTTY \<Rightarrow> cookedTTY" where
  "endLine t = (tty_Write [CR, LF] t)\<lparr>ct_pending := ct_pending t @ ct_line t @ [LF], ct_line := []\<rparr>"

text \<open>One byte that does not end the input.\<close>

definition cookByte :: "char \<Rightarrow> cookedTTY \<Rightarrow> cookedTTY" where
  "cookByte c t =
    (let cr = ct_prevCR t; t = t\<lparr>ct_prevCR := False\<rparr>
     in if c = CR then (endLine t)\<lparr>ct_prevCR := True\<rparr>
        else if c = LF then (if cr then t else endLine t)
        else if c = CHR 0x7F \<or> c = CHR 0x08 then
          (if ct_line t \<noteq> [] then tty_Write [CHR 0x08, CHR '' '', CHR 0x08] (t\<lparr>ct_line := butlast (ct_line t)\<rparr>) else t)
        else if c = CHR 0x03 then
          (tty_Write (''^C'' @ [CR, LF]) t)\<lparr>ct_line := [], ct_pending := ct_pending t @ [LF]\<rparr>
        else if c = CHR 0x04 then t
        else if code c \<ge> 0x20 then
          (let t = tty_Write [c] (t\<lparr>ct_line := ct_line t @ [c]\<rparr>)
           in if length (ct_line t) \<ge> maxCookedLine then endLine t else t)
        else t)"

fun cook :: "bytes \<Rightarrow> cookedTTY \<Rightarrow> cookedTTY" where
  "cook [] t = t"
| "cook (c # cs) t =
    (if c = CHR 0x04 \<and> ct_line t = [] then t\<lparr>ct_prevCR := False, ct_eof := True\<rparr>
     else cook cs (cookByte c t))"

text \<open>
  A read into a buffer of \<open>n\<close> bytes: the chunks are what the reads of the channel return, and \<open>None\<close> is the end of
  the input.
\<close>

fun cooked_Read :: "nat \<Rightarrow> cookedTTY \<Rightarrow> bytes list \<Rightarrow> bytes option \<times> cookedTTY \<times> bytes list" where
  "cooked_Read n t chunks =
    (if ct_pending t \<noteq> [] then (Some (take n (ct_pending t)), t\<lparr>ct_pending := drop n (ct_pending t)\<rparr>, chunks)
     else if ct_eof t then (None, t, chunks)
     else case chunks of
            [] \<Rightarrow> (None, t, [])
          | k # ks \<Rightarrow> cooked_Read n (cook k t) ks)"

declare cooked_Read.simps [simp del]

text \<open>Everything the reader above the discipline is given, and everything echoed.\<close>

definition cookedStream :: "bytes \<Rightarrow> bytes" where
  "cookedStream raw = ct_pending (cook raw newTTY)"

definition cookedEcho :: "bytes \<Rightarrow> bytes" where
  "cookedEcho raw = ct_echo (cook raw newTTY)"

section \<open>Authentication\<close>

type_synonym authState = "conv \<times> Accounts"

text \<open>The reading of the clock and of the die for an attempt is told apart by how much is logged before it.\<close>

definition authPassword :: "(nat \<Rightarrow> int \<times> rat) \<Rightarrow> string \<Rightarrow> string \<Rightarrow> authState \<Rightarrow> bool \<times> authState" where
  "authPassword clock user pass st =
    (let (c, a) = st; (now, die) = clock (length (c_log c));
         ((ok, bruteForced), a) = AcceptFrom now die (se_SrcIP (c_id c)) user pass a
     in (ok, record_event (\<lambda>i. LogCredentialResult i user pass ok bruteForced) c, a))"

text \<open>The answers to the one prompt of a keyboard-interactive challenge; none when it failed.\<close>

definition authKeyboard :: "(nat \<Rightarrow> int \<times> rat) \<Rightarrow> string \<Rightarrow> string list option \<Rightarrow> authState \<Rightarrow> bool \<times> authState" where
  "authKeyboard clock user answers st =
    (case answers of
       Some (answer # _) \<Rightarrow> authPassword clock user answer st
     | _ \<Rightarrow> (False, st))"

definition authPublicKey :: "string \<Rightarrow> string \<Rightarrow> string \<Rightarrow> authState \<Rightarrow> bool \<times> authState" where
  "authPublicKey user keyType fp st = (False, record_event (\<lambda>i. LogPublicKey i user keyType fp) (fst st), snd st)"

record 'k ServerConfig =
  ServerVersion :: string
  MaxAuthTries :: nat
  PasswordCallback :: "string \<Rightarrow> string \<Rightarrow> authState \<Rightarrow> bool \<times> authState"
  KeyboardInteractiveCallback :: "string \<Rightarrow> string list option \<Rightarrow> authState \<Rightarrow> bool \<times> authState"
  PublicKeyCallback :: "string \<Rightarrow> string \<Rightarrow> string \<Rightarrow> authState \<Rightarrow> bool \<times> authState"
  KeyExchanges :: "string list"
  Ciphers :: "string list"
  MACs :: "string list"
  hostKey :: 'k

definition serverConfig :: "(nat \<Rightarrow> int \<times> rat) \<Rightarrow> Persona \<Rightarrow> 'k \<Rightarrow> 'k ServerConfig" where
  "serverConfig clock p signer =
    \<lparr>ServerVersion = ''SSH-2.0-'' @ p_OpenSSHVer p, MaxAuthTries = maxAuthTries,
     PasswordCallback = authPassword clock, KeyboardInteractiveCallback = authKeyboard clock, PublicKeyCallback = authPublicKey,
     KeyExchanges = [''curve25519-sha256'', ''curve25519-sha256@libssh.org'', ''ecdh-sha2-nistp256'', ''ecdh-sha2-nistp384'',
       ''ecdh-sha2-nistp521'', ''diffie-hellman-group14-sha256''],
     Ciphers = [''chacha20-poly1305@openssh.com'', ''aes128-gcm@openssh.com'', ''aes256-gcm@openssh.com'', ''aes128-ctr'',
       ''aes192-ctr'', ''aes256-ctr''],
     MACs = [''hmac-sha2-256-etm@openssh.com'', ''hmac-sha2-512-etm@openssh.com'', ''hmac-sha2-256'', ''hmac-sha2-512''],
     hostKey = signer\<rparr>"

section \<open>The requests of a channel\<close>

record chanRequest =
  rq_Type :: string
  rq_WantReply :: bool
  rq_Payload :: bytes

record startReq =
  sr_exec :: bool
  sr_pty :: bool
  sr_cmd :: string

text \<open>What one request comes to: the reply sent, if any, the event logged, if any, and the start it asks for, if it is the first.\<close>

record handled =
  hd_reply :: "bool option"
  hd_event :: "(SessionID \<Rightarrow> Entry) option"
  hd_start :: "startReq option"

definition handled_new :: handled where
  "handled_new = \<lparr>hd_reply = None, hd_event = None, hd_start = None\<rparr>"

definition handleRequest :: "chanRequest \<Rightarrow> bool \<times> bool \<Rightarrow> handled \<times> bool \<times> bool" where
  "handleRequest req st =
    (let (pty, started) = st; typ = rq_Type req; payload = rq_Payload req
     in if typ = ''pty-req'' then (handled_new\<lparr>hd_reply := Some True\<rparr>, True, started)
        else if typ = ''env'' then
          (handled_new\<lparr>hd_reply := Some True,
             hd_event := map_option (\<lambda>(name, v) i. LogCommandNote i (''export '' @ name @ ''='' @ v) ''ssh-env'') (parseEnvReq payload)\<rparr>, pty, started)
        else if typ = ''shell'' then
          (handled_new\<lparr>hd_reply := Some (\<not> started),
             hd_start := (if started then None else Some \<lparr>sr_exec = False, sr_pty = pty, sr_cmd = []\<rparr>)\<rparr>, pty, True)
        else if typ = ''exec'' then
          (handled_new\<lparr>hd_reply := Some (\<not> started),
             hd_start := (if started then None else Some \<lparr>sr_exec = True, sr_pty = pty, sr_cmd = sshStringOnly payload\<rparr>)\<rparr>, pty, True)
        else if typ = ''subsystem'' then
          (handled_new\<lparr>hd_reply := Some False,
             hd_event := Some (\<lambda>i. LogCommandNote i (''subsystem '' @ sshStringOnly payload) ''ssh-subsystem'')\<rparr>, pty, started)
        else (handled_new\<lparr>hd_reply := (if rq_WantReply req then Some False else None)\<rparr>, pty, started))"

fun drain :: "chanRequest list \<Rightarrow> bool \<times> bool \<Rightarrow> handled list" where
  "drain [] st = []"
| "drain (req # reqs) st = (case handleRequest req st of (h, st) \<Rightarrow> h # drain reqs st)"

fun interleave_logs :: "bool list \<Rightarrow> 'a list \<Rightarrow> 'a list \<Rightarrow> 'a list" where
  "interleave_logs (b # bs) (x # xs) (y # ys) =
    (if b then x # interleave_logs bs xs (y # ys) else y # interleave_logs bs (x # xs) ys)"
| "interleave_logs _ xs ys = xs @ ys"

definition logged :: "handled list \<Rightarrow> SessionID \<Rightarrow> Entry list" where
  "logged hs i = List.map_filter (\<lambda>h. map_option (\<lambda>mk. mk i) (hd_event h)) hs"

section \<open>A session channel\<close>

record NewChannel =
  nc_ChannelType :: string
  nc_accepted :: bool
  nc_requests :: "chanRequest list"
  nc_timely :: bool
  nc_input :: bytes
  nc_turns :: "bool list"

text \<open>
  What the client sees on a channel it opened: whether it was rejected, the replies to its requests, the echo of
  the line discipline and the output of the shell (two streams of one terminal: how they mix depends on the sizes of
  the reads), and the payload of the exit-status request.
\<close>

record transcript =
  tr_rejected :: bool
  tr_replies :: "bool option list"
  tr_echo :: bytes
  tr_out :: bytes
  tr_exit :: "bytes option"

definition transcript_new :: transcript where
  "transcript_new = \<lparr>tr_rejected = False, tr_replies = [], tr_echo = [], tr_out = [], tr_exit = None\<rparr>"

definition shellUser :: "Persona \<Rightarrow> string \<Rightarrow> string" where
  "shellUser p authed = (if authed = p_Username p then p_Username p else ''root'')"

definition sendExitStatus :: "32 word \<Rightarrow> bytes" where
  "sendExitStatus v = PutUint32 v"

record 'e ssh_env =
  sv_assets :: "'e assets"
  sv_world :: world
  sv_fs :: FS
  sv_persona :: Persona
  sv_style :: string
  sv_clock :: "nat \<Rightarrow> int \<times> rat"

definition ssh_pivot :: "'e assets \<Rightarrow> gotime \<Rightarrow> Persona \<Rightarrow> string \<Rightarrow> Pivot option" where
  "ssh_pivot A now p target =
    (if target \<noteq> p_BackupIP p \<and> target \<noteq> p_BackupHost p then None else NAS A now p)"

text \<open>The shell or the one command, over a conversation bound to the channel.\<close>

definition runStart :: "'e ssh_env \<Rightarrow> startReq \<Rightarrow> conv \<Rightarrow> int \<Rightarrow> int \<times> conv \<times> int" where
  "runStart env sr c pool =
    (let p = sv_persona env; w = sv_world env; user = shellUser p (se_Username (c_id c));
         style = (if sv_style env = [] then ''ubuntu'' else sv_style env);
         pivot = Some (ssh_pivot (sv_assets env) (w_now w) p)
     in if sr_exec sr then
          RunOnce w (record_event (\<lambda>i. LogCommandNote i (sr_cmd sr) ''ssh-exec'') c) pool (sv_fs env) p user style pivot (sr_cmd sr)
        else (0, Run w c pool (sv_fs env) p user style pivot))"

definition serveSession :: "'e ssh_env \<Rightarrow> NewChannel \<Rightarrow> conv \<Rightarrow> int \<Rightarrow> transcript \<times> conv \<times> int" where
  "serveSession env nc c pool =
    (if \<not> nc_accepted nc then (transcript_new, c, pool)
     else
       let hs = drain (nc_requests nc) (False, False);
           before = takeWhile (\<lambda>h. hd_start h = None) hs;
           tr = transcript_new\<lparr>tr_replies := map hd_reply hs\<rparr>;
           c = c\<lparr>c_log := c_log c @ logged before (c_id c)\<rparr>
       in case dropWhile (\<lambda>h. hd_start h = None) hs of
            [] \<Rightarrow> (tr, c, pool)
          | h # later \<Rightarrow>
              if \<not> nc_timely nc then (tr, c\<lparr>c_log := c_log c @ logged later (c_id c)\<rparr>, pool)
              else
                let sr = the (hd_start h); tty = sr_pty sr \<and> \<not> sr_exec sr; raw = nc_input nc;
                    bound = c\<lparr>c_in := (if tty then cookedStream raw else raw), c_out := []\<rparr>;
                    (exitCode, c', pool) = runStart env sr bound pool;
                    shellLog = drop (length (c_log c)) (c_log c')
                in (tr\<lparr>tr_echo := (if tty then cookedEcho raw else []), tr_out := c_out c', tr_exit := Some (sendExitStatus (word_of_int exitCode))\<rparr>,
                    c'\<lparr>c_in := c_in c, c_out := c_out c, c_log := c_log c @ interleave_logs (nc_turns nc) shellLog (logged later (c_id c))\<rparr>, pool))"

fun serveChans :: "'e ssh_env \<Rightarrow> NewChannel list \<Rightarrow> conv \<Rightarrow> int \<Rightarrow> transcript list \<times> conv \<times> int" where
  "serveChans env [] c pool = ([], c, pool)"
| "serveChans env (nc # ncs) c pool =
    (if nc_ChannelType nc \<noteq> ''session'' then
       (case serveChans env ncs c pool of (trs, r) \<Rightarrow> (transcript_new\<lparr>tr_rejected := True\<rparr> # trs, r))
     else
       (case serveSession env nc c pool of (tr, c, pool) \<Rightarrow>
         (case serveChans env ncs c pool of (trs, r) \<Rightarrow> (tr # trs, r))))"

section \<open>The tarpit\<close>

text \<open>The conversation, the idle timeout its reads run under and how long the connection is held.\<close>

definition ssh_tarpit :: "Persona \<Rightarrow> conv \<Rightarrow> conv \<times> int \<times> int" where
  "ssh_tarpit p c =
    (let c = say (''SSH-2.0-'' @ p_OpenSSHVer p @ [CR, LF]) c;
         ((banner, _), c) = getLine c;
         c = record_event (\<lambda>i. LogRaw i ''SSH_CLIENT'' banner) c;
         ((kex, _), c) = getLine c
     in (record_event (\<lambda>i. LogRaw i ''SSH_KEX'' (HexDump (take maxKexBytes kex))) c, ssh_captureTimeout, tarpitHold))"

definition tarpit_Handle :: "Persona \<Rightarrow> conv \<Rightarrow> conv \<times> int \<times> int" where
  "tarpit_Handle p c = ssh_tarpit p (setPersona (p_Hostname p) c)"

section \<open>The handler\<close>

definition hostSigner :: "(bytes \<Rightarrow> 'k) \<Rightarrow> ('k \<Rightarrow> string + 's) \<Rightarrow> Persona \<Rightarrow> string + 's" where
  "hostSigner newKeyFromSeed newSignerFromKey p =
    (case SSHHostKey newKeyFromSeed p of Err e \<Rightarrow> Err e | Ok key \<Rightarrow> newSignerFromKey key)"

text \<open>How a connection went: into the tarpit, no further than authentication, or authenticated; each with the deadlines set.\<close>

datatype sshRun = Tarpitted int int | NotAuthenticated "int list" | Served "int list" string "transcript list"

definition ssh_Handle ::
  "(bytes \<Rightarrow> 'k) \<Rightarrow> ('k \<Rightarrow> string + 's) \<Rightarrow> ('s ServerConfig \<Rightarrow> authState \<Rightarrow> (string \<times> NewChannel list) option \<times> authState) \<Rightarrow>
   'e ssh_env \<Rightarrow> conv \<Rightarrow> Accounts \<Rightarrow> int \<Rightarrow> sshRun \<times> conv \<times> Accounts \<times> int" where
  "ssh_Handle newKeyFromSeed newSignerFromKey newServerConn env c a pool =
    (let p = sv_persona env; c = setPersona (p_Hostname p) c
     in case hostSigner newKeyFromSeed newSignerFromKey p of
          Err _ \<Rightarrow>
            (case ssh_tarpit p (record_event (\<lambda>i. LogRaw i ''SSH_NOTE'' ''no host key in persona; serving banner-and-tarpit'') c) of
               (c, idle, hold) \<Rightarrow> (Tarpitted idle hold, c, a, pool))
        | Ok signer \<Rightarrow>
            (case newServerConn (serverConfig (sv_clock env) p signer) (c, a) of
               (None, c, a) \<Rightarrow> (NotAuthenticated [handshakeTimeout], c, a, pool)
             | (Some (user, chans), c, a) \<Rightarrow>
                 (case serveChans env chans (setUsername user c) pool of
                    (trs, c, pool) \<Rightarrow> (Served [handshakeTimeout, sessionDeadline] user trs, c, a, pool))))"

end
