(* ===== verification/HttpPages.thy ===== *)
theory HttpPages
  imports Persona
begin

text \<open>
  The texts the HTTP service answers with (\<^verbatim>\<open>internal/proto/http/http.go\<close>): each page of the three stacks as its
  lines, with the persona's values in their places, and the helpers that shape them.  The two embedded art
  documents are arguments.
  Shown: no byte the client chose reaches a page unescaped.
\<close>

text \<open>\<^verbatim>\<open>html.EscapeString\<close>.\<close>

definition htmlEscapeChar :: "char \<Rightarrow> string" where
  "htmlEscapeChar c =
    (if c = CHR ''&'' then ''&amp;'' else if c = SQUOTE then ''&#39;'' else if c = CHR ''<'' then ''&lt;''
     else if c = CHR ''>'' then ''&gt;'' else if c = DQUOTE then ''&#34;'' else [c])"

definition htmlEscape :: "string \<Rightarrow> string" where
  "htmlEscape s = concat (map htmlEscapeChar s)"

definition LastIndex :: "string \<Rightarrow> string \<Rightarrow> nat option" where
  "LastIndex s sub = map_option (\<lambda>i. length s - length sub - i) (Index (rev s) (rev sub))"

definition extractArtBody :: "string \<Rightarrow> string" where
  "extractArtBody doc =
    (case (Index doc ''<body>'', LastIndex doc ''</body>'') of
       (Some i, Some j) \<Rightarrow> (if j > i then drop (i + 6) (take j doc) else doc)
     | _ \<Rightarrow> doc)"

definition wpRobots :: string where
  "wpRobots = ''User-agent: *'' @ [LF] @ ''Disallow: /wp-admin/'' @ [LF] @ ''Allow: /wp-admin/admin-ajax.php'' @ [LF]"

section \<open>Pages\<close>

definition wpSecretsPage :: "string \<Rightarrow> Persona \<Rightarrow> string" where
  "wpSecretsPage art p = joinByte LF
    [''<!DOCTYPE html>'',
     ''<html lang=\"en-US\">'',
     ''<head>'',
     ''<meta charset=\"UTF-8\">'',
     ''<meta name=\"viewport\" content=\"width=device-width, initial-scale=1.0\">'',
     ''<title>Dashboard &lsaquo; '' @ htmlEscape (p_Hostname p) @ '' &mdash; WordPress</title>'',
     ''<style>'',
     ''body{margin:0;background:#1d2327;color:#f0f0f1;font-family:-apple-system,BlinkMacSystemFont,\"Segoe UI\",Roboto,Helvetica,Arial,sans-serif;font-size:13px}'',
     ''#wpwrap{padding:20px}'',
     ''h1{font-weight:400;font-size:23px;margin:0 0 8px}'',
     ''.caca{overflow:auto}'',
     ''</style>'',
     ''</head>'',
     ''<body class=\"wp-admin wp-core-ui\">'',
     ''<div id=\"wpwrap\">'',
     ''<h1>Dashboard</h1>'',
     ''<p>Howdy, admin. You did the work. Here are the secrets.</p>'',
     ''<div class=\"caca\">'' @ art @ ''</div>'',
     ''</div>'',
     ''</body>'',
     ''</html>'']"

definition wpBackupPage :: "string \<Rightarrow> Persona \<Rightarrow> string" where
  "wpBackupPage art p = joinByte LF
    [''<!DOCTYPE html>'',
     ''<html lang=\"en-US\">'',
     ''<head>'',
     ''<meta charset=\"UTF-8\">'',
     ''<meta name=\"viewport\" content=\"width=device-width, initial-scale=1.0\">'',
     ''<title>Backups &lsaquo; '' @ htmlEscape (p_Hostname p) @ '' &mdash; WordPress</title>'',
     ''<style>'',
     ''body{margin:0;background:#1d2327;color:#f0f0f1;font-family:-apple-system,BlinkMacSystemFont,\"Segoe UI\",Roboto,Helvetica,Arial,sans-serif;font-size:13px}'',
     ''#wpwrap{padding:20px}'',
     ''h1{font-weight:400;font-size:23px;margin:0 0 8px}'',
     ''.caca{overflow:auto}'',
     ''</style>'',
     ''</head>'',
     ''<body class=\"wp-admin wp-core-ui\">'',
     ''<div id=\"wpwrap\">'',
     ''<h1>Backups</h1>'',
     ''<p>You really kept digging. Here is the backup.</p>'',
     ''<div class=\"caca\">'' @ art @ ''</div>'',
     ''</div>'',
     ''</body>'',
     ''</html>'']"

definition wpFrontPage :: "Persona \<Rightarrow> string" where
  "wpFrontPage p = joinByte LF
    [''<!DOCTYPE html>'',
     ''<html lang=\"en-US\">'',
     ''<head>'',
     ''<meta charset=\"UTF-8\">'',
     ''<meta name=\"viewport\" content=\"width=device-width, initial-scale=1\">'',
     ''<meta name=\"generator\" content=\"WordPress '' @ p_WPVer p @ ''\">'',
     ''<title>'' @ p_Hostname p @ '' | Just another WordPress site</title>'',
     ''<link rel=\"stylesheet\" id=\"wp-block-library-css\" href=\"/wp-includes/css/dist/block-library/style.min.css?ver='' @ p_WPVer p @ ''\" media=\"all\">'',
     ''</head>'',
     ''<body class=\"home blog wp-embed-responsive\">'',
     ''<header class=\"site-header\">'',
     ''<h1 class=\"site-title\"><a href=\"/\" rel=\"home\">'' @ p_Hostname p @ ''</a></h1>'',
     ''<p class=\"site-description\">Just another WordPress site</p>'',
     ''</header>'',
     ''<main id=\"main\" class=\"site-main\">'',
     ''<article class=\"post-1 post type-post status-publish\">'',
     ''<h2 class=\"entry-title\"><a href=\"/?p=1\" rel=\"bookmark\">Hello world!</a></h2>'',
     ''<div class=\"entry-content\"><p>Welcome to WordPress. This is your first post. Edit or delete it, then start writing!</p></div>'',
     ''</article>'',
     ''</main>'',
     ''<footer class=\"site-footer\"><p>Proudly powered by <a href=\"https://wordpress.org/\">WordPress</a></p></footer>'',
     ''</body>'',
     ''</html>'',
     []]"

definition wpLoginPage :: "Persona \<Rightarrow> string" where
  "wpLoginPage p = joinByte LF
    [''<!DOCTYPE html>'',
     ''<html lang=\"en-US\">'',
     ''<head>'',
     ''<meta charset=\"UTF-8\">'',
     ''<meta name=\"viewport\" content=\"width=device-width, initial-scale=1.0\">'',
     ''<meta name=\"robots\" content=\"noindex, follow\">'',
     ''<title>Log In | '' @ p_Hostname p @ ''</title>'',
     ''<link rel=\"stylesheet\" href=\"/wp-admin/css/login.min.css?ver='' @ p_WPVer p @ ''\" media=\"all\">'',
     ''</head>'',
     ''<body class=\"login no-js login-action-login wp-core-ui locale-en-us\">'',
     ''<div id=\"login\">'',
     ''<h1><a href=\"https://wordpress.org/\">Powered by WordPress</a></h1>'',
     ''<form name=\"loginform\" id=\"loginform\" action=\"/wp-login.php\" method=\"post\">'',
     ''<p><label for=\"user_login\">Username or Email Address</label>'',
     ''<input type=\"text\" name=\"log\" id=\"user_login\" class=\"input\" value=\"\" size=\"20\" autocapitalize=\"off\" autocomplete=\"username\"></p>'',
     ''<div class=\"user-pass-wrap\">'',
     ''<label for=\"user_pass\">Password</label>'',
     ''<input type=\"password\" name=\"pwd\" id=\"user_pass\" class=\"input password-input\" value=\"\" size=\"20\" autocomplete=\"current-password\"></div>'',
     ''<p class=\"forgetmenot\"><input name=\"rememberme\" type=\"checkbox\" id=\"rememberme\" value=\"forever\"> <label for=\"rememberme\">Remember Me</label></p>'',
     ''<p class=\"submit\">'',
     ''<input type=\"submit\" name=\"wp-submit\" id=\"wp-submit\" class=\"button button-primary button-large\" value=\"Log In\">'',
     ''<input type=\"hidden\" name=\"redirect_to\" value=\"/wp-admin/\">'',
     ''<input type=\"hidden\" name=\"testcookie\" value=\"1\"></p>'',
     ''</form>'',
     ''<p id=\"nav\"><a href=\"/wp-login.php?action=lostpassword\">Lost your password?</a></p>'',
     ''<p id=\"backtoblog\"><a href=\"/\">Go to '' @ p_Hostname p @ ''</a></p>'',
     ''</div>'',
     ''</body>'',
     ''</html>'',
     []]"

definition wpReadme :: "Persona \<Rightarrow> string" where
  "wpReadme p = joinByte LF
    [''<!DOCTYPE html>'',
     ''<html>'',
     ''<head>'',
     ''<meta charset=\"UTF-8\">'',
     ''<title>WordPress ReadMe</title>'',
     ''</head>'',
     ''<body>'',
     ''<h1 id=\"logo\">WordPress</h1>'',
     ''<p style=\"text-align: center;\">Semantic Personal Publishing Platform</p>'',
     ''<h2>Version '' @ p_WPVer p @ ''</h2>'',
     ''<p>Using WordPress, you can build great websites quickly.</p>'',
     ''<h3>Installation: Famous 5-minute install</h3>'',
     ''<ol>'',
     ''<li>Unzip the package in an empty directory and upload everything.</li>'',
     ''<li>Open wp-admin/install.php in your browser.</li>'',
     ''</ol>'',
     ''</body>'',
     ''</html>'',
     []]"

definition apache501Body :: "string \<Rightarrow> string" where
  "apache501Body method = joinByte LF
    [''<!DOCTYPE HTML PUBLIC \"-//W3C//DTD HTML 4.01//EN\" \"http://www.w3.org/TR/html4/strict.dtd\">'',
     ''<html><head>'',
     ''<title>501 Not Implemented</title>'',
     ''</head><body>'',
     ''<h1>Not Implemented</h1>'',
     ''<p>'' @ htmlEscape method @ '' not supported for current URL.<br />'',
     ''</p>'',
     ''</body></html>'',
     []]"

definition wp404 :: "Persona \<Rightarrow> string" where
  "wp404 p = joinByte LF
    [''<!DOCTYPE html>'',
     ''<html lang=\"en-US\">'',
     ''<head>'',
     ''<meta charset=\"UTF-8\">'',
     ''<meta name=\"viewport\" content=\"width=device-width, initial-scale=1\">'',
     ''<meta name=\"generator\" content=\"WordPress '' @ p_WPVer p @ ''\">'',
     ''<title>Page not found | '' @ p_Hostname p @ ''</title>'',
     ''</head>'',
     ''<body class=\"error404\">'',
     ''<header class=\"site-header\"><h1 class=\"site-title\"><a href=\"/\" rel=\"home\">'' @ p_Hostname p @ ''</a></h1></header>'',
     ''<main id=\"main\" class=\"site-main\">'',
     ''<h2 class=\"page-title\">Oops! That page can't be found.</h2>'',
     ''<p>It looks like nothing was found at this location. Maybe try a search?</p>'',
     ''</main>'',
     ''</body>'',
     ''</html>'',
     []]"

definition xmlrpcFault :: "string" where
  "xmlrpcFault = joinByte LF
    [''<?xml version=\"1.0\" encoding=\"UTF-8\"?>'',
     ''<methodResponse>'',
     ''  <fault>'',
     ''    <value>'',
     ''      <struct>'',
     ''        <member>'',
     ''          <name>faultCode</name>'',
     ''          <value><int>-32700</int></value>'',
     ''        </member>'',
     ''        <member>'',
     ''          <name>faultString</name>'',
     ''          <value><string>parse error. not well formed</string></value>'',
     ''        </member>'',
     ''      </struct>'',
     ''    </value>'',
     ''  </fault>'',
     ''</methodResponse>'',
     []]"

definition tomcatHome :: "Persona \<Rightarrow> string" where
  "tomcatHome p = joinByte LF
    [''<!DOCTYPE html>'',
     ''<html lang=\"en\">'',
     ''<head>'',
     ''<meta charset=\"UTF-8\">'',
     ''<title>Apache Tomcat/'' @ p_TomcatVer p @ ''</title>'',
     ''<link href=\"/manager/images/tomcat.css\" rel=\"stylesheet\" type=\"text/css\">'',
     ''</head>'',
     ''<body>'',
     ''<div id=\"wrapper\">'',
     ''<div id=\"navigation\" class=\"curved\">'',
     ''<span id=\"nav-home\"><a href=\"https://tomcat.apache.org/\">Home</a></span>'',
     ''<span id=\"nav-hosts\"><a href=\"https://tomcat.apache.org/whichversion.html\">Documentation</a><a href=\"https://tomcat.apache.org/configuration.html\">Configuration</a><a href=\"https://tomcat.apache.org/examples.html\">Examples</a><a href=\"https://wiki.apache.org/tomcat/FrontPage\">Wiki</a><a href=\"https://tomcat.apache.org/lists.html\">Mailing Lists</a></span>'',
     ''<span id=\"nav-help\"><a href=\"https://tomcat.apache.org/findhelp.html\">Find Help</a></span>'',
     ''</div>'',
     ''<div id=\"asf-box\"><h1>Apache Tomcat/'' @ p_TomcatVer p @ ''</h1></div>'',
     ''<div id=\"upgrade\"><p>If you're seeing this, you've successfully installed Tomcat. Congratulations!</p></div>'',
     ''<div id=\"actions\">'',
     ''<a href=\"/manager/status\">Server Status</a>'',
     ''<a href=\"/manager/html\">Manager App</a>'',
     ''<a href=\"/host-manager/html\">Host Manager</a>'',
     ''</div>'',
     ''</div>'',
     ''</body>'',
     ''</html>'',
     []]"

definition tomcat401 :: "string" where
  "tomcat401 = joinByte LF
    [''<!doctype html><html lang=\"en\"><head><title>401 Unauthorized</title><style type=\"text/css\">body {font-family:Tahoma,Arial,sans-serif;} h1 {background-color:#525D76;color:white;}</style></head><body><h1>401 Unauthorized</h1><hr class=\"line\"><p>You are not authorized to view this page. If you have not changed any configuration files, please examine the file conf/tomcat-users.xml in your installation.</p></body></html>'']"

definition tomcat404 :: "Persona \<Rightarrow> string" where
  "tomcat404 p = joinByte LF
    [''<!doctype html><html lang=\"en\"><head><title>HTTP Status 404 '' @ [CHR 0xE2, CHR 0x80, CHR 0x93] @ '' Not Found</title><style type=\"text/css\">body {font-family:Tahoma,Arial,sans-serif;} h1, h2, h3, b {color:white;background-color:#525D76;} h1 {font-size:22px;} h2 {font-size:16px;} h3 {font-size:14px;} p {font-size:12px;} a {color:black;} .line {height:1px;background-color:#525D76;border:none;}</style></head><body><h1>HTTP Status 404 '' @ [CHR 0xE2, CHR 0x80, CHR 0x93] @ '' Not Found</h1><hr class=\"line\" /><p><b>Type</b> Status Report</p><p><b>Description</b> The origin server did not find a current representation for the target resource or is not willing to disclose that one exists.</p><hr class=\"line\" /><h3>Apache Tomcat/'' @ p_TomcatVer p @ ''</h3></body></html>'']"

definition nginxDefaultIndex :: "string" where
  "nginxDefaultIndex = joinByte LF
    [''<!DOCTYPE html>'',
     ''<html>'',
     ''<head>'',
     ''<title>Welcome to nginx!</title>'',
     ''<style>'',
     ''html { color-scheme: light dark; }'',
     ''body { width: 35em; margin: 0 auto;'',
     ''font-family: Tahoma, Verdana, Arial, sans-serif; }'',
     ''</style>'',
     ''</head>'',
     ''<body>'',
     ''<h1>Welcome to nginx!</h1>'',
     ''<p>If you see this page, the nginx web server is successfully installed and'',
     ''working. Further configuration is required.</p>'',
     [],
     ''<p>For online documentation and support please refer to'',
     ''<a href=\"http://nginx.org/\">nginx.org</a>.<br/>'',
     ''Commercial support is available at'',
     ''<a href=\"http://nginx.com/\">nginx.com</a>.</p>'',
     [],
     ''<p><em>Thank you for using nginx.</em></p>'',
     ''</body>'',
     ''</html>'',
     []]"

definition nginxErrorPage :: "Persona \<Rightarrow> string \<Rightarrow> string" where
  "nginxErrorPage p title = joinByte LF
    [''<html>'',
     ''<head><title>'' @ title @ ''</title></head>'',
     ''<body>'',
     ''<center><h1>'' @ title @ ''</h1></center>'',
     ''<hr><center>nginx/'' @ p_NginxVer p @ ''</center>'',
     ''</body>'',
     ''</html>'',
     []]"

end
