(* ===== verification/GoCollect.thy ===== *)
theory GoCollect
  imports Prelude "HOL-Library.Multiset"
begin

text \<open>
  What the portal's pages collect with: \<open>sort.SliceStable\<close> with a comparison, Go's order on strings, and
  maps read with their zero value to accumulate counts.  A stable sort has one result, so the sort is
  written as insertion from the back.
  Shown: the result is a permutation in order, and where the comparison is a strict total order on the
  elements it does not depend on the order they came in: a sort over a Go map, whose iteration order is
  unspecified, is deterministic.
\<close>

fun insertBy :: "('a \<Rightarrow> 'a \<Rightarrow> bool) \<Rightarrow> 'a \<Rightarrow> 'a list \<Rightarrow> 'a list" where
  "insertBy lt x [] = [x]"
| "insertBy lt x (y # ys) = (if lt y x then y # insertBy lt x ys else x # y # ys)"

definition sliceStable :: "('a \<Rightarrow> 'a \<Rightarrow> bool) \<Rightarrow> 'a list \<Rightarrow> 'a list" where
  "sliceStable lt xs = foldr (insertBy lt) xs []"

fun strLess :: "string \<Rightarrow> string \<Rightarrow> bool" where
  "strLess s [] = False"
| "strLess [] (d # t) = True"
| "strLess (c # s) (d # t) = (code c < code d \<or> (c = d \<and> strLess s t))"

section \<open>The result of a sort\<close>

lemma mset_insertBy [simp]: "mset (insertBy lt x ys) = add_mset x (mset ys)"
  by (induction ys) simp_all

lemma mset_sliceStable [simp]: "mset (sliceStable lt xs) = mset xs"
  by (induction xs) (simp_all add: sliceStable_def)

lemma set_sliceStable [simp]: "set (sliceStable lt xs) = set xs"
  by (metis mset_sliceStable set_mset_mset)

lemma length_sliceStable [simp]: "length (sliceStable lt xs) = length xs"
  by (metis mset_sliceStable size_mset)

lemma distinct_sliceStable [simp]: "distinct (sliceStable lt xs) = distinct xs"
  by (metis mset_sliceStable distinct_count_atmost_1 set_sliceStable)

lemma distinct_map_sliceStable: "distinct (map f (sliceStable lt xs)) = distinct (map f xs)"
  by (metis mset_sliceStable mset_map mset_eq_imp_distinct_iff)

lemma sum_list_sliceStable [simp]: "sum_list (map f (sliceStable lt xs)) = sum_list (map f xs)" for f :: "_ \<Rightarrow> nat"
  by (metis mset_sliceStable mset_map sum_mset_sum_list)

text \<open>A comparison that orders the elements of a list, ties allowed.\<close>

definition orders :: "('a \<Rightarrow> 'a \<Rightarrow> bool) \<Rightarrow> bool" where
  "orders lt \<longleftrightarrow> (\<forall>x. \<not> lt x x) \<and> (\<forall>x y z. lt x y \<longrightarrow> lt y z \<longrightarrow> lt x z) \<and>
     (\<forall>x y z. \<not> lt x y \<longrightarrow> \<not> lt y z \<longrightarrow> \<not> lt x z)"

lemma set_insertBy [simp]: "set (insertBy lt x ys) = insert x (set ys)"
  by (metis mset_insertBy set_mset_add_mset_insert set_mset_mset)

lemma insertBy_sorted:
  assumes "orders lt" "sorted_wrt (\<lambda>x y. \<not> lt y x) ys"
  shows "sorted_wrt (\<lambda>x y. \<not> lt y x) (insertBy lt x ys)"
  using assms(2)
proof (induction ys)
  case (Cons y ys)
  have asym: "\<not> lt b a" if "lt a b" for a b using assms(1) that unfolding orders_def by metis
  have neg: "\<not> lt a c" if "\<not> lt a b" "\<not> lt b c" for a b c using assms(1) that unfolding orders_def by metis
  show ?case using Cons by (auto dest: asym neg)
qed simp

lemma sliceStable_sorted: "orders lt \<Longrightarrow> sorted_wrt (\<lambda>x y. \<not> lt y x) (sliceStable lt xs)"
  by (induction xs) (simp_all add: sliceStable_def insertBy_sorted)

lemma sliceStable_unique:
  assumes "orders lt" "\<forall>x\<in>set xs. \<forall>y\<in>set xs. x \<noteq> y \<longrightarrow> lt x y \<or> lt y x" "mset xs = mset ys"
  shows "sliceStable lt xs = sliceStable lt ys"
proof -
  have "us = vs" if "mset us = mset vs" "sorted_wrt (\<lambda>x y. \<not> lt y x) us" "sorted_wrt (\<lambda>x y. \<not> lt y x) vs" "set us \<subseteq> set xs" for us vs
    using that
  proof (induction us arbitrary: vs)
    case (Cons u us)
    then obtain v ws where vs: "vs = v # ws" by (cases vs) simp_all
    have sets: "set (u # us) = set (v # ws)" using Cons.prems(1) vs by (metis set_mset_mset)
    have "u = v"
    proof (rule ccontr)
      assume "u \<noteq> v"
      then have "v \<in> set us" "u \<in> set ws" using sets by auto
      then have "\<not> lt v u" "\<not> lt u v" using Cons.prems(2,3) vs by auto
      moreover have "u \<in> set xs" "v \<in> set xs" using Cons.prems(4) sets by auto
      ultimately show False using assms(2) \<open>u \<noteq> v\<close> by blast
    qed
    then show ?case using Cons vs by auto
  qed simp
  then show ?thesis using assms(3) sliceStable_sorted [OF assms(1)]
    by (metis mset_sliceStable set_sliceStable subset_refl)
qed

lemma strLess_irrefl [simp]: "\<not> strLess s s"
  by (induction s) simp_all

lemma strLess_trans: "strLess s t \<Longrightarrow> strLess t u \<Longrightarrow> strLess s u"
proof (induction s t arbitrary: u rule: strLess.induct)
  case (3 c s d t)
  then show ?case by (cases u) auto
qed (auto elim: strLess.elims)

lemma strLess_total: "s = t \<or> strLess s t \<or> strLess t s"
proof (induction s t rule: strLess.induct)
  case (1 s)
  then show ?case by (cases s) simp_all
next
  case (3 c s d t)
  then show ?case using code_inject [of c d] by (auto simp: not_less order.order_iff_strict)
qed simp

text \<open>The comparisons of the pages: a count, most first, then a second key.\<close>

lemma ordersI:
  assumes "\<And>x. \<not> lt x x" "\<And>x y z. lt x y \<Longrightarrow> lt y z \<Longrightarrow> lt x z" "\<And>x y z. lt x z \<Longrightarrow> lt x y \<or> lt y z"
  shows "orders lt"
  unfolding orders_def using assms by metis

lemma orders_count_then:
  fixes f :: "'a \<Rightarrow> 'b :: linorder"
  assumes "orders lt"
  shows "orders (\<lambda>x y. if f x \<noteq> f y then f x > f y else lt x y)"
proof (rule ordersI)
  have irrefl: "\<not> lt x x" and trans: "lt x y \<Longrightarrow> lt y z \<Longrightarrow> lt x z" and neg: "lt x z \<Longrightarrow> lt x y \<or> lt y z" for x y z
    using assms unfolding orders_def by metis+
  show "\<not> (if f x \<noteq> f x then f x > f x else lt x x)" for x using irrefl by simp
  show "if f x \<noteq> f z then f x > f z else lt x z"
    if "if f x \<noteq> f y then f x > f y else lt x y" "if f y \<noteq> f z then f y > f z else lt y z" for x y z
    using that trans [of x y z] by (auto split: if_splits)
  show "(if f x \<noteq> f y then f x > f y else lt x y) \<or> (if f y \<noteq> f z then f y > f z else lt y z)"
    if "if f x \<noteq> f z then f x > f z else lt x z" for x y z
    using that neg [of x z y] by (auto split: if_splits)
qed

lemma orders_strLess: "orders (\<lambda>x y. strLess (f x) (f y))" "orders (\<lambda>x y. strLess (f y) (f x))"
  by (rule ordersI; metis strLess_irrefl strLess_trans strLess_total)+

lemma orders_less: "orders (\<lambda>x y. f x < (f y :: 'b :: linorder))" "orders (\<lambda>x y. f x > (f y :: 'b :: linorder))"
  by (rule ordersI; auto)+

section \<open>Accumulating in a map\<close>

text \<open>Reading a key that may be absent gives Go's zero value.\<close>

definition mgetOr :: "'v \<Rightarrow> ('k, 'v) gomap \<Rightarrow> 'k \<Rightarrow> 'v" where
  "mgetOr z m k = (case mget m k of Some v \<Rightarrow> v | None \<Rightarrow> z)"

definition addOnce :: "'a \<Rightarrow> 'a list \<Rightarrow> 'a list" where
  "addOnce x xs = (if x \<in> set xs then xs else xs @ [x])"

lemma mgetOr_mput [simp]: "mgetOr z (mput k v m) k' = (if k' = k then v else mgetOr z m k')"
  by (simp add: mgetOr_def)

text \<open>A list split by a key.\<close>

lemma split_by_key:
  assumes "distinct ks" "\<forall>x\<in>set xs. f x \<in> set ks"
  shows "(\<Sum>k\<leftarrow>ks. length (filter (\<lambda>x. f x = k) xs)) = length xs"
  using assms(2)
proof (induction xs)
  case (Cons x xs)
  have "(\<Sum>k\<leftarrow>ks. if f x = k then 1 else 0) = (1::nat)"
    using assms(1) Cons.prems by (simp add: sum_list_distinct_conv_sum_set sum.delta)
  moreover have "(\<Sum>k\<leftarrow>ks. length (filter (\<lambda>y. f y = k) (x # xs))) =
      (\<Sum>k\<leftarrow>ks. length (filter (\<lambda>y. f y = k) xs) + (if f x = k then 1 else 0))"
    by (intro arg_cong [of _ _ sum_list] map_cong) simp_all
  ultimately show ?case using Cons by (simp add: sum_list_addf)
qed simp

lemma mput_sum:
  fixes f :: "'v \<Rightarrow> nat"
  shows "(\<Sum>v\<leftarrow>map snd (mput k v m). f v) + (case mget m k of Some u \<Rightarrow> f u | None \<Rightarrow> 0) = (\<Sum>v\<leftarrow>map snd m. f v) + f v"
  by (induction m) (auto split: option.split)

lemma bump_sum:
  fixes f :: "'v \<Rightarrow> nat"
  assumes "f z = 0" "\<And>v. f (g v) = f v + d"
  shows "(\<Sum>v\<leftarrow>map snd (mput k (g (mgetOr z m k)) m). f v) = (\<Sum>v\<leftarrow>map snd m. f v) + d"
  using mput_sum [of f k "g (mgetOr z m k)" m] assms by (cases "mget m k") (simp_all add: mgetOr_def)

end
