(* ===== verification/Http.thy ===== *)
theory Http
  imports HttpPages ShellProps GoCollect
begin

text \<open>
  The HTTP service (\<^verbatim>\<open>internal/proto/http/http.go\<close>) with the routing of recognised exploits into the inert shell
  (\<^verbatim>\<open>internal/proto/http/exploit.go\<close>), and the TLS banner service (\<^verbatim>\<open>internal/proto/https/https.go\<close>).  The login
  pressure a WordPress instance remembers of each source is explicit state; the date of a response, the MD5 and
  SHA-256 digests, the embedded art and the library's bound on form parameters are parameters.  Sleeps only pass
  time.  Letters outside ASCII are left alone when text is folded to lower case.
\<close>

section \<open>Parameters\<close>

record http_env =
  he_world :: world
  he_date :: string
  he_md5 :: "bytes \<Rightarrow> string"
  he_art :: string
  he_backup :: string
  he_maxParams :: nat

definition loginPageDelay :: int where "loginPageDelay = 200000000"
definition loginPostDelay :: int where "loginPostDelay = 3 * secondNs"
definition xmlrpcPostDelay :: int where "xmlrpcPostDelay = 2 * secondNs"
definition notFoundDelay :: int where "notFoundDelay = 500000000"
definition managerAuthDelay :: int where "managerAuthDelay = 2 * secondNs"
definition exploitDelay :: int where "exploitDelay = 400000000"
definition maxBodyBytes :: int where "maxBodyBytes = 65536"
definition maxHeaders :: nat where "maxHeaders = 100"

section \<open>The request\<close>

definition parseRequestLine :: "string \<Rightarrow> string \<times> string" where
  "parseRequestLine line =
    (let fields = Fields line;
         method = (if length fields > 0 then ToUpper (fields ! 0) else []);
         path = (if length fields > 1 then fields ! 1 else [])
     in (method, if path = [] then ''/'' else path))"

definition splitHeader :: "string \<Rightarrow> (string \<times> string) option" where
  "splitHeader line =
    (case IndexByte line (CHR '':'') of
       None \<Rightarrow> None
     | Some i \<Rightarrow> Some (TrimSpace (take i line), TrimSpace (drop (i + 1) line)))"

definition atoiSafe :: "string \<Rightarrow> int" where
  "atoiSafe s = (case Atoi (TrimSpace s) of Some n \<Rightarrow> (if n < 0 then 0 else n) | None \<Rightarrow> 0)"

definition readBody :: "int \<Rightarrow> conv \<Rightarrow> bytes \<times> conv" where
  "readBody n c =
    (if n \<le> 0 then ([], c)
     else let n = (if n > maxBodyBytes then maxBodyBytes else n); (b, rest) = ReadN n (c_in c)
          in (b, c\<lparr>c_in := rest\<rparr>))"

definition pathOnly :: "string \<Rightarrow> string" where
  "pathOnly target = (case IndexAny target ''?#'' of Some i \<Rightarrow> take i target | None \<Rightarrow> target)"

fun readHeaders :: "nat \<Rightarrow> (string, string) gomap \<Rightarrow> conv \<Rightarrow> (string, string) gomap \<times> conv" where
  "readHeaders 0 h c = (h, c)"
| "readHeaders (Suc n) h c =
    (case getLine c of ((line, lok), c) \<Rightarrow>
      if line = [] then (h, c)
      else let h = (case splitHeader line of Some (k, v) \<Rightarrow> mput (ToLower k) v h | None \<Rightarrow> h)
           in if lok then readHeaders n h c else (h, c))"

section \<open>The response\<close>

definition canonicalHeaderOrder :: "string list" where
  "canonicalHeaderOrder = [''X-Powered-By'', ''Link'', ''Expires'', ''Cache-Control'', ''Set-Cookie'', ''X-Frame-Options'',
     ''Content-Security-Policy'', ''Referrer-Policy'', ''Location'', ''WWW-Authenticate'', ''Allow'', ''Last-Modified'', ''ETag'',
     ''Accept-Ranges'', ''Vary'']"

type_synonym hdr = "string \<times> string"

definition CRLF :: string where "CRLF = [CR, LF]"

definition httpHead :: "int \<Rightarrow> string \<Rightarrow> hdr list \<Rightarrow> string \<Rightarrow> string" where
  "httpHead status reason headers body =
    ''HTTP/1.1 '' @ Itoa status @ '' '' @ reason @ CRLF @
    concat (map (\<lambda>(k, v). k @ '': '' @ v @ CRLF) headers) @ CRLF @ body"

definition contentLength :: "string \<Rightarrow> hdr" where
  "contentLength body = (''Content-Length'', Itoa (int (length body)))"

definition contentType :: "string \<Rightarrow> hdr list" where
  "contentType ct = (if ct = [] then [] else [(''Content-Type'', ct)])"

definition orderedExtras :: "(string, string) gomap \<Rightarrow> hdr list" where
  "orderedExtras extra =
    List.map_filter (\<lambda>k. map_option (Pair k) (mget extra k)) canonicalHeaderOrder @
    List.map_filter (\<lambda>k. map_option (Pair k) (mget extra k))
      (sliceStable strLess (filter (\<lambda>k. k \<noteq> ''Server'' \<and> k \<notin> set canonicalHeaderOrder) (mkeys extra)))"

definition nginxResponse :: "string \<Rightarrow> int \<Rightarrow> string \<Rightarrow> string \<Rightarrow> string \<Rightarrow> (string, string) gomap \<Rightarrow> string" where
  "nginxResponse date status reason ct body extra =
    httpHead status reason
      ([(''Server'', mgetOr [] extra ''Server''), (''Date'', date)] @ contentType ct @ [contentLength body] @ orderedExtras extra @
       [(''Connection'', ''close'')]) body"

definition apacheResponse :: "string \<Rightarrow> int \<Rightarrow> string \<Rightarrow> string \<Rightarrow> string \<Rightarrow> (string, string) gomap \<Rightarrow> string" where
  "apacheResponse date status reason ct body extra =
    httpHead status reason
      ([(''Date'', date)] @ (let s = mgetOr [] extra ''Server'' in if s \<noteq> [] then [(''Server'', s)] else []) @ orderedExtras extra @
       [contentLength body] @ contentType ct @ [(''Connection'', ''close'')]) body"

definition tomcatResponse :: "string \<Rightarrow> int \<Rightarrow> string \<Rightarrow> string \<Rightarrow> string \<Rightarrow> (string, string) gomap \<Rightarrow> string" where
  "tomcatResponse date status reason ct body extra =
    httpHead status reason
      (contentType ct @ [(''Content-Language'', ''en''), contentLength body, (''Date'', date)] @ orderedExtras extra @
       [(''Connection'', ''close'')]) body"

definition headersOnly :: "string \<Rightarrow> string" where
  "headersOnly resp = (case Index resp (CRLF @ CRLF) of Some i \<Rightarrow> take (i + 4) resp | None \<Rightarrow> resp)"

section \<open>Forms\<close>

text \<open>\<^verbatim>\<open>url.QueryUnescape\<close> and \<^verbatim>\<open>url.ParseQuery\<close>.\<close>

definition hexVal :: "char \<Rightarrow> int option" where
  "hexVal c =
    (if isDigit c then Some (code c - 48)
     else if 97 \<le> code c \<and> code c \<le> 102 then Some (code c - 87)
     else if 65 \<le> code c \<and> code c \<le> 70 then Some (code c - 55) else None)"

fun QueryUnescape :: "string \<Rightarrow> string option" where
  "QueryUnescape [] = Some []"
| "QueryUnescape (c # s) =
    (if c = CHR ''%'' then
       (case s of
          a # b # r \<Rightarrow>
            (case (hexVal a, hexVal b) of
               (Some x, Some y) \<Rightarrow> map_option (Cons (char_of (16 * x + y))) (QueryUnescape r)
             | _ \<Rightarrow> None)
        | _ \<Rightarrow> None)
     else if c = CHR ''+'' then map_option (Cons (CHR '' '')) (QueryUnescape s)
     else map_option (Cons c) (QueryUnescape s))"

text \<open>One part of a query between ampersands: skipped, an error, or a pair.\<close>

definition queryPart :: "string \<Rightarrow> (string \<times> string) option option" where
  "queryPart part =
    (if Contains part '';'' then None
     else if part = [] then Some None
     else case Cut part ''='' of (k, v, _) \<Rightarrow>
       (case (QueryUnescape k, QueryUnescape v) of (Some k, Some v) \<Rightarrow> Some (Some (k, v)) | _ \<Rightarrow> None))"

definition ParseQuery :: "nat \<Rightarrow> string \<Rightarrow> (string \<times> string) list option" where
  "ParseQuery maxParams query =
    (let parts = splitByte (CHR ''&'') query
     in if length parts > maxParams then None
        else if list_ex (\<lambda>p. queryPart p = None) parts then None
        else Some (List.map_filter (\<lambda>p. case queryPart p of Some kv \<Rightarrow> kv | None \<Rightarrow> None) parts))"

definition queryGet :: "(string \<times> string) list \<Rightarrow> string \<Rightarrow> string" where
  "queryGet kvs k = (case map_of kvs k of Some v \<Rightarrow> v | None \<Rightarrow> [])"

definition parseWPLogin :: "nat \<Rightarrow> string \<Rightarrow> string \<times> string" where
  "parseWPLogin maxParams body =
    (case ParseQuery maxParams body of None \<Rightarrow> ([], []) | Some v \<Rightarrow> (queryGet v ''log'', queryGet v ''pwd''))"


section \<open>The WordPress trap\<close>

record wpState =
  wpTries :: "(string, int) gomap"
  wpBroken :: "string list"
  wpAdminHits :: "(string, int) gomap"
  wpRevealLogged :: "string list"

definition wpNew :: wpState where
  "wpNew = \<lparr>wpTries = [], wpBroken = [], wpAdminHits = [], wpRevealLogged = []\<rparr>"

definition wpBreakInAfter :: int where "wpBreakInAfter = 5"
definition wpTrackCap :: nat where "wpTrackCap = 50000"
definition wpDeepAfter :: int where "wpDeepAfter = 10"

definition wpLetIn :: "string \<Rightarrow> wpState \<Rightarrow> bool \<times> wpState" where
  "wpLetIn srcIP st =
    (if srcIP \<in> set (wpBroken st) then (True, st)
     else if mget (wpTries st) srcIP = None \<and> length (wpTries st) \<ge> wpTrackCap then (False, st)
     else let n = mgetOr 0 (wpTries st) srcIP + 1
          in if n \<ge> wpBreakInAfter then
               (True, st\<lparr>wpTries := mdel srcIP (wpTries st), wpBroken := srcIP # wpBroken st\<rparr>)
             else (False, st\<lparr>wpTries := mput srcIP n (wpTries st)\<rparr>))"

definition wpBrokenIn :: "string \<Rightarrow> wpState \<Rightarrow> bool" where
  "wpBrokenIn srcIP st = (srcIP \<in> set (wpBroken st))"

datatype wpReveal = NotIn | First | Deep

definition wpAdminReveal :: "string \<Rightarrow> wpState \<Rightarrow> wpReveal \<times> wpState" where
  "wpAdminReveal srcIP st =
    (if srcIP \<notin> set (wpBroken st) then (NotIn, st)
     else let n = mgetOr 0 (wpAdminHits st) srcIP + 1; st = st\<lparr>wpAdminHits := mput srcIP n (wpAdminHits st)\<rparr>
          in if n \<ge> wpDeepAfter then (Deep, st) else (First, st))"

definition wpLogReveal :: "string \<Rightarrow> wpState \<Rightarrow> bool \<times> wpState" where
  "wpLogReveal srcIP st =
    (if srcIP \<in> set (wpRevealLogged st) then (False, st)
     else (True, st\<lparr>wpRevealLogged := srcIP # wpRevealLogged st\<rparr>))"

definition wpLoggedInCookie :: "world \<Rightarrow> Persona \<Rightarrow> string" where
  "wpLoggedInCookie w p =
    ''wordpress_logged_in_'' @ take 32 (w_sha w (''wp-logged-in:'' @ p_Hostname p)) @ ''=admin%7C9999999999%7Chash; path=/; HttpOnly''"

section \<open>The three stacks\<close>

record httpProto =
  hp_persona :: Persona
  hp_style :: string
  hp_fs :: "FS option"

definition wpHeaders :: "Persona \<Rightarrow> (string, string) gomap" where
  "wpHeaders p = [(''Server'', ''Apache/'' @ p_ApacheVer p @ '' (Ubuntu)''), (''X-Powered-By'', ''PHP/'' @ p_PHPVer p)]"

definition withHeader :: "(string, string) gomap \<Rightarrow> string \<Rightarrow> string \<Rightarrow> (string, string) gomap" where
  "withHeader h k v = mput k v h"

text \<open>The headers of the login page, in the order the code sets them.\<close>

definition wpLoginHeaders :: "Persona \<Rightarrow> (string, string) gomap" where
  "wpLoginHeaders p = foldl (\<lambda>h (k, v). mput k v h) (wpHeaders p)
    [(''Expires'', ''Wed, 11 Jan 1984 05:00:00 GMT''), (''Cache-Control'', ''no-cache, must-revalidate, max-age=0, no-store, private''),
     (''Set-Cookie'', ''wordpress_test_cookie=WP%20Cookie%20check; path=/; HttpOnly''), (''X-Frame-Options'', ''SAMEORIGIN''),
     (''Content-Security-Policy'', ''frame-ancestors '' @ [SQUOTE] @ ''self'' @ [SQUOTE] @ '';''),
     (''Referrer-Policy'', ''strict-origin-when-cross-origin''), (''Vary'', ''Accept-Encoding'')]"

definition html8 :: string where "html8 = ''text/html; charset=UTF-8''"

text \<open>A response with its delay, beside the trap's state and the conversation.\<close>

type_synonym reply = "(string \<times> int) \<times> wpState \<times> conv"

definition wpLogin :: "http_env \<Rightarrow> Persona \<Rightarrow> string \<Rightarrow> string \<Rightarrow> wpState \<Rightarrow> conv \<Rightarrow> reply" where
  "wpLogin he p srcIP body st c =
    (let (user, pass) = parseWPLogin (he_maxParams he) body;
         (acc, st) = wpLetIn srcIP st;
         c = record_event (\<lambda>i. LogCredentialResult i user pass acc acc) c
     in if acc then
          ((apacheResponse (he_date he) 302 ''Found'' [] []
              (mput ''Set-Cookie'' (wpLoggedInCookie (he_world he) p) (withHeader (wpHeaders p) ''Location'' ''/wp-admin/'')), loginPostDelay), st, c)
        else
          ((apacheResponse (he_date he) 302 ''Found'' [] []
              (withHeader (wpHeaders p) ''Location'' ''/wp-login.php?error=invalid_credentials''), loginPostDelay), st, c))"

definition wpAdmin :: "http_env \<Rightarrow> Persona \<Rightarrow> string \<Rightarrow> wpState \<Rightarrow> conv \<Rightarrow> reply" where
  "wpAdmin he p srcIP st c =
    (case wpAdminReveal srcIP st of
       (NotIn, st) \<Rightarrow>
         ((apacheResponse (he_date he) 302 ''Found'' [] []
             (withHeader (wpHeaders p) ''Location'' ''/wp-login.php?redirect_to=%2Fwp-admin%2F&reauth=1''), 0), st, c)
     | (r, st) \<Rightarrow>
         let (new, st) = wpLogReveal srcIP st;
             name = (if r = Deep then ''deep'' else ''first'');
             c = (if new then record_event (\<lambda>i. LogHoneytoken i ''jt-reveal:wp-admin'' (''wordpress break-in reveal ('' @ name @ '')'')) c else c);
             page = (if r = Deep then wpBackupPage (extractArtBody (he_backup he)) p else wpSecretsPage (extractArtBody (he_art he)) p)
         in ((apacheResponse (he_date he) 200 ''OK'' html8 page (wpHeaders p), loginPageDelay), st, c))"

definition respondWordPress :: "http_env \<Rightarrow> Persona \<Rightarrow> string \<Rightarrow> string \<Rightarrow> string \<Rightarrow> string \<Rightarrow> wpState \<Rightarrow> conv \<Rightarrow> reply" where
  "respondWordPress he p srcIP method path body st c =
    (let h = wpHeaders p; d = he_date he; route = pathOnly path
     in if method \<notin> {''GET'', ''HEAD'', ''POST''} then
          ((apacheResponse d 501 ''Not Implemented'' ''text/html; charset=iso-8859-1'' (apache501Body method)
              (withHeader h ''Allow'' ''POST,OPTIONS,HEAD,GET,TRACE''), 0), st, c)
        else if route = ''/'' then
          ((apacheResponse d 200 ''OK'' html8 (wpFrontPage p)
              (mput ''Vary'' ''Accept-Encoding'' (withHeader h ''Link''
                (''<http://'' @ p_Hostname p @ ''/index.php?rest_route=/>; rel='' @ [DQUOTE] @ ''https://api.w.org/'' @ [DQUOTE]))), 0), st, c)
        else if route = ''/wp-login.php'' then
          (if method = ''POST'' then wpLogin he p srcIP body st c
           else ((apacheResponse d 200 ''OK'' html8 (wpLoginPage p) (wpLoginHeaders p), loginPageDelay), st, c))
        else if route = ''/xmlrpc.php'' then
          (if method = ''POST'' then ((apacheResponse d 200 ''OK'' ''text/xml; charset=UTF-8'' xmlrpcFault h, xmlrpcPostDelay), st, c)
           else ((apacheResponse d 405 ''Method Not Allowed'' ''text/plain; charset=UTF-8'' ''XML-RPC server accepts POST requests only.''
                    (withHeader h ''Allow'' ''POST''), 0), st, c))
        else if HasPrefix route ''/wp-admin'' then wpAdmin he p srcIP st c
        else if route = ''/readme.html'' then ((apacheResponse d 200 ''OK'' html8 (wpReadme p) h, 0), st, c)
        else if route = ''/robots.txt'' then ((apacheResponse d 200 ''OK'' ''text/plain; charset=UTF-8'' wpRobots h, 0), st, c)
        else ((apacheResponse d 404 ''Not Found'' html8 (wp404 p) h, notFoundDelay), st, c))"

definition respondTomcat :: "string \<Rightarrow> Persona \<Rightarrow> string \<Rightarrow> string \<times> int" where
  "respondTomcat d p path =
    (let ct = ''text/html;charset=utf-8''; route = pathOnly path
     in if route = ''/'' then (tomcatResponse d 200 [] ct (tomcatHome p) [], 0)
        else if HasPrefix route ''/manager'' \<or> HasPrefix route ''/host-manager'' then
          (tomcatResponse d 401 [] ct tomcat401
             (withHeader [] ''WWW-Authenticate'' (''Basic realm='' @ [DQUOTE] @ ''Tomcat Manager Application'' @ [DQUOTE])), managerAuthDelay)
        else (tomcatResponse d 404 [] ct (tomcat404 p) [], 0))"

definition respondNginx :: "string \<Rightarrow> Persona \<Rightarrow> string \<Rightarrow> string \<Rightarrow> string \<times> int" where
  "respondNginx d p method path =
    (let h = [(''Server'', ''nginx/'' @ p_NginxVer p)]
     in if method \<noteq> ''GET'' \<and> method \<noteq> ''HEAD'' then
          (nginxResponse d 405 ''Not Allowed'' ''text/html'' (nginxErrorPage p ''405 Not Allowed'') h, 0)
        else if pathOnly path = ''/'' then
          (nginxResponse d 200 ''OK'' ''text/html'' nginxDefaultIndex
             (mput ''Accept-Ranges'' ''bytes'' (mput ''ETag'' ([DQUOTE] @ ''6434bbbe-267'' @ [DQUOTE])
               (withHeader h ''Last-Modified'' ''Tue, 11 Apr 2023 01:45:34 GMT''))), 0)
        else (nginxResponse d 404 ''Not Found'' ''text/html'' (nginxErrorPage p ''404 Not Found'') h, 0))"


section \<open>Exploits\<close>

text \<open>
  The part of package \<open>regexp\<close> the four expressions use: a sequence of literals, of alternatives tried in order and
  of repetitions of a class, greedy or lazy, one of them the capture.  The leftmost match is taken, and among
  the matches there the first in the order of preference.
\<close>

datatype item =
    Lit string
  | LitFold string
  | AnyOf "string list"
  | Rep bool nat "char \<Rightarrow> bool"
  | CapRep bool nat "char \<Rightarrow> bool"

primrec firstSome :: "('a \<Rightarrow> 'b option) \<Rightarrow> 'a list \<Rightarrow> 'b option" where
  "firstSome f [] = None"
| "firstSome f (x # xs) = (case f x of Some y \<Rightarrow> Some y | None \<Rightarrow> firstSome f xs)"

definition repLengths :: "bool \<Rightarrow> nat \<Rightarrow> (char \<Rightarrow> bool) \<Rightarrow> string \<Rightarrow> nat list" where
  "repLengths greedy m P s = (let ns = [m..<Suc (length (takeWhile P s))] in if greedy then rev ns else ns)"

primrec matchItems :: "item list \<Rightarrow> string \<Rightarrow> string \<Rightarrow> string option" where
  "matchItems [] s cap = Some cap"
| "matchItems (i # is) s cap =
    (case i of
       Lit w \<Rightarrow> (if HasPrefix s w then matchItems is (drop (length w) s) cap else None)
     | LitFold w \<Rightarrow> (if HasPrefix (ToLower s) w then matchItems is (drop (length w) s) cap else None)
     | AnyOf ws \<Rightarrow> firstSome (\<lambda>w. if HasPrefix s w then matchItems is (drop (length w) s) cap else None) ws
     | Rep greedy m P \<Rightarrow> firstSome (\<lambda>n. matchItems is (drop n s) cap) (repLengths greedy m P s)
     | CapRep greedy m P \<Rightarrow> firstSome (\<lambda>n. matchItems is (drop n s) (take n s)) (repLengths greedy m P s))"

fun FindSubmatch :: "item list \<Rightarrow> string \<Rightarrow> string option" where
  "FindSubmatch re [] = matchItems re [] []"
| "FindSubmatch re (c # s) = (case matchItems re (c # s) [] of Some m \<Rightarrow> Some m | None \<Rightarrow> FindSubmatch re s)"

definition reSpace :: "char \<Rightarrow> bool" where
  "reSpace c = (c \<in> {TAB, LF, CHR 0x0C, CR, CHR '' ''})"

abbreviation spaces :: item where "spaces \<equiv> Rep True 0 reSpace"
abbreviation quotes :: item where "quotes \<equiv> AnyOf [[DQUOTE], [SQUOTE]]"

definition reBase64Exec :: "item list" where
  "reBase64Exec = [AnyOf [''shell_exec'', ''system'', ''passthru'', ''exec'', ''popen'', ''proc_open''], spaces, Lit ''('', spaces,
     Lit ''base64_decode'', spaces, Lit ''('', spaces, quotes,
     CapRep True 1 (\<lambda>c. isUpper c \<or> isLower c \<or> isDigit c \<or> c \<in> set ''+/=''), quotes]"

definition reLiteralExec :: "item list" where
  "reLiteralExec = [AnyOf [''shell_exec'', ''system'', ''passthru'', ''exec'', ''popen''], spaces, Lit ''('', spaces, quotes,
     CapRep False 1 (\<lambda>c. c \<noteq> LF), quotes, spaces, Lit '')'']"

definition reEchoMd5 :: "item list" where
  "reEchoMd5 = [LitFold ''md5'', spaces, Lit ''('', spaces, quotes, CapRep False 1 (\<lambda>c. c \<noteq> LF), quotes, spaces, Lit '')'']"

definition reThinkVars :: "item list" where
  "reThinkVars = [Lit ''vars[1][]='', CapRep True 1 (\<lambda>c. c \<noteq> CHR ''&'' \<and> \<not> reSpace c)]"

definition looksLikeInjected :: "string \<Rightarrow> bool" where
  "looksLikeInjected s =
    list_ex (\<lambda>v. Contains s v) [''wget'', ''curl'', ''tftp'', ''ftpget'', ''busybox'', ''chmod'', ''/bin/'', ''sh '', ''|sh'', ''nc '']"

definition afterSemicolon :: "string \<Rightarrow> string" where
  "afterSemicolon s =
    (case IndexByte s (CHR '';'') of
       Some i \<Rightarrow> (let c = TrimSpace (drop (i + 1) s) in if looksLikeInjected c then c else [])
     | None \<Rightarrow> [])"

definition commandAfterInjection :: "string \<Rightarrow> string" where
  "commandAfterInjection s =
    (case IndexByte s BACKTICK of
       None \<Rightarrow> afterSemicolon s
     | Some i \<Rightarrow>
         let rest = drop (i + 1) s
         in case IndexByte rest BACKTICK of
              None \<Rightarrow> afterSemicolon s
            | Some j \<Rightarrow>
                let c = TrimSpace (take j rest)
                in if looksLikeInjected c then c else afterSemicolon (drop (j + 1) rest))"

definition phpish :: "string \<Rightarrow> string \<Rightarrow> bool" where
  "phpish lpath body =
    (Contains body ''<?php'' \<or> Contains lpath ''phpunit'' \<or> Contains lpath ''eval-stdin'' \<or> Contains lpath ''cgi-bin'' \<or>
     Contains lpath ''%add'' \<or> Contains (ToLower body) ''allow_url_include'')"

definition phpCommand :: "string \<Rightarrow> string \<Rightarrow> string option" where
  "phpCommand body decoded =
    (case Option.bind (FindSubmatch reBase64Exec body) StdDecode of
       Some raw \<Rightarrow> Some (TrimSpace raw)
     | None \<Rightarrow>
         (case FindSubmatch reLiteralExec body of
            Some m \<Rightarrow> Some (TrimSpace m)
          | None \<Rightarrow>
              if commandAfterInjection decoded \<noteq> [] then Some (commandAfterInjection decoded)
              else if looksLikeInjected decoded then Some (TrimSpace decoded) else None))"

definition thinkCommand :: "string \<Rightarrow> string \<Rightarrow> string option" where
  "thinkCommand path body =
    (if Contains (ToLower path) ''invokefunction'' \<or> Contains (ToLower body) ''invokefunction'' then
       map_option (\<lambda>c. TrimSpace (case QueryUnescape c of Some u \<Rightarrow> u | None \<Rightarrow> c)) (FindSubmatch reThinkVars (path @ ''&'' @ body))
     else None)"

definition routerCommand :: "string \<Rightarrow> string \<Rightarrow> string option" where
  "routerCommand lpath decoded =
    (if (Contains lpath ''/goform/'' \<or> Contains lpath ''gponform'' \<or> Contains lpath ''boaform'' \<or> Contains lpath ''/setup.cgi'' \<or>
         Contains lpath ''/hnap1'') \<and> commandAfterInjection decoded \<noteq> [] then Some (commandAfterInjection decoded)
     else None)"

text \<open>The command, if any, and the marker the response echoes (empty for none).\<close>

definition extractRCE :: "(bytes \<Rightarrow> string) \<Rightarrow> string \<Rightarrow> string \<Rightarrow> (string \<times> string) option" where
  "extractRCE md5 path body =
    (let decoded = (case QueryUnescape body of Some d \<Rightarrow> d | None \<Rightarrow> body);
         lpath = ToLower path;
         php = phpish lpath body;
         marker = (if php then (case FindSubmatch reEchoMd5 body of Some m \<Rightarrow> md5 m | None \<Rightarrow> []) else []);
         pick_first = (if php \<and> phpCommand body decoded \<noteq> None then phpCommand body decoded
                       else if thinkCommand path body \<noteq> None then thinkCommand path body
                       else routerCommand lpath decoded)
     in map_option (\<lambda>cmd. (cmd, marker)) pick_first)"

definition rceUser :: string where "rceUser = ''www-data''"

definition runRCE :: "world \<Rightarrow> FS \<Rightarrow> Persona \<Rightarrow> string \<Rightarrow> conv \<Rightarrow> int \<Rightarrow> string \<times> conv \<times> int" where
  "runRCE w fs p cmd c pool =
    (let c = record_event (\<lambda>i. LogExec i (''http-rce: '' @ cmd) []) c;
         ((out, _), c, pool) = RunOnceCaptured w c pool fs p rceUser ''ubuntu'' None cmd
     in (out, c, pool))"

definition rceResponse :: "string \<Rightarrow> Persona \<Rightarrow> string \<Rightarrow> string \<Rightarrow> string" where
  "rceResponse d p out marker = apacheResponse d 200 ''OK'' html8 (if marker \<noteq> [] then marker else out) (wpHeaders p)"

definition tryExploit :: "http_env \<Rightarrow> httpProto \<Rightarrow> string \<Rightarrow> string \<Rightarrow> conv \<Rightarrow> int \<Rightarrow> (string \<times> int) option \<times> conv \<times> int" where
  "tryExploit he pr path body c pool =
    (case hp_fs pr of
       None \<Rightarrow> (None, c, pool)
     | Some fs \<Rightarrow>
         (case extractRCE (he_md5 he) path body of
            None \<Rightarrow> (None, c, pool)
          | Some (cmd, marker) \<Rightarrow>
              if cmd = [] then (None, c, pool)
              else let (out, c, pool) = runRCE (he_world he) fs (hp_persona pr) cmd c pool
                   in (Some (rceResponse (he_date he) (hp_persona pr) out marker, exploitDelay), c, pool)))"

section \<open>The handler\<close>

definition respond :: "http_env \<Rightarrow> httpProto \<Rightarrow> string \<Rightarrow> string \<Rightarrow> string \<Rightarrow> wpState \<Rightarrow> conv \<Rightarrow> int \<Rightarrow> reply \<times> int" where
  "respond he pr method path body st c pool =
    (case tryExploit he pr path body c pool of
       (Some r, c, pool) \<Rightarrow> ((r, st, c), pool)
     | (None, c, pool) \<Rightarrow>
         (if hp_style pr = ''tomcat'' then ((respondTomcat (he_date he) (hp_persona pr) path, st, c), pool)
          else if hp_style pr = ''wordpress'' then
            (respondWordPress he (hp_persona pr) (se_SrcIP (c_id c)) method path body st c, pool)
          else ((respondNginx (he_date he) (hp_persona pr) method path, st, c), pool)))"

text \<open>One exchange; the second result is the delay slept before the response is written.\<close>

definition http_Handle :: "http_env \<Rightarrow> httpProto \<Rightarrow> wpState \<Rightarrow> conv \<Rightarrow> int \<Rightarrow> (conv \<times> int) \<times> wpState \<times> int" where
  "http_Handle he pr st c pool =
    (let c = setPersona (p_Hostname (hp_persona pr)) c
     in case getLine c of ((line, ok), c) \<Rightarrow>
       if line = [] \<and> \<not> ok then ((c, 0), st, pool)
       else
         let (method, path) = parseRequestLine line;
             (headers, c) = readHeaders maxHeaders [] c;
             c = record_event (\<lambda>i. LogHTTPRequest i method line path headers) c;
             (body, c) = (if method = ''POST'' then readBody (atoiSafe (mgetOr [] headers ''content-length'')) c else ([], c));
             c = (if method = ''POST'' then record_event (\<lambda>i. LogHTTPPost i path body (w_sha (he_world he) body)) c else c);
             (((resp, delay), st, c), pool) = respond he pr method path body st c pool;
             resp = (if method = ''HEAD'' then headersOnly resp else resp)
         in ((say resp c, if delay > 0 then delay else 0), st, pool))"

section \<open>The TLS banner service\<close>

definition captureTimeout :: int where "captureTimeout = 15 * secondNs"
definition maxHelloBytes :: nat where "maxHelloBytes = 128"
definition tarpit :: int where "tarpit = 4 * minuteNs"

definition boolText :: "bool \<Rightarrow> string" where
  "boolText b = (if b then ''true'' else ''false'')"

text \<open>The conversation, the idle timeout its one read runs under and how long the connection is held open.\<close>

definition https_Handle :: "Persona \<Rightarrow> conv \<Rightarrow> conv \<times> int \<times> int" where
  "https_Handle p c =
    (let c = setPersona (p_Hostname p) c;
         ((line, _), c) = getLine c;
         buf = take maxHelloBytes line;
         isHello = (length buf \<ge> 2 \<and> buf ! 0 = CHR 0x16 \<and> buf ! 1 = CHR 0x03)
     in (record_event (\<lambda>i. LogRaw i ''TLS_HELLO'' (''tls_hello='' @ boolText isHello @ '' hex='' @ HexDump buf)) c, captureTimeout, tarpit))"

end
