(* ===== verification/HttpService.thy ===== *)
theory HttpService
  imports Http TelnetService
begin

text \<open>
  What the HTTP and TLS services guarantee whatever a client sends: every response is framed so that a client
  finds exactly the page the service meant, an injected command changes nothing outside its conversation, and
  the WordPress door gives way to persistence only.
\<close>

section \<open>An injected command is contained\<close>

lemma onceShell_advances:
  "advances (newShell w s pool fs p user style pivot) (onceShell w s pool fs p user style pivot line)"
proof -
  let ?new = "newShell w s pool fs p user style pivot"
  have "advances ?new (onSession countCommand ?new)"
    by (intro evolves_advances evolves_onSession convStep_countCommand)
  moreover have "advances (onSession countCommand ?new) (runTopLine (pivotShell w) w line (onSession countCommand ?new))"
    by (rule runTopLine_advances) (rule pivotShell_evolves)
  ultimately show ?thesis unfolding onceShell_def by (rule advances_trans)
qed

lemma RunOnceCaptured_contained:
  assumes "RunOnceCaptured w s pool fs p user style pivot line = (r, c, pool')"
  shows "pool' = pool \<and> convStep s c \<and> c_out c = c_out s"
proof (cases "TrimSpace line = []")
  case True
  then show ?thesis using assms by (auto simp: RunOnceCaptured_def Let_def)
next
  case False
  let ?w = "w\<lparr>w_capturing := True\<rparr>" and ?s = "s\<lparr>c_out := []\<rparr>"
  define sh where "sh = onceShell ?w ?s pool fs p user style pivot (TrimSpace line)"
  have a: "advances (newShell ?w ?s pool fs p user style pivot) sh" unfolding sh_def by (rule onceShell_advances)
  obtain c1 where c: "closeShell sh = (c1, pool')" "c = c1\<lparr>c_out := c_out s\<rparr>"
    using assms False by (auto simp: RunOnceCaptured_def Let_def sh_def split: prod.splits)
  have "pool' = pool" "convStep ?s c1" using closeShell_new [OF a] c(1) by simp_all
  then show ?thesis using c(2) by (auto simp: convStep_def)
qed

text \<open>What a step of the handler may do before the response: log, read, and leave the output alone.\<close>

definition quiet :: "conv \<Rightarrow> conv \<Rightarrow> bool" where
  "quiet c c' \<longleftrightarrow> convStep c c' \<and> c_out c' = c_out c"

lemma quiet_refl [simp]: "quiet c c"
  by (simp add: quiet_def)

lemma quiet_trans: "quiet a b \<Longrightarrow> quiet b c \<Longrightarrow> quiet a c"
  unfolding quiet_def using convStep_trans by metis

lemma quiet_event: "(\<And>i. ownEvent i (mk i)) \<Longrightarrow> quiet c (record_event mk c)"
  by (auto simp: quiet_def convStep_def record_event_def)

lemma quiet_persona: "quiet c (setPersona h c)"
  by (auto simp: quiet_def convStep_def setPersona_def)

lemma quiet_getLine: "getLine c = (r, c') \<Longrightarrow> quiet c c'"
proof -
  assume g: "getLine c = (r, c')"
  have "length (c_in c') \<le> length (c_in c)"
    using g readLineLoop_consumes [of "c_in c" "[]"]
    by (cases "c_in c") (auto simp: getLine_def ReadLine_def split: prod.splits)
  then show ?thesis using g by (auto simp: quiet_def convStep_def getLine_def split: prod.splits)
qed

lemma quiet_headers: "readHeaders n h c = (h', c') \<Longrightarrow> quiet c c'"
proof (induction n h c arbitrary: h' c' rule: readHeaders.induct)
  case (2 n h c)
  obtain line lok c1 where g: "getLine c = ((line, lok), c1)" by (metis prod_cases3 surj_pair)
  then have q: "quiet c c1" by (rule quiet_getLine)
  show ?case
  proof (cases "line = [] \<or> \<not> lok")
    case True
    then have "c' = c1" using 2(2) g by (auto simp: Let_def split: if_splits)
    then show ?thesis using q by simp
  next
    case False
    then show ?thesis using 2(1) [OF g [symmetric] refl] 2(2) g q quiet_trans by (auto simp: Let_def)
  qed
qed simp

lemma quiet_body: "readBody n c = (b, c') \<Longrightarrow> quiet c c'"
  by (auto simp: readBody_def Let_def ReadN_def quiet_def convStep_def split: if_splits)

lemma own_http_events:
  "ownEvent i (LogHTTPRequest i m l pth h)" "ownEvent i (LogHTTPPost i pth b x)" "ownEvent i (LogExec i d x)"
  "ownEvent i (LogCredentialResult i u pw a b2)" "ownEvent i (LogHoneytoken i t d)" "ownEvent i (LogRaw i n d)"
  by (simp_all add: ownEvent_def session_events)


lemma tryExploit_quiet:
  assumes "tryExploit he pr path body c pool = (r, c', pool')"
  shows "pool' = pool \<and> quiet c c'"
proof (cases "\<exists>fs cmd marker. hp_fs pr = Some fs \<and> extractRCE (he_md5 he) path body = Some (cmd, marker) \<and> cmd \<noteq> []")
  case True
  then obtain fs cmd marker where m: "hp_fs pr = Some fs" "extractRCE (he_md5 he) path body = Some (cmd, marker)" "cmd \<noteq> []" by blast
  define c1 where "c1 = record_event (\<lambda>i. LogExec i (''http-rce: '' @ cmd) []) c"
  obtain out x c2 pool2 where run: "RunOnceCaptured (he_world he) c1 pool fs (hp_persona pr) rceUser ''ubuntu'' None cmd = ((out, x), c2, pool2)"
    by (metis prod_cases4 surj_pair)
  have "quiet c c1" unfolding c1_def by (rule quiet_event) (rule own_http_events)
  moreover have "pool2 = pool" "quiet c1 c2" using RunOnceCaptured_contained [OF run] by (simp_all add: quiet_def)
  moreover have "c' = c2" "pool' = pool2" using assms m run by (simp_all add: tryExploit_def runRCE_def c1_def)
  ultimately show ?thesis using quiet_trans by blast
next
  case False
  then show ?thesis using assms by (auto simp: tryExploit_def split: option.splits if_splits prod.splits)
qed

lemma wpLogin_quiet: "wpLogin he p ip body st c = (r, st', c') \<Longrightarrow> quiet c c'"
  by (auto simp: wpLogin_def Let_def intro!: quiet_event own_http_events split: prod.splits if_splits)

lemma wpAdmin_quiet: "wpAdmin he p ip st c = (r, st', c') \<Longrightarrow> quiet c c'"
  by (auto simp: wpAdmin_def Let_def intro!: quiet_event own_http_events split: prod.splits wpReveal.splits if_splits)

lemma respondWordPress_quiet: "respondWordPress he p ip m path body st c = (r, st', c') \<Longrightarrow> quiet c c'"
  by (auto simp: respondWordPress_def Let_def dest: wpLogin_quiet wpAdmin_quiet split: if_splits)

lemma respond_quiet:
  assumes "respond he pr m path body st c pool = ((r, st', c'), pool')"
  shows "pool' = pool \<and> quiet c c'"
proof -
  obtain r1 c1 pool1 where t: "tryExploit he pr path body c pool = (r1, c1, pool1)" by (metis prod_cases3)
  then have q: "pool1 = pool" "quiet c c1" using tryExploit_quiet by blast+
  have "pool' = pool1 \<and> quiet c1 c'"
    using assms t by (cases r1) (auto simp: respond_def Let_def dest: respondWordPress_quiet split: if_splits prod.splits)
  then show ?thesis using q quiet_trans by blast
qed

text \<open>The handler up to its response: what it has read, logged and run when it writes.\<close>

lemma http_Handle_steps:
  assumes "http_Handle he pr st c pool = ((c', delay), st', pool')"
  shows "pool' = pool \<and> (if fst (ReadLine False (c_in c)) = ([], False) then quiet c c' else (\<exists>c1 resp d st1 verb path body c0.
    respond he pr verb path body st c0 pool = ((((resp, d), st1, c1)), pool) \<and> quiet c c1 \<and>
    verb = fst (parseRequestLine (fst (fst (ReadLine False (c_in c))))) \<and>
    c' = say (if verb = ''HEAD'' then headersOnly resp else resp) c1))"
proof -
  define ca where "ca = setPersona (p_Hostname (hp_persona pr)) c"
  obtain line ok cb where g: "getLine ca = ((line, ok), cb)" by (metis prod_cases3 surj_pair)
  have line: "fst (ReadLine False (c_in c)) = (line, ok)" using g by (auto simp: getLine_def ca_def setPersona_def split: prod.splits)
  have qb: "quiet c cb" using quiet_persona quiet_getLine [OF g] quiet_trans by (metis ca_def)
  show ?thesis
  proof (cases "line = [] \<and> \<not> ok")
    case True
    then show ?thesis using assms g qb line by (simp add: http_Handle_def ca_def Let_def)
  next
    case False
    obtain verb path where m: "parseRequestLine line = (verb, path)" by (metis surj_pair)
    obtain headers cc where h: "readHeaders maxHeaders [] cb = (headers, cc)" by (metis surj_pair)
    define cd where "cd = record_event (\<lambda>i. LogHTTPRequest i verb line path headers) cc"
    obtain body ce where b: "(if verb = ''POST'' then readBody (atoiSafe (mgetOr [] headers ''content-length'')) cd else ([], cd)) = (body, ce)"
      by (metis surj_pair)
    define cf where "cf = (if verb = ''POST'' then record_event (\<lambda>i. LogHTTPPost i path body (w_sha (he_world he) body)) ce else ce)"
    obtain resp d st1 c1 pool1 where r: "respond he pr verb path body st cf pool = (((resp, d), st1, c1), pool1)" by (metis prod_cases4 surj_pair)
    have out: "c' = say (if verb = ''HEAD'' then headersOnly resp else resp) c1" "pool' = pool1"
      using assms False by (simp_all add: http_Handle_def ca_def [symmetric] g m h b [unfolded cd_def] r [unfolded cf_def] Let_def)
    have "quiet cc cd" unfolding cd_def by (rule quiet_event) (rule own_http_events)
    moreover have "quiet cd ce" using b quiet_body by (auto split: if_splits)
    moreover have "quiet ce cf" unfolding cf_def by (auto intro: quiet_event own_http_events)
    moreover have "quiet cf c1" "pool1 = pool" using respond_quiet [OF r] by blast+
    ultimately have "quiet c c1" "pool1 = pool" using qb quiet_headers [OF h] quiet_trans by blast+
    moreover have "verb = fst (parseRequestLine (fst (fst (ReadLine False (c_in c)))))" using m line by simp
    moreover have ne: "fst (ReadLine False (c_in c)) \<noteq> ([], False)" using line False by auto
    ultimately show ?thesis unfolding if_not_P [OF ne] using out r by blast
  qed
qed

lemma http_contained:
  assumes "http_Handle he pr st c pool = ((c', delay), st', pool')"
  shows "pool' = pool \<and> convStep c c'"
  using http_Handle_steps [OF assms] convStep_trans [OF _ convStep_say] by (auto simp: quiet_def split: if_splits)

lemma https_contained: "convStep c (fst (https_Handle p c))"
proof -
  obtain line ok c1 where g: "getLine (setPersona (p_Hostname p) c) = ((line, ok), c1)" by (metis prod_cases3 surj_pair)
  have "quiet c c1" using quiet_persona quiet_getLine [OF g] quiet_trans by metis
  moreover have "quiet c1 (fst (https_Handle p c))" using g by (auto simp: https_Handle_def Let_def intro!: quiet_event own_http_events)
  ultimately show ?thesis using quiet_trans unfolding quiet_def by metis
qed


section \<open>Framing\<close>

definition cleanText :: "string \<Rightarrow> bool" where
  "cleanText s = (CR \<notin> set s \<and> LF \<notin> set s)"

definition cleanMap :: "(string \<times> string) list \<Rightarrow> bool" where
  "cleanMap m = list_all (\<lambda>(k, v). cleanText k \<and> cleanText v) m"

text \<open>
  A response whose page a client finds: its headers cannot be split by what they contain, the first blank line is
  the one that ends them, the length they announce is the page's and the connection closes after it.
\<close>

definition framed :: "int \<Rightarrow> string \<Rightarrow> hdr list \<Rightarrow> string \<Rightarrow> bool" where
  "framed status reason hs page \<longleftrightarrow>
     cleanText reason \<and> cleanMap hs \<and> map snd (filter (\<lambda>h. fst h = ''Content-Length'') hs) = [Itoa (int (length page))] \<and>
     last hs = (''Connection'', ''close'') \<and>
     (\<forall>body. Index (httpHead status reason hs body) (CRLF @ CRLF) = Some (length (httpHead status reason hs []) - 4))"

lemma clean_Itoa: "0 \<le> n \<Longrightarrow> cleanText (Itoa n)"
  using natDigits_digits [of n]
  by (auto simp: cleanText_def Itoa_def list_all_iff isDigit_def code_def char_consts)

lemma Index_line:
  assumes "cleanText l" "\<not> HasPrefix rest CRLF"
  shows "Index (l @ CRLF @ rest) (CRLF @ CRLF) = map_option (\<lambda>i. length l + 2 + i) (Index rest (CRLF @ CRLF))"
  using assms
proof (induction l)
  case Nil
  then show ?case by (cases "Index rest (CRLF @ CRLF)") (auto simp: CRLF_def char_consts)
next
  case (Cons c l)
  then have "c \<noteq> CR" "cleanText l" by (auto simp: cleanText_def)
  then show ?case using Cons by (cases "Index rest (CRLF @ CRLF)") (auto simp: CRLF_def)
qed

lemma Index_lines:
  assumes "list_all (\<lambda>l. cleanText l \<and> l \<noteq> []) ls" "ls \<noteq> []"
  shows "Index (concat (map (\<lambda>l. l @ CRLF) ls) @ CRLF @ body) (CRLF @ CRLF) = Some (length (concat (map (\<lambda>l. l @ CRLF) ls)) - 2)"
  using assms
proof (induction ls)
  case (Cons l ls)
  have l: "cleanText l" "l \<noteq> []" using Cons.prems by simp_all
  show ?case
  proof (cases "ls = []")
    case True
    have "Index (l @ CRLF @ CRLF @ body) (CRLF @ CRLF) = Some (length l)"
      using l(1) by (induction l) (auto simp: CRLF_def cleanText_def)
    then show ?thesis using True by (simp add: CRLF_def)
  next
    case False
    then obtain k ks where ks: "ls = k # ks" by (cases ls) auto
    have "cleanText k" "k \<noteq> []" using Cons.prems ks by simp_all
    then have np: "\<not> HasPrefix (concat (map (\<lambda>l. l @ CRLF) ls) @ CRLF @ body) CRLF"
      using ks by (cases k) (auto simp: CRLF_def cleanText_def)
    have "length (concat (map (\<lambda>l. l @ CRLF) ls)) \<ge> 2" using ks by (simp add: CRLF_def)
    then show ?thesis using Index_line [OF l(1) np] Cons False by (simp add: CRLF_def)
  qed
qed simp

lemma httpHead_lines:
  "httpHead status reason hs body =
    concat (map (\<lambda>l. l @ CRLF) ((''HTTP/1.1 '' @ Itoa status @ '' '' @ reason) # map (\<lambda>(k, v). k @ '': '' @ v) hs)) @ CRLF @ body"
  by (induction hs) (auto simp: httpHead_def)

lemma framedI:
  assumes "cleanText reason" "cleanMap hs" "0 \<le> status"
    "map snd (filter (\<lambda>h. fst h = ''Content-Length'') hs) = [Itoa (int (length page))]" "last hs = (''Connection'', ''close'')"
  shows "framed status reason hs page"
proof -
  let ?ls = "(''HTTP/1.1 '' @ Itoa status @ '' '' @ reason) # map (\<lambda>(k, v). k @ '': '' @ v) hs"
  have "cleanText (''HTTP/1.1 '' @ Itoa status @ '' '' @ reason)"
    using assms(1) clean_Itoa [OF assms(3)] by (simp add: cleanText_def char_consts)
  moreover have "list_all (\<lambda>l. cleanText l \<and> l \<noteq> []) (map (\<lambda>(k, v). k @ '': '' @ v) hs)"
    using assms(2) by (auto simp: cleanMap_def list_all_iff cleanText_def char_consts)
  ultimately have l: "list_all (\<lambda>l. cleanText l \<and> l \<noteq> []) ?ls" by simp
  have "Index (httpHead status reason hs body) (CRLF @ CRLF) = Some (length (httpHead status reason hs []) - 4)" for body
    unfolding httpHead_lines using Index_lines [OF l, of body] by (simp add: CRLF_def)
  then show ?thesis using assms by (simp add: framed_def)
qed

lemma clean_append [simp]: "cleanMap (xs @ ys) \<longleftrightarrow> cleanMap xs \<and> cleanMap ys" "cleanMap []"
  "cleanMap ((k, v) # m) \<longleftrightarrow> cleanText k \<and> cleanText v \<and> cleanMap m"
  by (auto simp: cleanMap_def)

lemma clean_orderedExtras: "cleanMap extra \<Longrightarrow> cleanMap (orderedExtras extra)"
proof -
  assume c: "cleanMap extra"
  have "cleanMap (List.map_filter (\<lambda>k. map_option (Pair k) (mget extra k)) ks)" for ks
  proof (induction ks)
    case (Cons k ks)
    then show ?case using c by (auto simp: List.map_filter_simps cleanMap_def list_all_iff dest: mget_in split: option.splits)
  qed (simp add: List.map_filter_simps)
  then show ?thesis by (simp add: orderedExtras_def)
qed

lemma clean_put: "cleanMap m \<Longrightarrow> cleanText k \<Longrightarrow> cleanText v \<Longrightarrow> cleanMap (mput k v m)"
  unfolding cleanMap_def by (rule list_all_mput) auto

lemma clean_get: "cleanMap m \<Longrightarrow> cleanText (mgetOr [] m k)"
  by (cases "mget m k") (auto simp: mgetOr_def cleanMap_def list_all_iff cleanText_def dest: mget_in)

definition cleanExtra :: "(string, string) gomap \<Rightarrow> bool" where
  "cleanExtra m = (cleanMap m \<and> mget m ''Content-Length'' = None)"

lemma orderedExtras_from: "(k, v) \<in> set (orderedExtras extra) \<Longrightarrow> mget extra k = Some v"
  by (auto simp: orderedExtras_def List.map_filter_def)

lemma extras_no_length: "cleanExtra extra \<Longrightarrow> filter (\<lambda>h. fst h = ''Content-Length'') (orderedExtras extra) = []"
  by (auto simp: filter_empty_conv cleanExtra_def dest: orderedExtras_from)

lemma clean_names: "list_all cleanText [''Server'', ''Date'', ''Content-Type'', ''Content-Length'', ''Content-Language'', ''Connection'', ''close'', ''en'']"
  by (simp add: cleanText_def char_consts)

lemmas clean_pieces = clean_orderedExtras clean_get clean_Itoa clean_names

lemma nginx_framed:
  assumes "cleanText d" "cleanText reason" "cleanText ct" "cleanExtra extra" "0 \<le> status"
  shows "\<exists>hs. nginxResponse d status reason ct page extra = httpHead status reason hs page \<and> framed status reason hs page"
  unfolding nginxResponse_def
  by (intro exI conjI, rule refl, rule framedI)
    (use assms clean_names in \<open>auto simp: contentType_def contentLength_def cleanExtra_def extras_no_length intro: clean_pieces\<close>)

lemma apache_framed:
  assumes "cleanText d" "cleanText reason" "cleanText ct" "cleanExtra extra" "0 \<le> status"
  shows "\<exists>hs. apacheResponse d status reason ct page extra = httpHead status reason hs page \<and> framed status reason hs page"
  unfolding apacheResponse_def
  by (intro exI conjI, rule refl, rule framedI)
    (use assms clean_names in \<open>auto simp: contentType_def contentLength_def cleanExtra_def extras_no_length Let_def intro: clean_pieces\<close>)

lemma tomcat_framed:
  assumes "cleanText d" "cleanText reason" "cleanText ct" "cleanExtra extra" "0 \<le> status"
  shows "\<exists>hs. tomcatResponse d status reason ct page extra = httpHead status reason hs page \<and> framed status reason hs page"
  unfolding tomcatResponse_def
  by (intro exI conjI, rule refl, rule framedI)
    (use assms clean_names in \<open>auto simp: contentType_def contentLength_def cleanExtra_def extras_no_length intro: clean_pieces\<close>)

text \<open>What the headers take from the host's identity, the clock and the digest.\<close>

definition cleanHost :: "http_env \<Rightarrow> Persona \<Rightarrow> bool" where
  "cleanHost he p \<longleftrightarrow> list_all cleanText [he_date he, p_ApacheVer p, p_PHPVer p, p_NginxVer p, p_Hostname p,
     w_sha (he_world he) (''wp-logged-in:'' @ p_Hostname p)]"

definition framedReply :: "string \<Rightarrow> bool" where
  "framedReply resp \<longleftrightarrow> (\<exists>status reason hs page. resp = httpHead status reason hs page \<and> framed status reason hs page)"

lemma clean_app [simp]: "cleanText (a @ b) \<longleftrightarrow> cleanText a \<and> cleanText b"
  by (auto simp: cleanText_def)

lemma clean_take: "cleanText s \<Longrightarrow> cleanText (take n s)"
  by (auto simp: cleanText_def dest: in_set_takeD)

lemma clean_lit [simp]: "cleanText []" "cleanText (c # s) \<longleftrightarrow> c \<noteq> CR \<and> c \<noteq> LF \<and> cleanText s"
  by (auto simp: cleanText_def)

lemma cleanExtra_put: "cleanExtra m \<Longrightarrow> cleanText k \<Longrightarrow> cleanText v \<Longrightarrow> k \<noteq> ''Content-Length'' \<Longrightarrow> cleanExtra (mput k v m)"
  by (simp add: cleanExtra_def clean_put)

lemma cleanExtra_wp: "cleanHost he p \<Longrightarrow> cleanExtra (wpHeaders p)"
  by (simp add: cleanHost_def cleanExtra_def wpHeaders_def char_consts)

lemma cleanExtra_nil: "cleanExtra []" "cleanText k \<Longrightarrow> cleanText v \<Longrightarrow> k \<noteq> ''Content-Length'' \<Longrightarrow> cleanExtra m \<Longrightarrow> cleanExtra ((k, v) # m)"
  by (simp_all add: cleanExtra_def)

lemma framed_nginx: "cleanText d \<Longrightarrow> cleanText reason \<Longrightarrow> cleanText ct \<Longrightarrow> cleanExtra h \<Longrightarrow> 0 \<le> status \<Longrightarrow>
    framedReply (nginxResponse d status reason ct page h)"
  using nginx_framed framedReply_def by metis

lemma framed_apache: "cleanText d \<Longrightarrow> cleanText reason \<Longrightarrow> cleanText ct \<Longrightarrow> cleanExtra h \<Longrightarrow> 0 \<le> status \<Longrightarrow>
    framedReply (apacheResponse d status reason ct page h)"
  using apache_framed framedReply_def by metis

lemma framed_tomcat: "cleanText d \<Longrightarrow> cleanText reason \<Longrightarrow> cleanText ct \<Longrightarrow> cleanExtra h \<Longrightarrow> 0 \<le> status \<Longrightarrow>
    framedReply (tomcatResponse d status reason ct page h)"
  using tomcat_framed framedReply_def by metis

lemma clean_date: "cleanHost he p \<Longrightarrow> cleanText (he_date he)"
  by (simp add: cleanHost_def)

lemma clean_html8: "cleanText html8"
  by (simp add: html8_def char_consts)

lemma framed_login: "cleanHost he p \<Longrightarrow> wpLogin he p ip body st c = ((r, d), st', c') \<Longrightarrow> framedReply r"
  by (auto simp: wpLogin_def Let_def withHeader_def wpLoggedInCookie_def char_consts cleanHost_def clean_take
      intro!: framed_apache cleanExtra_put cleanExtra_wp split: prod.splits if_splits)

lemma framed_admin: "cleanHost he p \<Longrightarrow> wpAdmin he p ip st c = ((r, d), st', c') \<Longrightarrow> framedReply r"
  by (auto simp: wpAdmin_def Let_def withHeader_def char_consts clean_date clean_html8
      intro!: framed_apache cleanExtra_put cleanExtra_wp split: prod.splits if_splits wpReveal.splits)

lemma cleanExtra_login: "cleanHost he p \<Longrightarrow> cleanExtra (wpLoginHeaders p)"
  unfolding wpLoginHeaders_def foldl.simps split
  by (intro cleanExtra_put cleanExtra_wp) (simp_all add: char_consts)

lemma framed_wordpress:
  assumes "cleanHost he p" "respondWordPress he p ip m path body st c = ((r, d), st', c')"
  shows "framedReply r"
proof -
  have x: "cleanText (p_Hostname p)" using assms(1) by (simp add: cleanHost_def)
  show ?thesis
    using assms x framed_login [OF assms(1)] framed_admin [OF assms(1)]
    by (auto simp: respondWordPress_def Let_def withHeader_def char_consts clean_date clean_html8 split: if_splits
        intro!: framed_apache cleanExtra_put cleanExtra_login cleanExtra_wp)
qed

lemma framed_tomcat_service:
  assumes "cleanHost he p" "respondTomcat (he_date he) p path = (r, d)"
  shows "framedReply r"
  using assms by (auto simp: respondTomcat_def Let_def withHeader_def char_consts clean_date split: if_splits
      intro!: framed_tomcat cleanExtra_put cleanExtra_nil)

lemma framed_nginx_service:
  assumes "cleanHost he p" "respondNginx (he_date he) p m path = (r, d)"
  shows "framedReply r"
proof -
  have "cleanText (p_NginxVer p)" using assms(1) by (simp add: cleanHost_def)
  then show ?thesis using assms by (auto simp: respondNginx_def Let_def withHeader_def char_consts clean_date split: if_splits
      intro!: framed_nginx cleanExtra_put cleanExtra_nil)
qed

lemma framed_exploit:
  assumes "cleanHost he (hp_persona pr)" "tryExploit he pr path body c pool = (Some (r, d), c', pool')"
  shows "framedReply r"
  using assms by (auto simp: tryExploit_def rceResponse_def char_consts clean_date clean_html8 split: option.splits if_splits prod.splits
      intro!: framed_apache cleanExtra_wp)

lemma framed_respond:
  assumes "cleanHost he (hp_persona pr)" "respond he pr m path body st c pool = (((r, d), st', c'), pool')"
  shows "framedReply r"
  using assms framed_exploit [OF assms(1)] framed_tomcat_service [OF assms(1)] framed_nginx_service [OF assms(1)] framed_wordpress [OF assms(1)]
  by (auto simp: respond_def split: option.splits if_splits prod.splits)

lemma headersOnly_framed:
  "framed status reason hs page \<Longrightarrow> headersOnly (httpHead status reason hs page) = httpHead status reason hs []"
proof -
  assume "framed status reason hs page"
  then have "Index (httpHead status reason hs page) (CRLF @ CRLF) = Some (length (httpHead status reason hs []) - 4)"
    by (simp add: framed_def)
  moreover have "httpHead status reason hs page = httpHead status reason hs [] @ page" "4 \<le> length (httpHead status reason hs [])"
    by (simp_all add: httpHead_def)
  ultimately show ?thesis by (simp add: headersOnly_def)
qed

text \<open>
  C9: a client that sends the web service a line, whatever it is and whatever follows, gets exactly one
  well-framed response, and one that sends nothing gets none: nothing the response says can break out of its header lines, the first blank line is the one that ends them, they announce
  the length of the page exactly once and that the connection closes, and a HEAD request gets the same headers
  with no page.  The identity, the date and the digest are taken to be free of line breaks.
\<close>

theorem http_response_framed:
  assumes "http_Handle he pr st c pool = ((c', delay), st', pool')" "cleanHost he (hp_persona pr)"
  shows "if fst (ReadLine False (c_in c)) = ([], False) then c_out c' = c_out c
    else (\<exists>status reason hs page. framed status reason hs page \<and> c_out c' = c_out c @ httpHead status reason hs
      (if fst (parseRequestLine (fst (fst (ReadLine False (c_in c))))) = ''HEAD'' then [] else page))"
proof (cases "fst (ReadLine False (c_in c)) = ([], False)")
  case True
  then show ?thesis using http_Handle_steps [OF assms(1)] by (simp add: quiet_def)
next
  case False
  then obtain c1 resp d st1 verb path body c0 where r: "respond he pr verb path body st c0 pool = (((resp, d), st1, c1), pool)"
      "quiet c c1" "verb = fst (parseRequestLine (fst (fst (ReadLine False (c_in c)))))"
      "c' = say (if verb = ''HEAD'' then headersOnly resp else resp) c1"
    using http_Handle_steps [OF assms(1)] by auto
  obtain status reason hs page where f: "resp = httpHead status reason hs page" "framed status reason hs page"
    using framed_respond [OF assms(2) r(1)] by (auto simp: framedReply_def)
  then have "c_out c' = c_out c @ httpHead status reason hs (if verb = ''HEAD'' then [] else page)"
    using r(2,4) headersOnly_framed [OF f(2)] by (auto simp: say_def quiet_def)
  then show ?thesis using f(2) r(3) False by auto
qed

definition demoWeb :: http_env where
  "demoWeb = \<lparr>he_world = demoWorld, he_date = ''Tue, 11 Apr 2023 01:45:34 GMT'', he_md5 = (\<lambda>b. b), he_art = [], he_backup = [],
     he_maxParams = 10000\<rparr>"

definition demoSite :: "string \<Rightarrow> httpProto" where
  "demoSite style = \<lparr>hp_persona = demoHost\<lparr>p_Hostname := ''web01'', p_ApacheVer := ''2.4.52'', p_PHPVer := ''8.1.2'', p_NginxVer := ''1.18.0''\<rparr>,
     hp_style = style, hp_fs = None\<rparr>"

lemma http_response_framed_witness:
  "\<exists>status reason hs page. framed status reason hs page \<and>
     c_out (fst (fst (http_Handle demoWeb (demoSite ''tomcat'') wpNew (opened Conversation.demoSession (''HEAD / HTTP/1.1'' @ CRLF @ CRLF)) 0))) =
       httpHead status reason hs []"
proof -
  let ?c = "opened Conversation.demoSession (''HEAD / HTTP/1.1'' @ CRLF @ CRLF)"
  obtain c' d st' pool' where h: "http_Handle demoWeb (demoSite ''tomcat'') wpNew ?c 0 = ((c', d), st', pool')" by (metis prod_cases4 surj_pair)
  have clean: "cleanHost demoWeb (hp_persona (demoSite ''tomcat''))"
    by (simp add: cleanHost_def demoWeb_def demoSite_def demoWorld_def char_consts)
  have line: "fst (ReadLine False (c_in ?c)) = (''HEAD / HTTP/1.1'', True)" by (simp add: opened_def CRLF_def) code_simp
  have "fst (parseRequestLine ''HEAD / HTTP/1.1'') = ''HEAD''" by code_simp
  then show ?thesis using http_response_framed [OF h clean] line h by (auto simp: opened_def)
qed

text \<open>The entity tag of the default page ends in the page's length, 0x267, as nginx derives it.\<close>

lemma nginx_index_length: "length nginxDefaultIndex = 0x267"
  by code_simp

section \<open>The WordPress door\<close>

datatype visit = TryLogin string | ViewAdmin string

text \<open>What a request asks of the door, if anything, read off the request alone.\<close>

definition requestVisit :: "http_env \<Rightarrow> httpProto \<Rightarrow> string \<Rightarrow> string \<Rightarrow> string \<Rightarrow> string \<Rightarrow> visit option" where
  "requestVisit he pr srcIP verb path body =
    (if hp_style pr \<noteq> ''wordpress'' \<or>
        (hp_fs pr \<noteq> None \<and> (\<exists>(cmd, marker) \<in> set_option (extractRCE (he_md5 he) path body). cmd \<noteq> [])) then None
     else if pathOnly path = ''/wp-login.php'' \<and> verb = ''POST'' then Some (TryLogin srcIP)
     else if verb \<in> {''GET'', ''HEAD'', ''POST''} \<and> HasPrefix (pathOnly path) ''/wp-admin'' then Some (ViewAdmin srcIP)
     else None)"

definition doorVisit :: "http_env \<Rightarrow> httpProto \<Rightarrow> conv \<Rightarrow> visit option" where
  "doorVisit he pr c =
    (case getLine c of ((line, ok), c) \<Rightarrow>
      if line = [] \<and> \<not> ok then None
      else let (verb, path) = parseRequestLine line; (headers, c) = readHeaders maxHeaders [] c;
               body = (if verb = ''POST'' then fst (readBody (atoiSafe (mgetOr [] headers ''content-length'')) c) else [])
           in requestVisit he pr (se_SrcIP (c_id c)) verb path body)"

fun atDoor :: "visit \<Rightarrow> wpState \<Rightarrow> wpState" where
  "atDoor (TryLogin ip) st = snd (wpLetIn ip st)"
| "atDoor (ViewAdmin ip) st =
    (case wpAdminReveal ip st of (NotIn, st) \<Rightarrow> st | (_, st) \<Rightarrow> snd (wpLogReveal ip st))"

definition mayVisit :: "visit option \<Rightarrow> wpState \<Rightarrow> wpState" where
  "mayVisit v st = (case v of None \<Rightarrow> st | Some v \<Rightarrow> atDoor v st)"

lemma wpLogin_door: "fst (snd (wpLogin he p ip body st c)) = atDoor (TryLogin ip) st"
  by (simp add: wpLogin_def Let_def split: prod.splits)

lemma wpAdmin_door: "fst (snd (wpAdmin he p ip st c)) = atDoor (ViewAdmin ip) st"
  by (simp add: wpAdmin_def Let_def split: prod.splits wpReveal.splits)

lemma respond_door:
  "fst (snd (fst (respond he pr verb path body st c pool))) = mayVisit (requestVisit he pr (se_SrcIP (c_id c)) verb path body) st"
proof (cases "hp_fs pr \<noteq> None \<and> (\<exists>(cmd, marker) \<in> set_option (extractRCE (he_md5 he) path body). cmd \<noteq> [])")
  case True
  then show ?thesis
    by (auto simp: respond_def tryExploit_def requestVisit_def mayVisit_def Let_def split: prod.splits option.splits)
next
  case False
  then have t: "tryExploit he pr path body c pool = (None, c, pool)"
    by (auto simp: tryExploit_def split: option.splits)
  show ?thesis
  proof (cases "hp_style pr = ''wordpress''")
    case True
    then show ?thesis using False t wpLogin_door wpAdmin_door
      by (auto simp: respond_def requestVisit_def mayVisit_def respondWordPress_def Let_def)
  next
    case w: False
    then show ?thesis using t by (auto simp: respond_def requestVisit_def mayVisit_def)
  qed
qed

lemma getLine_persona: "getLine (setPersona h c) = apsnd (setPersona h) (getLine c)"
  by (simp add: getLine_def setPersona_def split: prod.splits)

lemma readHeaders_persona: "readHeaders n m (setPersona h c) = apsnd (setPersona h) (readHeaders n m c)"
  by (induction n arbitrary: m c) (auto simp: getLine_persona Let_def split: prod.splits option.splits)

lemma readBody_same_input: "c_in c = c_in c' \<Longrightarrow> fst (readBody n c) = fst (readBody n c')"
  by (simp add: readBody_def Let_def split: prod.splits)

lemma source_kept: "se_SrcIP (c_id (setPersona h c)) = se_SrcIP (c_id c)" "se_SrcIP (c_id (record_event mk c)) = se_SrcIP (c_id c)"
  "c_in (record_event mk c) = c_in c" "c_in (setPersona h c) = c_in c" "c_id (snd (readBody n c)) = c_id c"
  by (simp_all add: setPersona_def record_event_def readBody_def Let_def split: prod.splits)

lemma http_Handle_door: "fst (snd (http_Handle he pr st c pool)) = mayVisit (doorVisit he pr c) st"
proof -
  let ?h = "p_Hostname (hp_persona pr)"
  obtain line ok c1 where g: "getLine c = ((line, ok), c1)" by (metis prod_cases3 surj_pair)
  show ?thesis
  proof (cases "line = [] \<and> \<not> ok")
    case True
    then show ?thesis by (simp add: http_Handle_def doorVisit_def mayVisit_def Let_def getLine_persona g)
  next
    case False
    obtain verb path where m: "parseRequestLine line = (verb, path)" by (metis surj_pair)
    obtain headers c2 where h: "readHeaders maxHeaders [] c1 = (headers, c2)" by (metis surj_pair)
    define c3 where "c3 = record_event (\<lambda>i. LogHTTPRequest i verb line path headers) (setPersona ?h c2)"
    obtain body c4 where b: "(if verb = ''POST'' then readBody (atoiSafe (mgetOr [] headers ''content-length'')) c3 else ([], c3)) = (body, c4)"
      by (metis surj_pair)
    define c5 where "c5 = (if verb = ''POST'' then record_event (\<lambda>i. LogHTTPPost i path body (w_sha (he_world he) body)) c4 else c4)"
    have body: "body = (if verb = ''POST'' then fst (readBody (atoiSafe (mgetOr [] headers ''content-length'')) c2) else [])"
      using b readBody_same_input [of c3 c2] by (auto simp: c3_def source_kept split: if_splits) (metis fst_conv)+
    have "c_id c4 = c_id c3" using b by (auto split: if_splits) (metis snd_conv source_kept(5))+
    then have ip: "se_SrcIP (c_id c5) = se_SrcIP (c_id c2)" by (simp add: c5_def c3_def source_kept)
    have "fst (snd (http_Handle he pr st c pool)) = fst (snd (fst (respond he pr verb path body st c5 pool)))"
      using False by (auto simp: http_Handle_def getLine_persona g readHeaders_persona h m b [unfolded c3_def] c5_def Let_def split: prod.splits)
    also have "\<dots> = mayVisit (doorVisit he pr c) st"
      using False by (auto simp: respond_door doorVisit_def g m h body ip)
    finally show ?thesis .
  qed
qed

definition triedBy :: "visit list \<Rightarrow> string \<Rightarrow> nat" where
  "triedBy vs ip = count_list vs (TryLogin ip)"

definition triers :: "visit list \<Rightarrow> string set" where
  "triers vs = {ip. TryLogin ip \<in> set vs}"

text \<open>What the tables say of the visits so far; the table of tries never forgets a source while it has room for all.\<close>

definition doorInv :: "visit list \<Rightarrow> wpState \<Rightarrow> bool" where
  "doorInv vs st \<longleftrightarrow> mapok (wpTries st) \<and> length (wpTries st) \<le> wpTrackCap \<and> set (mkeys (wpTries st)) \<subseteq> triers vs \<and>
     (\<forall>ip. mgetOr 0 (wpTries st) ip \<le> int (triedBy vs ip)) \<and> (\<forall>ip \<in> set (wpBroken st). wpBreakInAfter \<le> int (triedBy vs ip)) \<and>
     (card (triers vs) \<le> wpTrackCap \<longrightarrow>
       (\<forall>ip. ip \<notin> set (wpBroken st) \<longrightarrow> mgetOr 0 (wpTries st) ip = int (triedBy vs ip) \<and> int (triedBy vs ip) < wpBreakInAfter))"

lemma triers_finite: "finite (triers vs)"
proof -
  have "triers vs \<subseteq> (\<lambda>v. case v of TryLogin ip \<Rightarrow> ip | ViewAdmin ip \<Rightarrow> ip) ` set vs" by (force simp: triers_def image_iff)
  then show ?thesis by (rule finite_subset) simp
qed

lemma triedBy_snoc [simp]: "triedBy (vs @ [TryLogin ip]) k = triedBy vs k + (if k = ip then 1 else 0)"
  "triedBy (vs @ [ViewAdmin ip]) k = triedBy vs k"
  by (simp_all add: triedBy_def)

lemma triers_snoc [simp]: "triers (vs @ [TryLogin ip]) = insert ip (triers vs)" "triers (vs @ [ViewAdmin ip]) = triers vs"
  by (auto simp: triers_def)

lemma doorInv_view: "doorInv vs st \<Longrightarrow> doorInv (vs @ [ViewAdmin ip]) (atDoor (ViewAdmin ip) st)"
  by (auto simp: doorInv_def wpAdminReveal_def wpLogReveal_def Let_def)

lemma table_room:
  assumes "mapok m" "set (mkeys m) \<subseteq> S" "finite S" "mget m ip = None" "card (insert ip S) \<le> n"
  shows "length m < n"
proof -
  have "ip \<notin> set (mkeys m)" using assms(4) by (simp add: mkeys_def mget_def map_of_eq_None_iff)
  then have "card (insert ip (set (mkeys m))) = Suc (length m)"
    using assms(1) distinct_card [of "mkeys m"] by (simp add: mkeys_def mapok_def)
  moreover have "card (insert ip (set (mkeys m))) \<le> card (insert ip S)" using assms(2,3) by (intro card_mono) auto
  ultimately show ?thesis using assms(5) by simp
qed

lemma mgetOr_mdel: "mgetOr z (mdel k m) k' = (if k' = k then z else mgetOr z m k')"
  by (simp add: mgetOr_def)

lemma mdel_keys: "set (mkeys (mdel k m)) \<subseteq> set (mkeys m)"
  by (auto simp: mkeys_def mdel_def)

lemma mput_keys: "set (mkeys (mput k v m)) = insert k (set (mkeys m))"
  by (simp add: mkeys_def set_mput_keys)

lemma doorInv_try:
  assumes "doorInv vs st"
  shows "doorInv (vs @ [TryLogin ip]) (atDoor (TryLogin ip) st)"
proof -
  note inv = assms [unfolded doorInv_def]
  have mono: "card (triers vs) \<le> card (insert ip (triers vs))" using triers_finite by (intro card_mono) auto
  consider (broken) "ip \<in> set (wpBroken st)"
    | (full) "ip \<notin> set (wpBroken st)" "mget (wpTries st) ip = None" "length (wpTries st) \<ge> wpTrackCap"
    | (tries) "ip \<notin> set (wpBroken st)" "mget (wpTries st) ip \<noteq> None \<or> length (wpTries st) < wpTrackCap" by force
  then show ?thesis
  proof cases
    case broken
    then have "atDoor (TryLogin ip) st = st" by (simp add: wpLetIn_def)
    then show ?thesis using inv mono broken by (auto simp: doorInv_def add_increasing2)
  next
    case full
    then have "\<not> card (insert ip (triers vs)) \<le> wpTrackCap" using inv table_room [OF _ _ triers_finite, of "wpTries st" vs ip wpTrackCap] by auto
    then show ?thesis using inv full by (auto simp: doorInv_def wpLetIn_def add_increasing2)
  next
    case tries
    let ?n = "mgetOr 0 (wpTries st) ip + 1"
    have n: "?n \<le> int (triedBy vs ip) + 1" using inv by auto
    show ?thesis
    proof (cases "?n \<ge> wpBreakInAfter")
      case True
      then have "atDoor (TryLogin ip) st = st\<lparr>wpTries := mdel ip (wpTries st), wpBroken := ip # wpBroken st\<rparr>"
        using tries by (auto simp: wpLetIn_def Let_def)
      moreover have "wpBreakInAfter \<le> int (triedBy vs ip) + 1" using n True by linarith
      ultimately show ?thesis using inv mono mdel_keys [of ip "wpTries st"] length_mdel_le [of ip "wpTries st"]
        by (auto simp: doorInv_def mgetOr_mdel add_increasing2)
    next
      case False
      then have "atDoor (TryLogin ip) st = st\<lparr>wpTries := mput ip ?n (wpTries st)\<rparr>"
        using tries by (auto simp: wpLetIn_def Let_def)
      then show ?thesis using inv mono n False tries mput_keys [of ip ?n "wpTries st"]
        by (auto simp: doorInv_def length_mput)
    qed
  qed
qed

lemma doorInv_new: "doorInv [] wpNew"
  by (simp add: doorInv_def wpNew_def triers_def triedBy_def mkeys_def mgetOr_def wpBreakInAfter_def)

lemma doorInv_step: "doorInv vs st \<Longrightarrow> doorInv (vs @ [v]) (atDoor v st)"
  by (cases v) (simp_all only: doorInv_view doorInv_try)

definition serveHttp :: "http_env \<Rightarrow> httpProto \<Rightarrow> int \<Rightarrow> conv list \<Rightarrow> wpState" where
  "serveHttp he pr pool cs = foldl (\<lambda>st c. fst (snd (http_Handle he pr st c pool))) wpNew cs"

lemma doorInv_served: "doorInv (List.map_filter (doorVisit he pr) cs) (serveHttp he pr pool cs)"
proof (induction cs rule: rev_induct)
  case (snoc c cs)
  then show ?case
    by (cases "doorVisit he pr c") (auto simp: serveHttp_def http_Handle_door mayVisit_def List.map_filter_def doorInv_step)
qed (simp add: doorInv_new serveHttp_def List.map_filter_simps)

text \<open>
  C11: after any sequence of connections to the web service, whatever they ask, the administration pages open
  only to a source that has posted at least five logins; while no more than fifty thousand sources have tried to
  log in they open to exactly those sources; and the table of tries never holds more than fifty thousand.
\<close>

theorem wp_door:
  "(fst (wpAdminReveal ip (serveHttp he pr pool cs)) \<noteq> NotIn \<longrightarrow> 5 \<le> triedBy (List.map_filter (doorVisit he pr) cs) ip) \<and>
   (card (triers (List.map_filter (doorVisit he pr) cs)) \<le> 50000 \<longrightarrow>
     (fst (wpAdminReveal ip (serveHttp he pr pool cs)) \<noteq> NotIn \<longleftrightarrow> 5 \<le> triedBy (List.map_filter (doorVisit he pr) cs) ip)) \<and>
   length (wpTries (serveHttp he pr pool cs)) \<le> 50000"
proof -
  have "fst (wpAdminReveal ip st) \<noteq> NotIn \<longleftrightarrow> ip \<in> set (wpBroken st)" for st
    by (simp add: wpAdminReveal_def Let_def)
  then show ?thesis
    using doorInv_served [of he pr cs pool] by (auto simp: doorInv_def wpBreakInAfter_def wpTrackCap_def)
qed

definition loginPost :: conv where
  "loginPost = opened Conversation.demoSession (''POST /wp-login.php HTTP/1.1'' @ CRLF @ ''Content-Length: 1'' @ CRLF @ CRLF @ ''x'')"

lemma wp_door_witness:
  "fst (wpAdminReveal ''203.0.113.7'' (serveHttp demoWeb (demoSite ''wordpress'') 0 (replicate 5 loginPost))) \<noteq> NotIn \<and>
   fst (wpAdminReveal ''203.0.113.7'' (serveHttp demoWeb (demoSite ''wordpress'') 0 (replicate 4 loginPost))) = NotIn"
proof -
  have "doorVisit demoWeb (demoSite ''wordpress'') loginPost = Some (TryLogin ''203.0.113.7'')"
    by (simp add: doorVisit_def requestVisit_def demoSite_def) code_simp
  then have v: "List.map_filter (doorVisit demoWeb (demoSite ''wordpress'')) (replicate n loginPost) = replicate n (TryLogin ''203.0.113.7'')" for n
    by (induction n) (simp_all add: List.map_filter_simps)
  have n: "triers (replicate n (TryLogin x)) \<subseteq> {x}" "triedBy (replicate n (TryLogin x)) x = n" for n x
    by (auto simp: triers_def triedBy_def) (induction n, simp_all)
  then have "card (triers (replicate n (TryLogin x))) \<le> 50000" for n x
    using card_mono [of "{x}" "triers (replicate n (TryLogin x))"] by (simp add: order_trans)
  then show ?thesis
    using wp_door [of "''203.0.113.7''" demoWeb "demoSite ''wordpress''" 0 "replicate 5 loginPost"]
      wp_door [of "''203.0.113.7''" demoWeb "demoSite ''wordpress''" 0 "replicate 4 loginPost"] by (simp add: v n)
qed

section \<open>Whole connections\<close>

definition http_serve :: "http_env \<Rightarrow> httpProto \<Rightarrow> wpState \<Rightarrow> int \<Rightarrow> SessionID \<Rightarrow> string \<Rightarrow> conv" where
  "http_serve he pr st pool s i = fst (fst (http_Handle he pr st (opened s i) pool))"

definition https_serve :: "Persona \<Rightarrow> SessionID \<Rightarrow> string \<Rightarrow> conv" where
  "https_serve p s i = fst (https_Handle p (opened s i))"

lemma proper_http: "proper s (http_serve he pr st pool s i)"
proof -
  obtain c' d st' pool' where h: "http_Handle he pr st (opened s i) pool = ((c', d), st', pool')" by (metis prod_cases4 surj_pair)
  then have "convStep (opened s i) c'" using http_contained by blast
  then have "proper s c'" by (rule proper_convStep [OF proper_begin])
  then show ?thesis using h by (simp add: http_serve_def)
qed

interpretation http: protocol_handler "\<lambda>s i. outcomeOf (dur s i) (http_serve he pr st pool s i)"
  by (rule proper_handler) (rule proper_http)

interpretation https: protocol_handler "\<lambda>s i. outcomeOf (dur s i) (https_serve p s i)"
  by (rule proper_handler) (simp add: https_serve_def proper_convStep [OF proper_begin https_contained])

end
