(* ===== verification/SshService.thy ===== *)
theory SshService
  imports Ssh HttpService
begin

text \<open>
  What the SSH service guarantees: the terminal line discipline delivers the same lines however its input is cut
  into packets, within bounded memory; a shell runs only after a logged and accepted login; and a connection,
  whatever it does, changes nothing but its own conversation.
\<close>

section \<open>The terminal\<close>

lemma cookByte_eof [simp]: "ct_eof (cookByte c t) = ct_eof t"
  by (simp add: cookByte_def Let_def endLine_def tty_Write_def)

lemma cook_append: "\<not> ct_eof t \<Longrightarrow> cook (a @ b) t = (if ct_eof (cook a t) then cook a t else cook b (cook a t))"
  by (induction a arbitrary: t) simp_all

definition queueAfter :: "bytes \<Rightarrow> cookedTTY \<Rightarrow> cookedTTY" where
  "queueAfter q t = t\<lparr>ct_pending := q @ ct_pending t\<rparr>"

lemma cookByte_queue: "cookByte c (queueAfter q t) = queueAfter q (cookByte c t)"
  by (simp add: cookByte_def Let_def endLine_def tty_Write_def queueAfter_def)

lemma cook_queue: "cook a (queueAfter q t) = queueAfter q (cook a t)"
proof (induction a arbitrary: t)
  case (Cons c a)
  have "ct_line (queueAfter q t) = ct_line t" by (simp add: queueAfter_def)
  then show ?case using Cons by (simp add: cookByte_queue) (simp add: queueAfter_def)
qed simp

text \<open>What a reader is still to be given, of a terminal and the chunks that have not arrived.\<close>

definition owed :: "cookedTTY \<Rightarrow> bytes list \<Rightarrow> bytes" where
  "owed t chunks = ct_pending (if ct_eof t then t else cook (concat chunks) t)"

lemma owed_queue: "owed (queueAfter q t) chunks = q @ owed t chunks"
proof -
  have "ct_eof (queueAfter q t) = ct_eof t" by (simp add: queueAfter_def)
  then show ?thesis by (simp add: owed_def cook_queue) (simp add: queueAfter_def)
qed

lemma owed_chunk: "\<not> ct_eof t \<Longrightarrow> owed t (k # ks) = owed (cook k t) ks"
  by (simp add: owed_def cook_append)

lemma cooked_Read_cases:
  "ct_pending t \<noteq> [] \<Longrightarrow> cooked_Read n t chunks = (Some (take n (ct_pending t)), t\<lparr>ct_pending := drop n (ct_pending t)\<rparr>, chunks)"
  "ct_pending t = [] \<Longrightarrow> ct_eof t \<or> chunks = [] \<Longrightarrow> cooked_Read n t chunks = (None, t, chunks)"
  "ct_pending t = [] \<Longrightarrow> \<not> ct_eof t \<Longrightarrow> cooked_Read n t (k # ks) = cooked_Read n (cook k t) ks"
  by (subst cooked_Read.simps, auto split: list.splits)+

lemma Read_delivers:
  assumes "cooked_Read n t chunks = (r, t', chunks')" "0 < n"
  shows "case r of Some b \<Rightarrow> b \<noteq> [] \<and> owed t chunks = b @ owed t' chunks' | None \<Rightarrow> owed t chunks = []"
  using assms
proof (induction n t chunks rule: cooked_Read.induct)
  case (1 n t chunks)
  show ?case
  proof (cases "ct_pending t = []")
    case False
    have t: "t = queueAfter (take n (ct_pending t)) (t\<lparr>ct_pending := drop n (ct_pending t)\<rparr>)" by (simp add: queueAfter_def)
    have "owed t chunks = take n (ct_pending t) @ owed (t\<lparr>ct_pending := drop n (ct_pending t)\<rparr>) chunks"
      by (subst t) (rule owed_queue)
    then show ?thesis using 1(2,3) False by (auto simp: cooked_Read_cases)
  next
    case True
    show ?thesis
    proof (cases "ct_eof t \<or> chunks = []")
      case stop: True
      then have "r = None" "owed t chunks = []" using 1(2) True by (auto simp: cooked_Read_cases owed_def)
      then show ?thesis by simp
    next
      case False
      then obtain k ks where "chunks = k # ks" by (cases chunks) auto
      then show ?thesis using 1 True False by (auto simp: cooked_Read_cases owed_chunk split: option.splits)
    qed
  qed
qed

text \<open>Reads with buffers of the given sizes, one after another, until the end of the input is reported.\<close>

fun cooked_Reads :: "nat list \<Rightarrow> cookedTTY \<Rightarrow> bytes list \<Rightarrow> bytes \<times> bool \<times> cookedTTY" where
  "cooked_Reads [] t chunks = ([], False, t)"
| "cooked_Reads (n # ns) t chunks =
    (case cooked_Read n t chunks of
       (None, t, _) \<Rightarrow> ([], True, t)
     | (Some b, t, chunks) \<Rightarrow> (case cooked_Reads ns t chunks of (bs, r) \<Rightarrow> (b @ bs, r)))"

lemma Reads_deliver:
  assumes "cooked_Reads ns t chunks = (bs, ended, t')" "list_all ((<) 0) ns"
  shows "\<exists>rest. owed t chunks = bs @ rest \<and> (if ended then rest = [] else length ns \<le> length bs)"
  using assms
proof (induction ns arbitrary: t chunks bs)
  case (Cons n ns)
  obtain r t1 chunks1 where r: "cooked_Read n t chunks = (r, t1, chunks1)" by (metis prod_cases3)
  note d = Read_delivers [OF r]
  show ?case
  proof (cases r)
    case None
    then show ?thesis using Cons.prems r d by auto
  next
    case (Some b)
    obtain bs1 e t2 where rs: "cooked_Reads ns t1 chunks1 = (bs1, e, t2)" by (metis prod_cases3)
    then have eq: "bs = b @ bs1" "ended = e" "t' = t2" using Cons.prems(1) r Some by simp_all
    obtain rest where rest: "owed t1 chunks1 = bs1 @ rest" "if e then rest = [] else length ns \<le> length bs1"
      using Cons.IH [of t1 chunks1 bs1] Cons.prems(2) rs eq by auto
    have b: "b \<noteq> []" "owed t chunks = b @ bs1 @ rest" using d Some Cons.prems(2) rest by simp_all
    then have "length ns \<le> length bs1 \<Longrightarrow> length (n # ns) \<le> length bs" using eq by (cases b) simp_all
    then show ?thesis using b eq rest by (intro exI [of _ rest]) (auto split: if_splits)
  qed
qed simp

text \<open>What a terminal holds: less than the longest line being edited, and what one chunk of input adds to the queue.\<close>

lemma cookByte_size:
  assumes "length (ct_line t) < maxCookedLine"
  shows "length (ct_line (cookByte c t)) < maxCookedLine \<and>
    length (ct_pending (cookByte c t)) + length (ct_line (cookByte c t)) \<le> length (ct_pending t) + length (ct_line t) + 2"
  using assms by (auto simp: cookByte_def Let_def endLine_def tty_Write_def maxCookedLine_def)

lemma cook_size:
  "length (ct_line t) < maxCookedLine \<Longrightarrow> length (ct_line (cook a t)) < maxCookedLine \<and>
    length (ct_pending (cook a t)) + length (ct_line (cook a t)) \<le> length (ct_pending t) + length (ct_line t) + 2 * length a"
proof (induction a arbitrary: t)
  case (Cons c a)
  have b: "length (ct_line (cookByte c t)) < maxCookedLine"
    "length (ct_pending (cookByte c t)) + length (ct_line (cookByte c t)) \<le> length (ct_pending t) + length (ct_line t) + 2"
    using cookByte_size [OF Cons.prems, of c] by auto
  then show ?case using Cons.prems Cons.IH [OF b(1)] by auto
qed simp

definition ttyFits :: "cookedTTY \<Rightarrow> bool" where
  "ttyFits t \<longleftrightarrow> length (ct_line t) < maxCookedLine \<and> length (ct_pending t) \<le> maxCookedLine + 512"

lemma ttyFits_cook:
  assumes "ttyFits t" "ct_pending t = []" "length k \<le> 256"
  shows "ttyFits (cook k t)"
  using cook_size [of t k] assms by (auto simp: ttyFits_def)

lemma Read_fits:
  assumes "cooked_Read n t chunks = (r, t', chunks')" "ttyFits t" "list_all (\<lambda>k. length k \<le> 256) chunks"
  shows "ttyFits t' \<and> list_all (\<lambda>k. length k \<le> 256) chunks'"
  using assms
proof (induction n t chunks rule: cooked_Read.induct)
  case (1 n t chunks)
  show ?case
  proof (cases "ct_pending t \<noteq> [] \<or> ct_eof t \<or> chunks = []")
    case True
    then show ?thesis using 1(2-4) by (cases "ct_pending t = []") (auto simp: cooked_Read_cases ttyFits_def)
  next
    case False
    then obtain k ks where k: "chunks = k # ks" by (cases chunks) auto
    then have "cooked_Read n (cook k t) ks = (r, t', chunks')" using 1(2) False by (simp add: cooked_Read_cases)
    then show ?thesis using 1(1) [OF _ _ k] 1(3,4) False k ttyFits_cook [of t k] by simp
  qed
qed

lemma Reads_fit:
  assumes "cooked_Reads ns t chunks = (bs, ended, t')" "ttyFits t" "list_all (\<lambda>k. length k \<le> 256) chunks"
  shows "ttyFits t'"
  using assms
proof (induction ns arbitrary: t chunks bs)
  case (Cons n ns)
  obtain r t1 chunks1 where r: "cooked_Read n t chunks = (r, t1, chunks1)" by (metis prod_cases3)
  then show ?case using Cons.IH [of t1 chunks1] Cons.prems Read_fits [OF r] by (auto split: option.splits prod.splits)
qed simp

section \<open>Typed lines\<close>

datatype key = Key char | Erase bool

fun keyByte :: "key \<Rightarrow> char" where
  "keyByte (Key c) = c"
| "keyByte (Erase del) = (if del then CHR 0x7F else CHR 0x08)"

fun okKey :: "key \<Rightarrow> bool" where
  "okKey (Key c) \<longleftrightarrow> code c \<ge> 0x20 \<and> c \<noteq> CHR 0x7F"
| "okKey (Erase _) \<longleftrightarrow> True"

fun edit :: "string \<Rightarrow> key \<Rightarrow> string" where
  "edit l (Key c) = l @ [c]"
| "edit l (Erase _) = butlast l"

text \<open>A line as typed, ended by the Enter key of a terminal or of a script, and what the shell should read of it.\<close>

definition typedLine :: "key list \<times> bool \<Rightarrow> bytes" where
  "typedLine l = map keyByte (fst l) @ (if snd l then [CR, LF] else [CR])"

definition editedLine :: "key list \<times> bool \<Rightarrow> string" where
  "editedLine l = foldl edit [] (fst l) @ [LF]"

definition okLine :: "key list \<times> bool \<Rightarrow> bool" where
  "okLine l \<longleftrightarrow> list_all okKey (fst l) \<and> length (fst l) < maxCookedLine"

lemma plain_key: "code c \<ge> 0x20 \<Longrightarrow> c \<noteq> CR \<and> c \<noteq> LF \<and> c \<noteq> CHR 0x08 \<and> c \<noteq> CHR 0x03 \<and> c \<noteq> CHR 0x04"
  by (auto simp: code_def char_consts)

lemma not_eot: "CR \<noteq> CHR 0x04" "LF \<noteq> CHR 0x04" "CR \<noteq> LF" "LF \<noteq> CR"
  by (simp_all add: char_consts)

lemma erase_keys: "CHR 0x7F \<noteq> CR" "CHR 0x7F \<noteq> LF" "CHR 0x08 \<noteq> CR" "CHR 0x08 \<noteq> LF"
  by (simp_all add: char_consts)

lemma cookByte_key:
  assumes "okKey k" "length (ct_line t) + 1 < maxCookedLine"
  shows "ct_line (cookByte (keyByte k) t) = edit (ct_line t) k" "ct_pending (cookByte (keyByte k) t) = ct_pending t"
    "\<not> ct_prevCR (cookByte (keyByte k) t)" "keyByte k \<noteq> CHR 0x04"
  using assms by (cases k; auto simp: cookByte_def Let_def tty_Write_def plain_key erase_keys dest: plain_key)+

lemma edit_length: "length (edit l k) \<le> length l + 1"
  by (cases k) auto

lemma cook_keys:
  assumes "list_all okKey ks" "length (ct_line t) + length ks < maxCookedLine"
  shows "cook (map keyByte ks @ r) t = cook r (fold (cookByte \<circ> keyByte) ks t) \<and>
    ct_line (fold (cookByte \<circ> keyByte) ks t) = foldl edit (ct_line t) ks \<and>
    ct_pending (fold (cookByte \<circ> keyByte) ks t) = ct_pending t \<and> ct_eof (fold (cookByte \<circ> keyByte) ks t) = ct_eof t"
  using assms
proof (induction ks arbitrary: t)
  case (Cons k ks)
  have k: "okKey k" "length (ct_line t) + 1 < maxCookedLine" using Cons.prems by simp_all
  have "length (ct_line (cookByte (keyByte k) t)) + length ks < maxCookedLine"
    using cookByte_key(1) [OF k] edit_length [of "ct_line t" k] Cons.prems by simp
  then show ?case using Cons.IH [of "cookByte (keyByte k) t"] Cons.prems cookByte_key [OF k] by simp
qed simp

lemma cook_line:
  assumes "okLine l" "ct_line t = []" "\<not> ct_eof t"
  shows "\<exists>t'. (\<forall>r. cook (typedLine l @ r) t = cook r t') \<and> ct_line t' = [] \<and> \<not> ct_eof t' \<and> ct_pending t' = ct_pending t @ editedLine l"
proof -
  define u where "u = fold (cookByte \<circ> keyByte) (fst l) t"
  have u: "cook (map keyByte (fst l) @ r) t = cook r u" "ct_line u = foldl edit [] (fst l)" "ct_pending u = ct_pending t" "\<not> ct_eof u" for r
    using cook_keys [of "fst l" t r] assms by (auto simp: u_def okLine_def)
  define v where "v = cookByte CR u"
  have v: "ct_line v = []" "ct_pending v = ct_pending t @ editedLine l" "ct_prevCR v" "\<not> ct_eof v"
    using u by (simp_all add: v_def cookByte_def Let_def endLine_def tty_Write_def editedLine_def)
  then have w: "ct_line (cookByte LF v) = []" "ct_pending (cookByte LF v) = ct_pending v"
    by (simp_all add: cookByte_def Let_def not_eot)
  have c: "cook (typedLine l @ r) t = cook r (if snd l then cookByte LF v else v)" for r
    using u(1) by (simp add: typedLine_def v_def [symmetric] not_eot)
  show ?thesis using c v w by (intro exI [of _ "if snd l then cookByte LF v else v"]) simp
qed

lemma cook_lines:
  assumes "list_all okLine ls" "ct_line t = []" "\<not> ct_eof t"
  shows "ct_pending (cook (concat (map typedLine ls)) t) = ct_pending t @ concat (map editedLine ls)"
  using assms
proof (induction ls arbitrary: t)
  case (Cons l ls)
  obtain t' where t': "\<forall>r. cook (typedLine l @ r) t = cook r t'" "ct_line t' = []" "\<not> ct_eof t'" "ct_pending t' = ct_pending t @ editedLine l"
    using cook_line [of l t] Cons.prems by auto
  then show ?case using Cons.IH [of t'] Cons.prems by simp
qed simp



section \<open>Logging in\<close>

text \<open>An attempt at authentication, as the transport hands it to a callback.\<close>

datatype authTry =
    ByPassword string string
  | ByKeyboard string "string list option"
  | ByPublicKey string string string

fun tryUser :: "authTry \<Rightarrow> string" where
  "tryUser (ByPassword u _) = u"
| "tryUser (ByKeyboard u _) = u"
| "tryUser (ByPublicKey u _ _) = u"

fun attempt :: "'k ServerConfig \<Rightarrow> authTry \<Rightarrow> authState \<Rightarrow> bool \<times> authState" where
  "attempt sc (ByPassword u w) = PasswordCallback sc u w"
| "attempt sc (ByKeyboard u answers) = KeyboardInteractiveCallback sc u answers"
| "attempt sc (ByPublicKey u kt fp) = PublicKeyCallback sc u kt fp"

fun attempts :: "'k ServerConfig \<Rightarrow> authTry list \<Rightarrow> authState \<Rightarrow> bool list \<times> authState" where
  "attempts sc [] st = ([], st)"
| "attempts sc (t # ts) st =
    (case attempt sc t st of (ok, st) \<Rightarrow> (case attempts sc ts st of (oks, st) \<Rightarrow> (ok # oks, st)))"

text \<open>
  What the documentation of \<open>NewServerConn\<close> promises: it changes nothing but through the callbacks it is configured
  with, one attempt after another until one is accepted, at most \<open>MaxAuthTries\<close> of them, and it yields a
  connection only for the user of an accepted attempt.
\<close>

definition documentedTransport :: "('k ServerConfig \<Rightarrow> authState \<Rightarrow> (string \<times> NewChannel list) option \<times> authState) \<Rightarrow> bool" where
  "documentedTransport nsc \<longleftrightarrow>
    (\<forall>sc st. \<exists>ts oks. attempts sc ts st = (oks, snd (nsc sc st)) \<and> length ts \<le> MaxAuthTries sc \<and> True \<notin> set (butlast oks) \<and>
       (case fst (nsc sc st) of None \<Rightarrow> True | Some (user, _) \<Rightarrow> ts \<noteq> [] \<and> last oks \<and> user = tryUser (last ts)))"

lemma transport_attempts:
  assumes "documentedTransport nsc"
  obtains ts oks where "attempts sc ts st = (oks, snd (nsc sc st))" "length ts \<le> MaxAuthTries sc" "True \<notin> set (butlast oks)"
    "case fst (nsc sc st) of None \<Rightarrow> True | Some (user, _) \<Rightarrow> ts \<noteq> [] \<and> last oks \<and> user = tryUser (last ts)"
  using assms unfolding documentedTransport_def by blast

definition refused :: "Entry \<Rightarrow> bool" where
  "refused e \<longleftrightarrow> e_Event e = ''CREDENTIAL'' \<and> e_Note e \<in> {''rejected'', ''publickey rejected''}"

text \<open>One attempt: what it logs, if anything, agrees with its verdict.\<close>

lemma attempt_logs:
  assumes "attempt (serverConfig clock p k) t (c, a) = (ok, c', a')"
  shows "\<exists>es. c' = c\<lparr>c_log := c_log c @ es\<rparr> \<and> length es \<le> 1 \<and>
    Username a' = Username a \<and> RootPassword a' = RootPassword a \<and> UserPassword a' = UserPassword a \<and> (bf a = None \<longrightarrow> bf a' = None) \<and>
    list_all (ownEvent (c_id c)) es \<and>
    (if ok then es \<noteq> [] \<and> admitted a (tryUser t) (hd es) \<and> e_Username (hd es) = tryUser t else list_all refused es)"
proof -
  have pass: "\<exists>e. c' = c\<lparr>c_log := c_log c @ [e]\<rparr> \<and>
    Username a' = Username a \<and> RootPassword a' = RootPassword a \<and> UserPassword a' = UserPassword a \<and> (bf a = None \<longrightarrow> bf a' = None) \<and>
    ownEvent (c_id c) e \<and> (if ok then admitted a u e \<and> e_Username e = u else refused e)"
    if run: "authPassword clock u w (c, a) = (ok, c', a')" for u w
  proof -
    obtain b where af: "AcceptFrom (fst (clock (length (c_log c)))) (snd (clock (length (c_log c)))) (se_SrcIP (c_id c)) u w a = ((ok, b), a')"
      and c': "c' = record_event (\<lambda>i. LogCredentialResult i u w ok b) c"
      using run by (auto simp: authPassword_def Let_def split: prod.splits)
    have b: "\<not> ok \<Longrightarrow> \<not> b" using af by (auto simp: AcceptFrom_def split: if_splits option.splits prod.splits bool.splits)
    have "if ok then admitted a u (LogCredentialResult (c_id c) u w ok b) \<and> e_Username (LogCredentialResult (c_id c) u w ok b) = u
      else refused (LogCredentialResult (c_id c) u w ok b)"
      using AcceptFrom_known [of _ _ _ u w a b a'] af b by (auto simp: admitted_def refused_def LogCredentialResult_def)
    then show ?thesis using AcceptFrom_accounts [OF af] c' own_http_events(4)
      by (intro exI [of _ "LogCredentialResult (c_id c) u w ok b"]) (auto simp: record_event_def)
  qed
  show ?thesis
  proof (cases t)
    case (ByPassword u w)
    then show ?thesis using pass [of u w] assms by (auto simp: serverConfig_def)
  next
    case (ByKeyboard u answers)
    show ?thesis
    proof (cases "answers = None \<or> answers = Some []")
      case True
      then have "ok = False" "c' = c" "a' = a" using assms ByKeyboard by (auto simp: serverConfig_def authKeyboard_def)
      then show ?thesis by (intro exI [of _ "[]"]) simp
    next
      case False
      then obtain w ws where "answers = Some (w # ws)" by (cases answers) (auto simp: neq_Nil_conv)
      then show ?thesis using pass [of u w] assms ByKeyboard by (auto simp: serverConfig_def authKeyboard_def)
    qed
  next
    case (ByPublicKey u kt fp)
    have "ownEvent (c_id c) (LogPublicKey (c_id c) u kt fp)" by (simp add: ownEvent_def session_events)
    then show ?thesis using assms ByPublicKey
      by (intro exI [of _ "[LogPublicKey (c_id c) u kt fp]"])
        (auto simp: serverConfig_def authPublicKey_def record_event_def refused_def LogPublicKey_def)
  qed
qed

lemma attempts_length: "attempts sc ts st = (oks, st') \<Longrightarrow> length oks = length ts"
proof (induction ts arbitrary: st oks)
  case (Cons t ts)
  obtain ok st1 where t: "attempt sc t st = (ok, st1)" by (metis surj_pair)
  obtain oks1 st2 where ts: "attempts sc ts st1 = (oks1, st2)" by (metis surj_pair)
  then show ?case using Cons.prems t Cons.IH [of st1 oks1] by auto
qed simp

text \<open>All the attempts of a connection: when none but the last is accepted, the log says the same.\<close>

lemma attempts_log:
  assumes "attempts (serverConfig clock p k) ts (c, a) = (oks, c', a')" "True \<notin> set (butlast oks)"
  shows "\<exists>es. c' = c\<lparr>c_log := c_log c @ es\<rparr> \<and> length es \<le> length ts \<and> list_all (ownEvent (c_id c)) es \<and>
    (if ts \<noteq> [] \<and> last oks then es \<noteq> [] \<and> list_all refused (butlast es) \<and> admitted a (tryUser (last ts)) (last es) \<and>
       e_Username (last es) = tryUser (last ts)
     else list_all refused es)"
  using assms
proof (induction ts arbitrary: c a oks)
  case Nil
  then show ?case by (intro exI [of _ "[]"]) simp
next
  case (Cons t ts)
  obtain ok c1 a1 where t: "attempt (serverConfig clock p k) t (c, a) = (ok, c1, a1)" by (metis prod_cases3)
  obtain oks1 where ts: "attempts (serverConfig clock p k) ts (c1, a1) = (oks1, c', a')" "oks = ok # oks1"
    using Cons.prems(1) t by (auto split: prod.splits)
  obtain es1 where es1: "c1 = c\<lparr>c_log := c_log c @ es1\<rparr>" "length es1 \<le> 1" "list_all (ownEvent (c_id c)) es1"
      "if ok then es1 \<noteq> [] \<and> admitted a (tryUser t) (hd es1) \<and> e_Username (hd es1) = tryUser t else list_all refused es1"
      "Username a1 = Username a" "RootPassword a1 = RootPassword a" "UserPassword a1 = UserPassword a" "bf a = None \<longrightarrow> bf a1 = None"
    using attempt_logs [OF t] by (elim exE conjE) (rule that)
  show ?case
  proof (cases "ts = []")
    case True
    then have "c' = c1" "oks = [ok]" using ts by simp_all
    moreover have "\<exists>e. es1 = [e]" if "es1 \<noteq> []" using es1(2) that by (cases es1) auto
    ultimately show ?thesis using es1 True by (intro exI [of _ es1]) (auto split: if_splits)
  next
    case False
    then have "oks1 \<noteq> []" using attempts_length [OF ts(1)] by auto
    then have ok: "\<not> ok" "True \<notin> set (butlast oks1)" using Cons.prems(2) ts(2) by auto
    obtain es where es: "c' = c1\<lparr>c_log := c_log c1 @ es\<rparr>" "length es \<le> length ts" "list_all (ownEvent (c_id c1)) es"
      "if ts \<noteq> [] \<and> last oks1 then es \<noteq> [] \<and> list_all refused (butlast es) \<and> admitted a1 (tryUser (last ts)) (last es) \<and>
         e_Username (last es) = tryUser (last ts) else list_all refused es"
      using Cons.IH [OF ts(1) ok(2)] by blast
    have adm: "admitted a1 u e \<Longrightarrow> admitted a u e" for u e
      using es1 knownUser_cong [of a1 a] Accept_cong [of a1 a] by (auto simp: admitted_def)
    have ref: "list_all refused es1" using es1(4) ok(1) by simp
    have "c' = c\<lparr>c_log := c_log c @ es1 @ es\<rparr>" "length (es1 @ es) \<le> length (t # ts)" "list_all (ownEvent (c_id c)) (es1 @ es)"
      using es(1-3) es1(1-3) by simp_all
    moreover have "last oks = last oks1" "last (t # ts) = last ts" using \<open>oks1 \<noteq> []\<close> False ts(2) by simp_all
    moreover have "if last oks1 then es1 @ es \<noteq> [] \<and> list_all refused (butlast (es1 @ es)) \<and> admitted a (tryUser (last ts)) (last (es1 @ es)) \<and>
        e_Username (last (es1 @ es)) = tryUser (last ts) else list_all refused (es1 @ es)"
      using es(4) ref adm False by (simp add: butlast_append split: if_splits)
    ultimately show ?thesis by (intro exI [of _ "es1 @ es"]) (cases "last oks1", simp_all only: False simp_thms if_True if_False list.distinct)
  qed
qed

section \<open>What a channel may change\<close>

lemma interleave_events: "set (interleave_logs bs xs ys) = set xs \<union> set ys"
  by (induction bs xs ys rule: interleave_logs.induct) auto

lemma logged_own: "list_all (\<lambda>h. \<forall>mk. hd_event h = Some mk \<longrightarrow> ownEvent i (mk i)) hs \<Longrightarrow> list_all (ownEvent i) (logged hs i)"
  by (auto simp: logged_def List.map_filter_def list_all_iff)

lemma drain_own: "list_all (\<lambda>h. \<forall>mk. hd_event h = Some mk \<longrightarrow> ownEvent i (mk i)) (drain reqs st)"
proof (induction reqs arbitrary: st)
  case (Cons req reqs)
  have "ownEvent i (LogCommandNote i x y)" for x y by (simp add: ownEvent_def session_events)
  then show ?case using Cons by (auto simp: handleRequest_def handled_new_def Let_def split: prod.splits if_splits)
qed simp

lemma RunOnce_contained:
  assumes "RunOnce w s pool fs p user style pivot line = (n, c, pool')"
  shows "pool' = pool \<and> convStep s c"
proof (cases "TrimSpace line = []")
  case True
  then show ?thesis using assms by (auto simp: RunOnce_def Let_def)
next
  case False
  have a: "advances (newShell w s pool fs p user style pivot) (onceShell w s pool fs p user style pivot (TrimSpace line))"
    by (rule onceShell_advances)
  then show ?thesis using assms False closeShell_new [OF a] by (auto simp: RunOnce_def Let_def)
qed

lemma runStart_contained:
  assumes "runStart env sr c pool = (n, c', pool')"
  shows "pool' = pool \<and> convStep c c'"
proof (cases "sr_exec sr")
  case True
  have "convStep c (record_event (\<lambda>i. LogCommandNote i x y) c)" for x y
    by (auto simp: convStep_def record_event_def ownEvent_def session_events)
  note step = this [of "sr_cmd sr" "''ssh-exec''"]
  obtain user style pivot where run: "RunOnce (sv_world env) (record_event (\<lambda>i. LogCommandNote i (sr_cmd sr) ''ssh-exec'') c) pool (sv_fs env)
      (sv_persona env) user style pivot (sr_cmd sr) = (n, c', pool')" using True assms by (simp add: runStart_def Let_def)
  show ?thesis using RunOnce_contained [OF run] convStep_trans [OF step] by simp
next
  case False
  then show ?thesis using assms Run_contained by (auto simp: runStart_def Let_def) (metis fst_conv snd_conv)+
qed

text \<open>What serving channels leaves of the conversation: its bytes, and its log extended with its own events.\<close>

definition extends :: "conv \<Rightarrow> conv \<Rightarrow> bool" where
  "extends c c' \<longleftrightarrow> c_in c' = c_in c \<and> c_out c' = c_out c \<and> (\<exists>es. c_log c' = c_log c @ es \<and> list_all (ownEvent (c_id c)) es) \<and>
     se_ID (c_id c') = se_ID (c_id c) \<and> se_SrcIP (c_id c') = se_SrcIP (c_id c)"

lemma extends_trans:
  assumes "extends a b" "extends b c"
  shows "extends a c"
proof -
  have "ownEvent (c_id b) = ownEvent (c_id a)" using assms(1) by (auto simp: extends_def ownEvent_def)
  then show ?thesis using assms by (auto simp: extends_def)
qed

lemma extends_events: "list_all (ownEvent (c_id c)) es \<Longrightarrow> extends c (c\<lparr>c_log := c_log c @ es\<rparr>)"
  by (auto simp: extends_def)

lemma extends_refl: "extends c c"
  by (auto simp: extends_def)

lemma serveSession_contained:
  assumes "serveSession env nc c pool = (tr, c', pool')"
  shows "pool' = pool \<and> extends c c'"
proof (cases "nc_accepted nc")
  case False
  then show ?thesis using assms by (simp add: serveSession_def extends_refl)
next
  case acc: True
  define hs where "hs = drain (nc_requests nc) (False, False)"
  define before where "before = takeWhile (\<lambda>h. hd_start h = None) hs"
  define c1 where "c1 = c\<lparr>c_log := c_log c @ logged before (c_id c)\<rparr>"
  have own: "list_all (\<lambda>h. \<forall>mk. hd_event h = Some mk \<longrightarrow> ownEvent i (mk i)) hs" for i unfolding hs_def by (rule drain_own)
  then have b: "list_all (\<lambda>h. \<forall>mk. hd_event h = Some mk \<longrightarrow> ownEvent i (mk i)) before" for i
    by (auto simp: before_def list_all_iff dest: set_takeWhileD)
  have c1: "extends c c1" unfolding c1_def by (rule extends_events) (rule logged_own [OF b])
  show ?thesis
  proof (cases "dropWhile (\<lambda>h. hd_start h = None) hs")
    case Nil
    have "c' = c1" "pool' = pool" using assms acc
      unfolding serveSession_def Let_def hs_def [symmetric] Nil before_def [symmetric] c1_def [symmetric] by simp_all
    then show ?thesis using c1 by simp
  next
    case (Cons h later)
    have l: "list_all (\<lambda>h. \<forall>mk. hd_event h = Some mk \<longrightarrow> ownEvent i (mk i)) later" for i
      using own [of i] Cons by (auto simp: list_all_iff dest: set_dropWhileD) (metis list.set_intros(2) set_dropWhileD)
    note later = logged_own [OF l]
    show ?thesis
    proof (cases "nc_timely nc")
      case False
      have "c' = c1\<lparr>c_log := c_log c1 @ logged later (c_id c1)\<rparr>" "pool' = pool" using assms acc False
        unfolding serveSession_def Let_def hs_def [symmetric] Cons before_def [symmetric] c1_def [symmetric] by simp_all
      then show ?thesis using extends_trans [OF c1 extends_events [OF later]] by simp
    next
      case True
      define bound where "bound = c1\<lparr>c_in := (if sr_pty (the (hd_start h)) \<and> \<not> sr_exec (the (hd_start h)) then cookedStream (nc_input nc) else nc_input nc), c_out := []\<rparr>"
      obtain n c2 pool2 where run: "runStart env (the (hd_start h)) bound pool = (n, c2, pool2)" by (metis prod_cases3)
      have res: "c' = c2\<lparr>c_in := c_in c1, c_out := c_out c1, c_log := c_log c1 @ interleave_logs (nc_turns nc) (drop (length (c_log c1)) (c_log c2)) (logged later (c_id c1))\<rparr>"
        "pool' = pool2" using assms acc True run
        unfolding serveSession_def Let_def hs_def [symmetric] Cons before_def [symmetric] c1_def [symmetric] bound_def by simp_all
      obtain es where es: "c_log c2 = c_log c1 @ es" "list_all (ownEvent (c_id c1)) es" "se_ID (c_id c2) = se_ID (c_id c1)"
        "se_SrcIP (c_id c2) = se_SrcIP (c_id c1)" "pool2 = pool"
        using runStart_contained [OF run] by (auto simp: convStep_def bound_def)
      have "extends c1 c'" using es res later [of "c_id c1"] by (auto simp: extends_def list_all_iff interleave_events)
      then show ?thesis using extends_trans [OF c1] es res by simp
    qed
  qed
qed

lemma serveChans_contained: "serveChans env ncs c pool = (trs, c', pool') \<Longrightarrow> pool' = pool \<and> extends c c'"
proof (induction env ncs c pool arbitrary: trs rule: serveChans.induct)
  case (2 env nc ncs c pool)
  show ?case
  proof (cases "nc_ChannelType nc = ''session''")
    case False
    then show ?thesis using 2(1) 2(3) by (auto split: prod.splits)
  next
    case True
    obtain tr c1 pool1 where s: "serveSession env nc c pool = (tr, c1, pool1)" by (metis prod_cases3)
    then show ?thesis using 2(2) [OF _ s [symmetric] refl] 2(3) True serveSession_contained [OF s] extends_trans
      by (auto split: prod.splits)
  qed
qed (simp add: extends_refl)

text \<open>
  C33: no SSH session without a login that is on the record.  Whatever the client does, the log of a connection opens
  with its attempts, at most six: if it was served, all of them were refused but the last, which was accepted
  for the user it was served as, an account of the host (with the brute-force policy off, with that account's own
  password); if it was not, all of them were refused but possibly the last, and nothing else was logged; a host without
  a key of its own logs no attempt at all.  The shared overlay counter is as before.
\<close>

theorem ssh_needs_login:
  assumes "ssh_Handle newKey newSigner nsc env (opened s i) a pool = (run, c', a', pool')" "documentedTransport nsc"
  shows "pool' = pool \<and>
    (case run of
       Served _ user _ \<Rightarrow> \<exists>es rest. c_log c' = es @ rest \<and> length es \<le> 6 \<and> es \<noteq> [] \<and> list_all refused (butlast es) \<and>
         admitted a user (last es) \<and> e_Username (last es) = user
     | NotAuthenticated _ \<Rightarrow> length (c_log c') \<le> 6 \<and> list_all refused (butlast (c_log c'))
     | Tarpitted _ _ \<Rightarrow> list_all (\<lambda>e. e_Event e \<noteq> ''CREDENTIAL'') (c_log c'))"
proof -
  define c0 where "c0 = setPersona (p_Hostname (sv_persona env)) (opened s i)"
  have c0: "c_log c0 = []" by (simp add: c0_def setPersona_def opened_def)
  show ?thesis
  proof (cases "hostSigner newKey newSigner (sv_persona env)")
    case (Inl e)
    obtain c1 idle hold where t: "ssh_tarpit (sv_persona env) (record_event (\<lambda>i. LogRaw i ''SSH_NOTE'' ''no host key in persona; serving banner-and-tarpit'') c0) = (c1, idle, hold)"
      by (metis prod_cases3)
    then have "run = Tarpitted idle hold" "c' = c1" "pool' = pool"
      using assms(1) Inl by (simp_all add: ssh_Handle_def c0_def [symmetric] Let_def)
    moreover have "list_all (\<lambda>e. e_Event e \<noteq> ''CREDENTIAL'') (c_log c1)"
      using t c0 by (auto simp: ssh_tarpit_def Let_def getLine_def record_event_def LogRaw_def say_def split: prod.splits)
    ultimately show ?thesis by simp
  next
    case (Inr signer)
    obtain r c1 a1 where n: "nsc (serverConfig (sv_clock env) (sv_persona env) signer) (c0, a) = (r, c1, a1)" by (metis prod_cases3)
    have tries: "MaxAuthTries (serverConfig (sv_clock env) (sv_persona env) signer) = 6" by (simp add: serverConfig_def maxAuthTries_def)
    obtain ts oks where tr: "attempts (serverConfig (sv_clock env) (sv_persona env) signer) ts (c0, a) = (oks, c1, a1)"
        "length ts \<le> 6" "True \<notin> set (butlast oks)"
        "case r of None \<Rightarrow> True | Some (user, _) \<Rightarrow> ts \<noteq> [] \<and> last oks \<and> user = tryUser (last ts)"
      using transport_attempts [OF assms(2), of "serverConfig (sv_clock env) (sv_persona env) signer" "(c0, a)"] n tries by auto
    obtain es where es: "c1 = c0\<lparr>c_log := es\<rparr>" "length es \<le> 6"
      "if ts \<noteq> [] \<and> last oks then es \<noteq> [] \<and> list_all refused (butlast es) \<and> admitted a (tryUser (last ts)) (last es) \<and>
         e_Username (last es) = tryUser (last ts) else list_all refused es"
      using attempts_log [OF tr(1,3)] tr(2) c0 by auto
    show ?thesis
    proof (cases r)
      case None
      then have "run = NotAuthenticated [handshakeTimeout]" "c' = c1" "pool' = pool"
        using assms(1) Inr n by (simp_all add: ssh_Handle_def c0_def [symmetric] Let_def)
      moreover have "list_all refused (butlast es)" using es(3) by (auto simp: list_all_iff dest: in_set_butlastD split: if_splits)
      ultimately show ?thesis using es by simp
    next
      case (Some uc)
      obtain user chans where u: "uc = (user, chans)" by (metis surj_pair)
      obtain trs c2 pool2 where sv: "serveChans env chans (setUsername user c1) pool = (trs, c2, pool2)" by (metis prod_cases3)
      have "run = Served [handshakeTimeout, sessionDeadline] user trs" "c' = c2" "pool' = pool2"
        using assms(1) Inr n Some u sv by (simp_all add: ssh_Handle_def c0_def [symmetric] Let_def)
      moreover obtain rest where "c_log c2 = es @ rest" "pool2 = pool"
        using serveChans_contained [OF sv] es(1) by (auto simp: extends_def setUsername_def)
      ultimately show ?thesis using es tr(4) Some u by auto
    qed
  qed
qed

text \<open>A transport that hands over one attempt and opens no channel.\<close>

definition oneTry :: "authTry \<Rightarrow> 'k ServerConfig \<Rightarrow> authState \<Rightarrow> (string \<times> NewChannel list) option \<times> authState" where
  "oneTry t sc st =
    (if MaxAuthTries sc = 0 then (None, st)
     else case attempt sc t st of (ok, st) \<Rightarrow> (if ok then Some (tryUser t, []) else None, st))"

lemma oneTry_documented: "documentedTransport (oneTry t)"
  unfolding documentedTransport_def
proof (intro allI)
  fix sc :: "'k ServerConfig" and st
  obtain ok st1 where t: "attempt sc t st = (ok, st1)" by (metis surj_pair)
  show "\<exists>ts oks. attempts sc ts st = (oks, snd (oneTry t sc st)) \<and> length ts \<le> MaxAuthTries sc \<and> True \<notin> set (butlast oks) \<and>
       (case fst (oneTry t sc st) of None \<Rightarrow> True | Some (user, _) \<Rightarrow> ts \<noteq> [] \<and> last oks \<and> user = tryUser (last ts))"
  proof (cases "MaxAuthTries sc = 0")
    case True
    then show ?thesis by (intro exI [of _ "[]"]) (simp add: oneTry_def)
  next
    case False
    then show ?thesis using t by (intro exI [of _ "[t]"] exI [of _ "[ok]"]) (simp add: oneTry_def)
  qed
qed

definition demoSsh :: "unit ssh_env" where
  "demoSsh = \<lparr>sv_assets = demoAssets, sv_world = demoWorld, sv_fs = demoFS, sv_persona = demoHost\<lparr>p_SSHHostKeySeed := replicate 43 CHR ''A''\<rparr>, sv_style = [], sv_clock = (\<lambda>_. (0, 0))\<rparr>"

lemma ssh_needs_login_witness:
  "\<exists>es rest. c_log (fst (snd (ssh_Handle (\<lambda>_. ()) Ok (oneTry (ByPassword ''root'' ''toor'')) demoSsh (opened Conversation.demoSession [])
       \<lparr>Username = ''ubuntu'', RootPassword = ''toor'', UserPassword = ''ubuntu'', Profile = [], bf = None\<rparr> 0))) = es @ rest \<and>
     length es \<le> 6 \<and> es \<noteq> [] \<and> e_Username (last es) = ''root''"
proof -
  let ?a = "\<lparr>Username = ''ubuntu'', RootPassword = ''toor'', UserPassword = ''ubuntu'', Profile = [], bf = None\<rparr>"
  let ?h = "ssh_Handle (\<lambda>_. ()) Ok (oneTry (ByPassword ''root'' ''toor'')) demoSsh (opened Conversation.demoSession []) ?a 0"
  obtain run c' a' pool' where h: "?h = (run, c', a', pool')" by (metis prod_cases4)
  have "RawStdDecode (replicate 43 CHR ''A'') \<noteq> None \<and> length (the (RawStdDecode (replicate 43 CHR ''A''))) = 32" by code_simp
  then have k: "hostSigner (\<lambda>_. ()) Ok (sv_persona demoSsh) = Ok ()"
    by (auto simp: hostSigner_def SSHHostKey_def demoSsh_def)
  have "run = Served [handshakeTimeout, sessionDeadline] ''root'' []"
    using h k by (simp add: ssh_Handle_def oneTry_def serverConfig_def maxAuthTries_def authPassword_def AcceptFrom_def Accept_def demoSsh_def Let_def)
  then show ?thesis using ssh_needs_login [OF h oneTry_documented] h by auto
qed

section \<open>Wire strings\<close>

lemma PutUint32_length [simp]: "length (PutUint32 v) = 4"
  by (simp add: PutUint32_def)

lemma Uint32_PutUint32: "Uint32 (PutUint32 v @ r) = v"
proof -
  define n where "n = uint v"
  have n: "0 \<le> n" "n < 2 ^ 32" using uint_lt2p [of v] by (simp_all add: n_def)
  have d: "uint (drop_bit k v) = n div 2 ^ k" for k using uint_lt2p [of v] unfolding n_def unsigned_drop_bit_eq by (simp add: drop_bit_eq_div take_bit_int_eq_self)
  have "horner_sum code 256 (rev (PutUint32 v)) = n mod 256 + 256 * (n div 256 mod 256 + 256 * (n div 65536 mod 256 + 256 * (n div 16777216 mod 256)))"
    by (simp add: PutUint32_def d code_def)
  also have "\<dots> = n"
  proof -
    have e: "n div 65536 = n div 256 div 256" "n div 16777216 = n div 65536 div 256"
      by (simp_all add: zdiv_zmult2_eq [symmetric])
    have "n div 16777216 < 256" "0 \<le> n div 16777216" using n by (simp_all add: div_less_iff_less_mult)
    then have f1: "n div 16777216 mod 256 = n div 16777216" by (rule mod_pos_pos_trivial [rotated])
    have f2: "n div 65536 mod 256 + 256 * (n div 16777216) = n div 65536" unfolding e(2) by (rule mod_mult_div_eq)
    have f3: "n div 256 mod 256 + 256 * (n div 65536) = n div 256" unfolding e(1) by (rule mod_mult_div_eq)
    show ?thesis unfolding f1 f2 f3 by (rule mod_mult_div_eq)
  qed
  finally show ?thesis by (simp add: Uint32_def n_def)
qed

text \<open>A string comes out as it was put in; a length that claims more than there is is refused and nothing is read past the end.\<close>

lemma sshString_roundtrip:
  assumes "length s + length r < 2 ^ 32"
  shows "sshString (PutUint32 (of_nat (length s)) @ s @ r) = (s, r, True)"
proof -
  have u: "unat (of_nat n :: 32 word) = n" if "n < 2 ^ 32" for n using that by (simp add: unat_of_nat)
  have "\<not> (of_nat (length s + length r) :: 32 word) < of_nat (length s)"
    unfolding word_less_nat_alt using assms u [of "length s + length r"] u [of "length s"] by (simp del: of_nat_add)
  then show ?thesis using u [of "length s"] assms by (simp add: sshString_def Uint32_PutUint32 Let_def)
qed

lemma sshString_in_bounds: "sshString b = (s, r, True) \<Longrightarrow> \<exists>h. length h = 4 \<and> b = h @ s @ r"
proof (intro exI [of _ "take 4 b"] conjI)
  assume s: "sshString b = (s, r, True)"
  then show "length (take 4 b) = 4" by (auto simp: sshString_def split: if_splits)
  have "s @ r = drop 4 b" using s by (auto simp: sshString_def Let_def simp del: drop_drop split: if_splits)
  then show "b = take 4 b @ s @ r" by simp
qed

lemma parseEnvReq_roundtrip:
  assumes "length n + length v + 4 < 2 ^ 32"
  shows "parseEnvReq (PutUint32 (of_nat (length n)) @ n @ PutUint32 (of_nat (length v)) @ v) = Some (n, v)"
  using sshString_roundtrip [of n "PutUint32 (of_nat (length v)) @ v"] sshString_roundtrip [of v "[]"] assms
  by (simp add: parseEnvReq_def)

section \<open>Whole connections\<close>

definition ssh_serve ::
  "(bytes \<Rightarrow> 'k) \<Rightarrow> ('k \<Rightarrow> string + 's) \<Rightarrow> (string \<Rightarrow> 's ServerConfig \<Rightarrow> authState \<Rightarrow> (string \<times> NewChannel list) option \<times> authState) \<Rightarrow>
   'e ssh_env \<Rightarrow> Accounts \<Rightarrow> int \<Rightarrow> SessionID \<Rightarrow> string \<Rightarrow> conv" where
  "ssh_serve newKey newSigner nsc env a pool s i = fst (snd (ssh_Handle newKey newSigner (nsc i) env (opened s i) a pool))"

lemma proper_extends: "proper s c \<Longrightarrow> extends c c' \<Longrightarrow> proper s c'"
  by (auto simp: proper_def extends_def ownEvent_def list_all_iff)

lemma proper_LogRaw: "proper s c \<Longrightarrow> proper s (record_event (\<lambda>i. LogRaw i n d) c)"
  by (erule proper_record_event) (simp add: session_events)

lemma proper_tarpit: "proper s c \<Longrightarrow> proper s (fst (ssh_tarpit p c))"
  by (auto simp: ssh_tarpit_def Let_def split: prod.splits intro!: proper_LogRaw elim!: proper_getLine [rotated] intro: proper_say)

lemma proper_ssh:
  assumes "documentedTransport (nsc i)"
  shows "proper s (ssh_serve newKey newSigner nsc env a pool s i)"
proof -
  define c0 where "c0 = setPersona (p_Hostname (sv_persona env)) (opened s i)"
  have c0: "proper s c0" by (simp add: c0_def proper_setPersona proper_begin)
  show ?thesis
  proof (cases "hostSigner newKey newSigner (sv_persona env)")
    case (Inl e)
    then show ?thesis using proper_tarpit [OF proper_LogRaw [OF c0]]
      by (auto simp: ssh_serve_def ssh_Handle_def c0_def [symmetric] Let_def split: prod.splits) (metis fst_conv)
  next
    case (Inr signer)
    let ?sc = "serverConfig (sv_clock env) (sv_persona env) signer"
    obtain r c1 a1 where n: "nsc i ?sc (c0, a) = (r, c1, a1)" by (metis prod_cases3)
    obtain ts oks where tr: "attempts ?sc ts (c0, a) = (oks, c1, a1)" "True \<notin> set (butlast oks)"
      using transport_attempts [OF assms, of ?sc "(c0, a)"] by (metis n snd_conv)
    obtain es where "c1 = c0\<lparr>c_log := c_log c0 @ es\<rparr>" "list_all (ownEvent (c_id c0)) es"
      using attempts_log [OF tr] by blast
    then have c1: "proper s c1" using c0 extends_events proper_extends by metis
    show ?thesis
    proof (cases r)
      case None
      then show ?thesis using c1 Inr n by (simp add: ssh_serve_def ssh_Handle_def c0_def [symmetric] Let_def)
    next
      case (Some uc)
      obtain user chans where u: "uc = (user, chans)" by (metis surj_pair)
      obtain trs c2 pool2 where sv: "serveChans env chans (setUsername user c1) pool = (trs, c2, pool2)" by (metis prod_cases3)
      have "proper s c2" using serveChans_contained [OF sv] c1 proper_setUsername proper_extends by metis
      then show ?thesis using Inr n Some u sv by (simp add: ssh_serve_def ssh_Handle_def c0_def [symmetric] Let_def)
    qed
  qed
qed

lemma ssh_handler:
  "\<forall>i. documentedTransport (nsc i) \<Longrightarrow> protocol_handler (\<lambda>s i. outcomeOf (dur s i) (ssh_serve newKey newSigner nsc env a pool s i))"
  by (rule proper_handler) (simp add: proper_ssh)

interpretation sshtar: protocol_handler "\<lambda>s i. outcomeOf (dur s i) (fst (tarpit_Handle p (opened s i)))"
  by (rule proper_handler) (simp add: tarpit_Handle_def proper_tarpit proper_setPersona proper_begin)

text \<open>
  C25: a connection to the FTP, telnet, HTTP, TLS or SSH listener (over a transport that
  does what its documentation says) leaves both connection counters as they were, and
  every event it logs, whatever the client does in the dialogue, in the shell it is let into or with a command it
  injects, apart from the server's own notices, carries the address the connection speaks for: the peer's own address unless
  the listener honours PROXY headers and the peer is a trusted proxy, and then the address of a well-formed
  header; nothing else the peer sends can change it.
\<close>

theorem connection_names_its_source:
  assumes "env_handler env = (\<lambda>s i. outcomeOf (dur s i) (ftp_Handle p s i)) \<or>
      env_handler env = (\<lambda>s i. outcomeOf (dur s i) (fst (telnet_serve A w clock fs p style a pool s i))) \<or>
      env_handler env = (\<lambda>s i. outcomeOf (dur s i) (http_serve he pr st pool s i)) \<or>
      env_handler env = (\<lambda>s i. outcomeOf (dur s i) (https_serve p s i)) \<or>
      (\<forall>i. documentedTransport (nsc i)) \<and> env_handler env = (\<lambda>s i. outcomeOf (dur s i) (ssh_serve newKey newSigner nsc senv a pool s i))"
    and "handle env remote dst br (n, srv) = (es, n', srv')"
    and "\<forall>k. 0 \<le> connCount (sv_conns srv) k"
  shows "n' = n \<and> connCount (sv_conns srv') k = connCount (sv_conns srv) k \<and>
    list_all (\<lambda>e. e_Event e = ''SYSTEM'' \<or> e_SrcIP e = HostOnly (spokenFor env srv remote br)) es \<and>
    (\<not> peerTrusted (env_parseAddrPort env) srv remote \<longrightarrow> spokenFor env srv remote br = remote)"
proof -
  have h: "protocol_handler (env_handler env)"
    using assms(1) by (elim disjE conjE) (simp_all only: ftp.protocol_handler_axioms telnet.protocol_handler_axioms
        http.protocol_handler_axioms https.protocol_handler_axioms, simp add: ssh_handler)
  have "e_Event e = ''SYSTEM'' \<or> e_SrcIP e = HostOnly (spokenFor env srv remote br)" if "e \<in> set es" for e
    by (rule protocol_handler.handle_named [OF h assms(2) refl that])
  moreover have "\<not> peerTrusted (env_parseAddrPort env) srv remote \<Longrightarrow> spokenFor env srv remote br = remote"
    by (simp add: spokenFor_def)
  ultimately show ?thesis using ftp.handle_restores [OF assms(2,3), of k] by (simp add: list_all_iff)
qed

definition demoListener :: listener where
  "demoListener = \<lparr>sv_port = 21, sv_name = ''ftp'', sv_clientFirst = False, ProxyProtocol = True, trustedProxyNets = [],
     RecordDir = [], sv_conns = [], sv_shed = \<lparr>shedN = 0, shedLast = 0\<rparr>\<rparr>"

definition demoEnv :: environment where
  "demoEnv = \<lparr>env_parseAddrPort = (\<lambda>_. Some (V4 0xCB007107)), env_parseIP = (\<lambda>_. True), env_ipString = (\<lambda>_. []),
     env_id = ''3yQ'', env_recordErr = None, env_now = 0,
     env_handler = (\<lambda>s i. outcomeOf 0 (ftp_Handle (fst (run_state (Generate 0) [])) s i))\<rparr>"

lemma connection_names_its_source_witness:
  "fst (snd (handle demoEnv ''203.0.113.7:5000'' ''10.0.0.5:21'' ''USER root'' (0, demoListener))) = 0 \<and>
   spokenFor demoEnv demoListener ''203.0.113.7:5000'' ''USER root'' = ''203.0.113.7:5000''"
proof -
  let ?h = "handle demoEnv ''203.0.113.7:5000'' ''10.0.0.5:21'' ''USER root'' (0, demoListener)"
  have h: "?h = (fst ?h, fst (snd ?h), snd (snd ?h))" by simp
  have e: "env_handler demoEnv = (\<lambda>s i. outcomeOf 0 (ftp_Handle (fst (run_state (Generate 0) [])) s i))"
    by (simp add: demoEnv_def)
  have k: "\<forall>k. 0 \<le> connCount (sv_conns demoListener) k" by (simp add: demoListener_def connCount_def)
  have "\<not> peerTrusted (env_parseAddrPort demoEnv) demoListener ''203.0.113.7:5000''"
    by (simp add: peerTrusted_def demoEnv_def demoListener_def IsLoopback_def Unmap_def)
  with connection_names_its_source [OF disjI1 [OF e] h k] show ?thesis by simp
qed



end
