(* ===== verification/PortalAnalyze.thy ===== *)
theory PortalAnalyze
  imports Events
begin

text \<open>
  The portal's reading of one source (\<^verbatim>\<open>internal/portal/analyze.go\<close>): the evidence collected event by event,
  the verdict drawn from it, the phases reached and the visits the source's history falls into.  The
  parser of RFC 3339 times, giving milliseconds, is the parameter \<open>rfc\<close>; a Go map used as a set is a list
  without repetitions.
  Shown: the confidence is a percentage, a source is called human only when nothing at all speaks for a
  bot, and the visits account for every event exactly once.
\<close>

definition visitGapMs :: int where "visitGapMs = 1800000"
definition fastCommandMs :: int where "fastCommandMs = 400"

definition kindUnknown :: string where "kindUnknown = ''unknown''"
definition kindScanner :: string where "kindScanner = ''scanner''"
definition kindBruteforce :: string where "kindBruteforce = ''bot:bruteforce''"
definition kindLoader :: string where "kindLoader = ''bot:loader''"
definition kindHuman :: string where "kindHuman = ''human?''"

definition phaseRecon :: string where "phaseRecon = ''recon''"
definition phaseBrute :: string where "phaseBrute = ''bruteforce''"
definition phaseAccess :: string where "phaseAccess = ''access''"
definition phaseExploit :: string where "phaseExploit = ''exploit''"

lemmas kinds = kindUnknown_def kindScanner_def kindBruteforce_def kindLoader_def kindHuman_def
lemmas phases = phaseRecon_def phaseBrute_def phaseAccess_def phaseExploit_def

record Visit =
  v_Start :: string
  v_End :: string
  v_Events :: nat
  v_Phase :: string
  v_Accepted :: bool

record Assessment =
  as_Kind :: string
  as_Confidence :: int
  as_Reasons :: "string list"
  as_Phases :: "string list"
  as_Visits :: "Visit list"
  as_CadenceMs :: int
  as_Returning :: bool

record sourceSignals =
  g_commands :: int
  g_credentials :: int
  g_sessions :: int
  g_uniqueCmds :: int
  g_scanned :: bool
  g_hasExec :: bool
  g_hasDownload :: bool
  g_hasBait :: bool
  g_sentinelCred :: bool
  g_probeCmd :: bool
  g_loaderCmd :: bool
  g_fastBurst :: bool
  g_lastCmdMs :: int
  g_minCmdGap :: int
  g_maxCmdGap :: int
  g_sawGap :: bool
  g_seen :: "string list"

definition noSignals :: sourceSignals where
  "noSignals = \<lparr>g_commands = 0, g_credentials = 0, g_sessions = 0, g_uniqueCmds = 0, g_scanned = False,
     g_hasExec = False, g_hasDownload = False, g_hasBait = False, g_sentinelCred = False, g_probeCmd = False,
     g_loaderCmd = False, g_fastBurst = False, g_lastCmdMs = 0, g_minCmdGap = 0, g_maxCmdGap = 0,
     g_sawGap = False, g_seen = []\<rparr>"

definition entryMs :: "(string \<Rightarrow> int option) \<Rightarrow> Entry \<Rightarrow> int" where
  "entryMs rfc e =
    (if e_EpochMs e \<noteq> 0 then e_EpochMs e
     else case rfc (e_Time e) of Some ms \<Rightarrow> ms | None \<Rightarrow> 0)"

definition isSentinelCred :: "string \<Rightarrow> string \<Rightarrow> bool" where
  "isSentinelCred user pass = list_ex (\<lambda>v. Contains v ''345gs5662d34'') [user, pass]"

definition loaderMarkers :: "string list" where
  "loaderMarkers = [''chpasswd'', ''chattr -ia'', ''authorized_keys'', ''echo -ne'',
     ''echo -e '' @ [SQUOTE, BACKSLASH] @ ''x'', ''echo -e '' @ [DQUOTE, BACKSLASH] @ ''x'']"

definition isLoaderCommand :: "string \<Rightarrow> bool" where
  "isLoaderCommand cmd =
    (list_ex (\<lambda>m. Contains cmd m) loaderMarkers \<or> Contains cmd ''|sh'' \<or> Contains cmd ''| sh'' \<or>
     Contains cmd ''|bash'' \<or> Contains cmd ''| bash'')"

definition commonApplets :: "string list" where
  "commonApplets = [''cat'', ''ls'', ''echo'', ''wget'', ''tftp'', ''cp'', ''chmod'', ''rm'', ''ps'', ''kill'',
     ''hostname'', ''sh'', ''dd'', ''mount'', ''umount'', ''free'', ''df'', ''ifconfig'', ''reboot'']"

definition isBusyboxProbe :: "string \<Rightarrow> bool" where
  "isBusyboxProbe cmd =
    (case Fields cmd of
       [b, tok] \<Rightarrow> b = ''/bin/busybox'' \<and> tok \<notin> set commonApplets \<and> 3 \<le> length tok \<and>
         list_all (\<lambda>r. isLower r \<or> isUpper r \<or> isDigit r) tok
     | _ \<Rightarrow> False)"

text \<open>The timing of one more command, at \<open>ms\<close> (zero when unknown).\<close>

definition observeGap :: "int \<Rightarrow> sourceSignals \<Rightarrow> sourceSignals" where
  "observeGap ms s =
    (let s = (if g_lastCmdMs s \<noteq> 0 \<and> ms \<noteq> 0 \<and> 0 \<le> wrap64 (ms - g_lastCmdMs s) then
           let gap = wrap64 (ms - g_lastCmdMs s)
           in s\<lparr>g_minCmdGap := if \<not> g_sawGap s \<or> gap < g_minCmdGap s then gap else g_minCmdGap s,
                g_sawGap := True,
                g_maxCmdGap := if gap > g_maxCmdGap s then gap else g_maxCmdGap s,
                g_fastBurst := g_fastBurst s \<or> gap < fastCommandMs\<rparr>
         else s)
     in if ms \<noteq> 0 then s\<lparr>g_lastCmdMs := ms\<rparr> else s)"

definition observe :: "(string \<Rightarrow> int option) \<Rightarrow> Entry \<Rightarrow> sourceSignals \<Rightarrow> sourceSignals" where
  "observe rfc e s =
    (if e_Event e = ''PORT_SCAN'' then s\<lparr>g_scanned := True\<rparr>
     else if e_Event e = ''SESSION_START'' then s\<lparr>g_sessions := g_sessions s + 1\<rparr>
     else if e_Event e = ''CREDENTIAL'' then
       s\<lparr>g_credentials := g_credentials s + 1,
         g_sentinelCred := g_sentinelCred s \<or> isSentinelCred (e_Username e) (e_Password e)\<rparr>
     else if e_Event e = ''COMMAND'' then
       let new = e_Command e \<notin> set (g_seen s)
       in observeGap (entryMs rfc e)
            (s\<lparr>g_commands := g_commands s + 1,
               g_seen := if new then e_Command e # g_seen s else g_seen s,
               g_uniqueCmds := if new then g_uniqueCmds s + 1 else g_uniqueCmds s,
               g_loaderCmd := g_loaderCmd s \<or> isLoaderCommand (e_Command e),
               g_probeCmd := g_probeCmd s \<or> isBusyboxProbe (e_Command e)\<rparr>)
     else if e_Event e = ''EXEC_ATTEMPT'' then s\<lparr>g_hasExec := True\<rparr>
     else if e_Event e = ''DOWNLOAD_ATTEMPT'' then s\<lparr>g_hasDownload := True\<rparr>
     else if e_Event e = ''HONEYTOKEN'' then s\<lparr>g_hasBait := True\<rparr>
     else s)"

definition humanPacing :: "sourceSignals \<Rightarrow> bool" where
  "humanPacing s = (g_maxCmdGap s > 1500 \<and> \<not> g_fastBurst s \<and> g_commands s \<ge> 3)"

definition clamp :: "int \<Rightarrow> int \<Rightarrow> int \<Rightarrow> int" where
  "clamp v lo hi = (if v < lo then lo else if v > hi then hi else v)"

text \<open>The weighted evidence for a bot: each signal's weight and its reason, in the order the code adds them.\<close>

definition botEvidence :: "sourceSignals \<Rightarrow> (int \<times> string) list" where
  "botEvidence s =
    (if g_loaderCmd s then [(3, ''ran loader/persistence commands (chpasswd, key drop, or echoloader)'')] else []) @
    (if g_sentinelCred s then [(3, ''offered a honeypot-probe credential a real user never types'')] else []) @
    (if g_probeCmd s then [(3, ''ran a BusyBox presence probe to fingerprint the box'')] else []) @
    (if g_fastBurst s then [(2, ''fired commands faster than a human can type'')] else []) @
    (if g_hasExec s then [(1, ''attempted to execute a dropped payload'')] else []) @
    (if g_hasDownload s then [(1, ''attempted to pull a second-stage payload'')] else [])"

definition botScore :: "sourceSignals \<Rightarrow> int" where
  "botScore s = sum_list (map fst (botEvidence s))"

definition kindOf :: "sourceSignals \<Rightarrow> string \<times> string list" where
  "kindOf s =
    (let bot = botScore s; human = (if humanPacing s then 1 else 0 :: int)
     in if g_loaderCmd s \<or> (g_hasExec s \<and> bot \<ge> 3) then (kindLoader, [])
        else if bot \<ge> 3 then (kindBruteforce, [])
        else if g_commands s = 0 \<and> g_credentials s \<ge> 4 then
          (kindBruteforce, [''sprayed credentials without ever running a command''])
        else if g_commands s = 0 \<and> g_credentials s = 0 \<and> \<not> g_hasExec s \<and> \<not> g_hasDownload s then
          (kindScanner, [if g_scanned s then ''connected and sent nothing (a bare port scan)''
                         else ''probed without authenticating or running a command''])
        else if human > 0 \<and> bot = 0 then (kindHuman, [''paced commands at human, varied intervals''])
        else (kindUnknown, []))"

definition verdict :: "sourceSignals \<Rightarrow> string \<times> int \<times> string list" where
  "verdict s =
    (let bot = botScore s; human = (if humanPacing s then 1 else 0); (kind, why) = kindOf s;
         confidence =
           (if kind = kindLoader then clamp (70 + bot * 8) 0 99
            else if kind = kindBruteforce then
              (if bot \<ge> 3 then clamp (70 + bot * 6) 0 99 else clamp (45 + g_credentials s * 3) 0 90)
            else if kind = kindScanner then 75
            else if kind = kindHuman then clamp (35 + human * 15) 0 70
            else 0)
     in (kind, confidence, map snd (botEvidence s) @ why))"

definition phaseOf :: "Entry \<Rightarrow> string" where
  "phaseOf e =
    (if e_Event e \<in> {''PORT_SCAN'', ''HTTP_REQUEST'', ''HTTP_POST'', ''TLS_HELLO''} then phaseRecon
     else if e_Event e = ''CREDENTIAL'' then phaseBrute
     else if e_Event e = ''COMMAND'' then (if isLoaderCommand (e_Command e) then phaseExploit else phaseAccess)
     else if e_Event e \<in> {''EXEC_ATTEMPT'', ''DOWNLOAD_ATTEMPT'', ''DROPPER'', ''HONEYTOKEN''} then phaseExploit
     else [])"

definition phaseRank :: "string \<Rightarrow> nat" where
  "phaseRank p =
    (if p = phaseRecon then 1 else if p = phaseBrute then 2 else if p = phaseAccess then 3
     else if p = phaseExploit then 4 else 0)"

definition orderedPhases :: "string list \<Rightarrow> string list" where
  "orderedPhases reached = filter (\<lambda>p. p \<in> set reached) [phaseRecon, phaseBrute, phaseAccess, phaseExploit]"

section \<open>Reading a history\<close>

record analysis =
  az_sig :: sourceSignals
  az_visits :: "Visit list"
  az_prevMs :: int
  az_reached :: "string list"

definition newVisit :: "string \<Rightarrow> Visit" where
  "newVisit t = \<lparr>v_Start = t, v_End = [], v_Events = 0, v_Phase = [], v_Accepted = False\<rparr>"

text \<open>Whether an event opens a new visit after the last one at \<open>prev\<close> (zero when unknown).\<close>

definition comesBack :: "int \<Rightarrow> int \<Rightarrow> bool" where
  "comesBack prev ms = (prev \<noteq> 0 \<and> ms \<noteq> 0 \<and> wrap64 (ms - prev) > visitGapMs)"

definition visitEvent :: "Entry \<Rightarrow> Visit \<Rightarrow> Visit" where
  "visitEvent e v =
    (let v = v\<lparr>v_End := e_Time e, v_Events := v_Events v + 1\<rparr>;
         v = (if phaseOf e \<noteq> [] \<and> phaseRank (phaseOf e) > phaseRank (v_Phase v) then v\<lparr>v_Phase := phaseOf e\<rparr> else v)
     in if e_Event e = ''COMMAND'' then v\<lparr>v_Accepted := True\<rparr> else v)"

definition analyzeStep :: "(string \<Rightarrow> int option) \<Rightarrow> analysis \<Rightarrow> Entry \<Rightarrow> analysis" where
  "analyzeStep rfc a e =
    (let ms = entryMs rfc e;
         visits = (if az_visits a = [] \<or> comesBack (az_prevMs a) ms then az_visits a @ [newVisit (e_Time e)] else az_visits a)
     in \<lparr>az_sig = observe rfc e (az_sig a),
         az_visits = butlast visits @ [visitEvent e (last visits)],
         az_prevMs = (if ms \<noteq> 0 then ms else az_prevMs a),
         az_reached = (if phaseOf e \<noteq> [] then phaseOf e # az_reached a else az_reached a)\<rparr>)"

definition noHistory :: analysis where
  "noHistory = \<lparr>az_sig = noSignals, az_visits = [], az_prevMs = 0, az_reached = []\<rparr>"

definition isReturning :: "nat \<Rightarrow> sourceSignals \<Rightarrow> bool" where
  "isReturning visits s = (visits \<ge> 2 \<or> (g_scanned s \<and> (g_commands s > 0 \<or> g_sessions s > 0)))"

definition analyzeSource :: "(string \<Rightarrow> int option) \<Rightarrow> Entry list \<Rightarrow> Assessment" where
  "analyzeSource rfc es =
    (let a = foldl (analyzeStep rfc) noHistory es; (kind, confidence, reasons) = verdict (az_sig a)
     in \<lparr>as_Kind = kind, as_Confidence = confidence, as_Reasons = reasons, as_Phases = orderedPhases (az_reached a),
         as_Visits = az_visits a, as_CadenceMs = g_minCmdGap (az_sig a),
         as_Returning = isReturning (length (az_visits a)) (az_sig a)\<rparr>)"

section \<open>The verdict is conservative\<close>

lemma botScore_weights:
  "botScore s = (if g_loaderCmd s then 3 else 0) + (if g_sentinelCred s then 3 else 0) + (if g_probeCmd s then 3 else 0) +
     (if g_fastBurst s then 2 else 0) + (if g_hasExec s then 1 else 0) + (if g_hasDownload s then 1 else 0)"
  by (simp add: botScore_def botEvidence_def)

lemma botScore_bounds: "0 \<le> botScore s \<and> botScore s \<le> 13"
  by (simp add: botScore_weights)

lemma kindOf_kinds: "fst (kindOf s) \<in> {kindUnknown, kindScanner, kindBruteforce, kindLoader, kindHuman}"
  by (auto simp: kindOf_def Let_def)

lemma verdict_confidence: "0 \<le> fst (snd (verdict s)) \<and> fst (snd (verdict s)) \<le> 99"
  by (auto simp: verdict_def Let_def clamp_def split: prod.splits)

lemma human_needs_no_bot:
  assumes "fst (verdict s) = kindHuman"
  shows "botEvidence s = [] \<and> g_commands s \<ge> 3 \<and> g_maxCmdGap s > 1500"
proof -
  have "fst (kindOf s) = kindHuman" using assms by (auto simp: verdict_def Let_def split: prod.splits)
  then have "humanPacing s" "botScore s = 0"
    by (auto simp: kindOf_def Let_def kinds split: if_splits)
  then show ?thesis by (auto simp: humanPacing_def botScore_weights botEvidence_def split: if_splits)
qed

section \<open>Visits account for every event\<close>

lemma visitEvent_events [simp]: "v_Events (visitEvent e v) = Suc (v_Events v)"
  by (simp add: visitEvent_def Let_def)

lemma visitEvent_last:
  "vs \<noteq> [] \<Longrightarrow> sum_list (map v_Events (butlast vs @ [visitEvent e (last vs)])) = Suc (sum_list (map v_Events vs))"
  by (cases vs rule: rev_cases) simp_all

lemma analyzeStep_visits:
  "sum_list (map v_Events (az_visits (analyzeStep rfc a e))) = Suc (sum_list (map v_Events (az_visits a)))"
proof -
  define vs where "vs = (if az_visits a = [] \<or> comesBack (az_prevMs a) (entryMs rfc e)
    then az_visits a @ [newVisit (e_Time e)] else az_visits a)"
  have "vs \<noteq> []" by (simp add: vs_def)
  moreover have "sum_list (map v_Events vs) = sum_list (map v_Events (az_visits a))"
    by (simp add: vs_def newVisit_def)
  moreover have "az_visits (analyzeStep rfc a e) = butlast vs @ [visitEvent e (last vs)]"
    by (simp only: analyzeStep_def Let_def analysis.simps vs_def)
  ultimately show ?thesis by (metis visitEvent_last)
qed

lemma analyze_visits:
  "sum_list (map v_Events (az_visits (foldl (analyzeStep rfc) a es))) = sum_list (map v_Events (az_visits a)) + length es"
  by (induction es arbitrary: a) (simp_all add: analyzeStep_visits)

lemma analyze_signals: "az_sig (foldl (analyzeStep rfc) a es) = foldl (\<lambda>s e. observe rfc e s) (az_sig a) es"
  by (induction es arbitrary: a) (simp_all add: analyzeStep_def Let_def)

end
