(* ===== verification/HAProxy.thy ===== *)
theory HAProxy
  imports Prelude
begin

text \<open>
  The HAProxy management helper (\<^verbatim>\<open>internal/haproxy\<close>): parsing the stick table of the edge and deciding
  which flooding sources are due a report.  Dialling the admin socket is left out; what it returns is
  the text parsed here.
\<close>

section \<open>sticktable.go\<close>

record Source =
  IP :: string
  ConnCur :: int
  ConnRate :: int

definition field :: "string \<Rightarrow> string \<Rightarrow> string" where
  "field line pre =
     (case Index line pre of
        None \<Rightarrow> []
      | Some i \<Rightarrow>
          let rest = drop (i + length pre) line
          in case IndexByte rest (CHR '' '') of Some j \<Rightarrow> take j rest | None \<Rightarrow> rest)"

definition hap_atoi :: "string \<Rightarrow> int" where
  "hap_atoi s =
     (case Atoi (TrimSpace s) of
        Some n \<Rightarrow> n
      | None \<Rightarrow>
          \<comment> \<open>strconv.Atoi returns the clamped value with its range error, else zero\<close>
          (let t = TrimSpace s; neg = HasPrefix t ''-''; d = (if neg \<or> HasPrefix t ''+'' then tl t else t)
           in if d \<noteq> [] \<and> list_all isDigit d then (if neg then minInt64 else maxInt64) else 0))"

definition connRate :: "string \<Rightarrow> int" where
  "connRate line =
     (case Index line ''conn_rate('' of
        None \<Rightarrow> 0
      | Some i \<Rightarrow>
          let rest = drop i line
          in case IndexByte rest (CHR ''='') of
               None \<Rightarrow> 0
             | Some eq \<Rightarrow>
                 let v = drop (eq + 1) rest
                 in hap_atoi (case IndexByte v (CHR '' '') of Some j \<Rightarrow> take j v | None \<Rightarrow> v))"

definition scanMax :: nat where "scanMax = 1048576"

text \<open>
  The lines a \<^verbatim>\<open>bufio.Scanner\<close> yields: split at newlines, a trailing carriage return dropped, no empty
  last line, and nothing more once a line does not fit the buffer.
\<close>

definition dropCR :: "string \<Rightarrow> string" where
  "dropCR s = TrimSuffix s [CR]"

fun scanLines :: "nat \<Rightarrow> string list \<Rightarrow> string list" where
  "scanLines m [] = []"
| "scanLines m [w] = (if w = [] \<or> length w \<ge> m then [] else [dropCR w])"
| "scanLines m (w # v # ws) = (if length w \<ge> m then [] else dropCR w # scanLines m (v # ws))"

definition stickLine :: "string \<Rightarrow> Source option" where
  "stickLine raw =
     (let line = TrimSpace raw
      in if line = [] \<or> HasPrefix line ''#'' then None
         else let key = field line ''key=''
              in if key = [] then None
                 else Some \<lparr>IP = key, ConnCur = hap_atoi (field line ''conn_cur=''), ConnRate = connRate line\<rparr>)"

definition ParseStickTable :: "string \<Rightarrow> Source list" where
  "ParseStickTable r = List.map_filter stickLine (scanLines scanMax (splitByte LF r))"

section \<open>watch.go\<close>

record Watcher =
  threshold :: int
  cooldown :: int
  last_seen :: "(string, int) gomap"

definition NewWatcher :: "int \<Rightarrow> int \<Rightarrow> Watcher" where
  "NewWatcher thr cool = \<lparr>threshold = thr, cooldown = cool, last_seen = []\<rparr>"

text \<open>The first loop of \<open>Flooding\<close>: the sources over the threshold, the due reports, the new times.\<close>

fun floodLoop ::
  "Watcher \<Rightarrow> int \<Rightarrow> Source list \<Rightarrow> string list \<Rightarrow> (string, int) gomap \<Rightarrow> Source list \<Rightarrow>
   string list \<times> (string, int) gomap \<times> Source list" where
  "floodLoop w now [] over seen due = (over, seen, due)"
| "floodLoop w now (s # ss) over seen due =
     (if ConnRate s < threshold w then floodLoop w now ss over seen due
      else
        let over = IP s # over
        in if (case mget seen (IP s) of Some t \<Rightarrow> now - t < cooldown w | None \<Rightarrow> False)
           then floodLoop w now ss over seen due
           else floodLoop w now ss over (mput (IP s) now seen) (due @ [s]))"

definition Flooding :: "Watcher \<Rightarrow> Source list \<Rightarrow> int \<Rightarrow> Source list \<times> Watcher" where
  "Flooding w srcs now =
     (case floodLoop w now srcs [] (last_seen w) [] of
        (over, seen, due) \<Rightarrow>
          (due, w\<lparr>last_seen := filter (\<lambda>kt. fst kt \<in> set over) seen\<rparr>))"

section \<open>The watcher\<close>

definition overIPs :: "Watcher \<Rightarrow> Source list \<Rightarrow> string set" where
  "overIPs w srcs = {IP s | s. s \<in> set srcs \<and> threshold w \<le> ConnRate s}"

lemma floodLoop_over:
  "floodLoop w now ss over seen due = (over', seen', due') \<Longrightarrow> set over' = set over \<union> overIPs w ss"
proof (induction ss arbitrary: over seen due)
  case Nil
  then show ?case by (simp add: overIPs_def)
next
  case (Cons s ss)
  have ov: "overIPs w (s # ss) = (if ConnRate s < threshold w then {} else {IP s}) \<union> overIPs w ss"
    by (auto simp: overIPs_def)
  show ?case
    using Cons.prems Cons.IH unfolding ov by (fastforce simp: Let_def split: if_splits option.splits)
qed

text \<open>A source already reported within the cooldown is not due, and its time is kept.\<close>

lemma floodLoop_quiet:
  "floodLoop w now ss over seen due = (over', seen', due') \<Longrightarrow> mget seen ip = Some t \<Longrightarrow> now - t < cooldown w \<Longrightarrow>
     mget seen' ip = Some t \<and> (\<forall>s\<in>set due'. IP s = ip \<longrightarrow> s \<in> set due)"
proof (induction ss arbitrary: over seen due)
  case (Cons s ss)
  show ?case
  proof (cases "ConnRate s < threshold w \<or> (case mget seen (IP s) of Some t \<Rightarrow> now - t < cooldown w | None \<Rightarrow> False)")
    case True
    then have "\<exists>ov. floodLoop w now ss ov seen due = (over', seen', due')"
      using Cons.prems(1) by (auto simp: Let_def split: if_splits)
    then show ?thesis using Cons.IH Cons.prems by blast
  next
    case False
    then have "floodLoop w now ss (IP s # over) (mput (IP s) now seen) (due @ [s]) = (over', seen', due')"
      using Cons.prems(1) by (simp add: Let_def)
    moreover have ne: "IP s \<noteq> ip" using False Cons.prems(2,3) by auto
    moreover have "mget (mput (IP s) now seen) ip = Some t" using ne Cons.prems(2) by auto
    ultimately show ?thesis using Cons.IH Cons.prems(3) by fastforce
  qed
qed simp

text \<open>One step of the loop, as a case distinction.\<close>

lemma floodLoop_cases:
  assumes "floodLoop w now (s # ss) over seen due = r"
  obtains (skip) "ConnRate s < threshold w" "floodLoop w now ss over seen due = r"
  | (quiet) t where "threshold w \<le> ConnRate s" "mget seen (IP s) = Some t" "now - t < cooldown w"
      "floodLoop w now ss (IP s # over) seen due = r"
  | (report) "threshold w \<le> ConnRate s" "\<And>t. mget seen (IP s) = Some t \<Longrightarrow> cooldown w \<le> now - t"
      "floodLoop w now ss (IP s # over) (mput (IP s) now seen) (due @ [s]) = r"
  using assms by (auto simp: Let_def not_less split: if_splits option.splits)

lemma floodLoop_grows:
  "floodLoop w now ss over seen due = (over', seen', due') \<Longrightarrow>
     set due \<subseteq> set due' \<and> (mget seen ip \<noteq> None \<longrightarrow> mget seen' ip \<noteq> None)"
proof (induction ss arbitrary: over seen due)
  case (Cons s ss)
  from Cons.prems show ?case
    by (cases rule: floodLoop_cases) (use Cons.IH in \<open>fastforce split: if_splits\<close>)+
qed simp

lemma floodLoop_tracks:
  "floodLoop w now ss over seen due = (over', seen', due') \<Longrightarrow> ip \<in> overIPs w ss \<Longrightarrow> mget seen' ip \<noteq> None"
proof (induction ss arbitrary: over seen due)
  case (Cons s ss)
  have ov: "ip \<in> overIPs w (s # ss) \<longleftrightarrow> (threshold w \<le> ConnRate s \<and> ip = IP s) \<or> ip \<in> overIPs w ss"
    by (auto simp: overIPs_def)
  from Cons.prems(1) show ?case
  proof (cases rule: floodLoop_cases)
    case skip
    then show ?thesis using Cons.IH Cons.prems ov by auto
  next
    case (quiet t)
    then show ?thesis using Cons.IH [OF quiet(4)] floodLoop_grows [OF quiet(4), of ip] Cons.prems(2) ov by auto
  next
    case report
    then show ?thesis using Cons.IH [OF report(3)] floodLoop_grows [OF report(3), of ip] Cons.prems(2) ov by auto
  qed
qed (simp add: overIPs_def)

lemma floodLoop_reports:
  "floodLoop w now ss over seen due = (over', seen', due') \<Longrightarrow> 0 < cooldown w \<Longrightarrow>
     d \<in> set due' \<Longrightarrow> d \<notin> set due \<Longrightarrow>
     d \<in> set ss \<and> threshold w \<le> ConnRate d \<and> mget seen' (IP d) = Some now"
proof (induction ss arbitrary: over seen due)
  case (Cons s ss)
  from Cons.prems(1) show ?case
  proof (cases rule: floodLoop_cases)
    case report
    have "mget seen' (IP s) = Some now"
      using floodLoop_quiet [OF report(3), of "IP s" now] Cons.prems(2) by simp
    then show ?thesis using Cons.IH [OF report(3)] Cons.prems report(1) by (cases "d = s") auto
  qed (use Cons in auto)
qed simp

lemma floodLoop_fresh:
  "floodLoop w now ss over seen due = (over', seen', due') \<Longrightarrow> ip \<in> overIPs w ss \<Longrightarrow> mget seen ip = None \<Longrightarrow>
     \<exists>d\<in>set due'. IP d = ip"
proof (induction ss arbitrary: over seen due)
  case (Cons s ss)
  have ov: "ip \<in> overIPs w (s # ss) \<longleftrightarrow> (threshold w \<le> ConnRate s \<and> ip = IP s) \<or> ip \<in> overIPs w ss"
    by (auto simp: overIPs_def)
  from Cons.prems(1) show ?case
  proof (cases rule: floodLoop_cases)
    case report
    have "s \<in> set due'" using floodLoop_grows [OF report(3)] by auto
    then show ?thesis using Cons.IH [OF report(3)] Cons.prems(2,3) ov by (cases "ip = IP s") auto
  qed (use Cons ov in auto)
qed (simp add: overIPs_def)

lemma Flooding_loop:
  assumes "Flooding w srcs now = (due, w')"
  obtains over seen where "floodLoop w now srcs [] (last_seen w) [] = (over, seen, due)"
    "w' = w\<lparr>last_seen := filter (\<lambda>kt. fst kt \<in> set over) seen\<rparr>" "set over = overIPs w srcs"
proof -
  obtain over seen d where l: "floodLoop w now srcs [] (last_seen w) [] = (over, seen, d)"
    by (metis prod_cases3)
  with floodLoop_over [OF l] assms that show thesis by (simp add: Flooding_def)
qed

lemma mget_filter_key: "mget (filter (\<lambda>kt. P (fst kt)) m) k = (if P k then mget m k else None)"
  by (induction m) auto

lemma Flooding_seen:
  assumes "Flooding w srcs now = (due, w')" "0 < cooldown w" "d \<in> set due"
  shows "mget (last_seen w') (IP d) = Some now \<and> IP d \<in> overIPs w srcs \<and> d \<in> set srcs"
  using assms(1)
proof (rule Flooding_loop)
  fix over seen
  assume l: "floodLoop w now srcs [] (last_seen w) [] = (over, seen, due)"
    and w': "w' = w\<lparr>last_seen := filter (\<lambda>kt. fst kt \<in> set over) seen\<rparr>" and o: "set over = overIPs w srcs"
  have r: "d \<in> set srcs" "threshold w \<le> ConnRate d" "mget seen (IP d) = Some now"
    using floodLoop_reports [OF l assms(2,3)] by auto
  then have "IP d \<in> overIPs w srcs" by (auto simp: overIPs_def)
  then show ?thesis using r o w' mget_filter_key [of "\<lambda>k. k \<in> set over" seen "IP d"] by simp
qed



end
