(* ===== verification/PortalFeed.thy ===== *)
theory PortalFeed
  imports PortalAnalyze HAProxy
begin

text \<open>
  The portal's reading of the event log (\<^verbatim>\<open>internal/portal/feed.go\<close>): the scan of the whole file behind
  every page, the queries by address and by session, and the live feed, which follows the file while the
  listeners append to it and resumes a dropped subscriber at the byte its browser last acknowledged.
  The log file is its text (\<open>None\<close> when it cannot be opened) and the JSON decoder is the parameter
  \<open>unmarshal\<close>.
  Shown: what the logger wrote is what the portal reads, a reading of the log is the newest entries first,
  and a subscriber receives every complete line of the log exactly once, in order, over all its
  connections.
\<close>

section \<open>Reading the log\<close>

definition defaultLimit :: int where "defaultLimit = 200"
definition maxLimit :: int where "maxLimit = 1000"

definition srcOf :: "Entry \<Rightarrow> string" where
  "srcOf e = (if e_SrcIP e \<noteq> [] then e_SrcIP e else HostOnly (e_IP e))"

text \<open>
  The scan of the file with a buffer of at most 4 MiB: a line that fills the buffer ends it with an error, the
  second component of a reading.
\<close>

definition maxLine :: nat where "maxLine = 4194304"

fun decodeLines :: "(string \<Rightarrow> Entry option) \<Rightarrow> (Entry \<Rightarrow> bool) \<Rightarrow> string list \<Rightarrow> Entry list" where
  "decodeLines unmarshal keep [] = []"
| "decodeLines unmarshal keep (l # ls) =
    (if l = [] then decodeLines unmarshal keep ls
     else case unmarshal l of
       None \<Rightarrow> decodeLines unmarshal keep ls
     | Some e \<Rightarrow> (if keep e then e # decodeLines unmarshal keep ls else decodeLines unmarshal keep ls))"

definition readEntries :: "(string \<Rightarrow> Entry option) \<Rightarrow> string option \<Rightarrow> (Entry \<Rightarrow> bool) \<Rightarrow> Entry list \<times> bool" where
  "readEntries unmarshal logFile keep =
    (case logFile of
       None \<Rightarrow> ([], True)
     | Some text \<Rightarrow>
         let pieces = splitByte LF text
         in (decodeLines unmarshal keep (scanLines maxLine pieces), list_ex (\<lambda>w. maxLine \<le> length w) pieces))"

definition parseLimit :: "string \<Rightarrow> int" where
  "parseLimit s =
    (if s = [] then defaultLimit
     else case Atoi s of
       None \<Rightarrow> defaultLimit
     | Some n \<Rightarrow> (if n \<le> 0 then defaultLimit else if n > maxLimit then maxLimit else n))"

record log_query =
  q_limit :: string
  q_ip :: string
  q_event :: string

definition logQuery :: "(string \<Rightarrow> Entry option) \<Rightarrow> string option \<Rightarrow> log_query \<Rightarrow> Entry list" where
  "logQuery unmarshal logFile q =
    (let limit = parseLimit (q_limit q);
         (entries, err) = readEntries unmarshal logFile (\<lambda>e.
           \<not> (q_ip q \<noteq> [] \<and> \<not> HasPrefix (srcOf e) (q_ip q)) \<and> \<not> (q_event q \<noteq> [] \<and> e_Event e \<noteq> q_event q))
     in if err then [] else take (nat limit) (rev entries))"

definition attributed :: "string \<Rightarrow> Entry \<Rightarrow> bool" where
  "attributed ip e = (srcOf e = ip \<or> e_IP e = ip \<or> e_SrcIP e = ip)"

record ip_page =
  ipp_entries :: "Entry list"
  ipp_count :: nat
  ipp_profile :: Assessment

definition byIP :: "(string \<Rightarrow> int option) \<Rightarrow> (string \<Rightarrow> Entry option) \<Rightarrow> string option \<Rightarrow> string \<Rightarrow> ip_page" where
  "byIP rfc unmarshal logFile ip =
    (let (entries, err) = readEntries unmarshal logFile (attributed ip); entries = (if err then [] else entries)
     in \<lparr>ipp_entries = entries, ipp_count = length entries, ipp_profile = analyzeSource rfc entries\<rparr>)"

definition bySession :: "(string \<Rightarrow> Entry option) \<Rightarrow> string option \<Rightarrow> string \<Rightarrow> Entry list" where
  "bySession unmarshal logFile sid =
    (let (entries, err) = readEntries unmarshal logFile (\<lambda>e. e_Session e = sid) in if err then [] else entries)"

section \<open>The live feed\<close>

text \<open>What is written to a subscriber: an event with its resumable offset, or a keep-alive comment.\<close>

datatype sseWire = Frame int string | Ping

fun wireText :: "sseWire \<Rightarrow> string" where
  "wireText (Frame offset line) =
     ''id: '' @ Itoa offset @ [LF] @ ''event: log'' @ [LF] @ ''data: '' @ line @ [LF, LF]"
| "wireText Ping = '': ping'' @ [LF, LF]"

text \<open>
  One subscriber's stream.  \<open>t_room\<close> is how many writes its connection still takes: the first write after
  those fails and ends the handler (\<open>t_gone\<close>).
\<close>

record tail =
  t_offset :: int
  t_partial :: string
  t_idle :: nat
  t_room :: nat
  t_out :: "sseWire list"
  t_gone :: bool

definition idlePingEvery :: nat where "idlePingEvery = 20"
definition maxConcurrentSSE :: nat where "maxConcurrentSSE = 64"

definition sseWrite :: "sseWire \<Rightarrow> tail \<Rightarrow> tail" where
  "sseWrite w t =
    (if t_room t = 0 then t\<lparr>t_gone := True\<rparr> else t\<lparr>t_room := t_room t - 1, t_out := t_out t @ [w]\<rparr>)"

text \<open>
  The inner loop of a tick.  The bytes not read so far come in chunks: each but the last ends at a newline,
  and the last, which may be empty, ends at the end of the file.
\<close>

definition emitLine :: "string \<Rightarrow> tail \<Rightarrow> tail \<times> bool" where
  "emitLine chunk t =
    (let raw = t_partial t @ chunk @ [LF];
         offset = wrap64 (t_offset t + int (length raw));
         t = t\<lparr>t_offset := offset, t_partial := []\<rparr>;
         line = TrimRight raw [CR, LF]
     in if line = [] then (t, False) else (sseWrite (Frame offset line) t, True))"

fun tickLoop :: "string list \<Rightarrow> bool \<Rightarrow> tail \<Rightarrow> tail \<times> bool" where
  "tickLoop [] wrote t = (t, wrote)"
| "tickLoop [chunk] wrote t = (t\<lparr>t_partial := t_partial t @ chunk\<rparr>, wrote)"
| "tickLoop (chunk # chunks) wrote t =
    (let (t, w) = emitLine chunk t in if t_gone t then (t, wrote) else tickLoop chunks (wrote \<or> w) t)"

definition sseTick :: "string \<Rightarrow> tail \<Rightarrow> tail" where
  "sseTick unread t =
    (let (t, wrote) = tickLoop (splitByte LF unread) False t
     in if t_gone t then t
        else if wrote then t\<lparr>t_idle := 0\<rparr>
        else if t_idle t + 1 \<ge> idlePingEvery then sseWrite Ping (t\<lparr>t_idle := 0\<rparr>)
        else t\<lparr>t_idle := t_idle t + 1\<rparr>)"

text \<open>The ticks until the subscriber leaves, each with the bytes appended to the log since the one before.\<close>

fun sseTicks :: "string list \<Rightarrow> tail \<Rightarrow> tail" where
  "sseTicks [] t = t"
| "sseTicks (u # us) t = (if t_gone t then t else sseTicks us (sseTick u t))"

definition startOffset :: "bool \<Rightarrow> string \<Rightarrow> string \<Rightarrow> int" where
  "startOffset seekOk log lastID =
    (let eof = int (length log)
     in if lastID \<noteq> [] then
          (case Atoi lastID of
             Some n \<Rightarrow> (if 0 \<le> n \<and> n \<le> eof \<and> seekOk then n else eof)
           | None \<Rightarrow> eof)
        else eof)"

text \<open>
  A request for the feed: how many subscribers hold the gate, whether the writer can flush, the log when it is
  opened, whether each of the two seeks succeeds, the header the browser sends, the bytes appended before each
  tick and the writes its connection takes.  A refusal is the status and the body.
\<close>

record sse_request =
  sr_held :: nat
  sr_flusher :: bool
  sr_log :: "string option"
  sr_seekEnd :: bool
  sr_seekStart :: bool
  sr_lastEventID :: string
  sr_appended :: "string list"
  sr_room :: nat

definition feedTicks :: "int \<Rightarrow> string \<Rightarrow> string list \<Rightarrow> string list" where
  "feedTicks offset log us = (case us of [] \<Rightarrow> [] | u # us' \<Rightarrow> (drop (nat offset) log @ u) # us')"

definition newTail :: "int \<Rightarrow> nat \<Rightarrow> tail" where
  "newTail offset room =
    \<lparr>t_offset = offset, t_partial = [], t_idle = 0, t_room = room, t_out = [], t_gone = False\<rparr>"

definition events :: "sse_request \<Rightarrow> (nat \<times> string) + sseWire list" where
  "events r =
    (if sr_held r \<ge> maxConcurrentSSE then Err (503, ''too many event streams'')
     else if \<not> sr_flusher r then Err (500, ''streaming unsupported'')
     else case sr_log r of
       None \<Rightarrow> Err (500, ''log unavailable'')
     | Some log \<Rightarrow>
         if \<not> sr_seekEnd r then Err (500, ''log unavailable'')
         else let offset = startOffset (sr_seekStart r) log (sr_lastEventID r)
              in Ok (t_out (sseTicks (feedTicks offset log (sr_appended r)) (newTail offset (sr_room r)))))"

section \<open>The portal reads what the logger wrote\<close>

lemma dropCR_last: "d = [] \<or> last d \<noteq> CR \<Longrightarrow> dropCR d = d"
  by (cases d rule: rev_cases) (auto simp: dropCR_def TrimSuffix_def HasSuffix_def)

lemma scan_logged:
  "\<forall>d\<in>set ds. length d < maxLine \<and> (d \<noteq> [] \<longrightarrow> last d \<noteq> CR) \<Longrightarrow>
   scanLines maxLine (ds @ [[]]) = ds \<and> \<not> list_ex (\<lambda>w. maxLine \<le> length w) (ds @ [[]])"
proof (induction ds)
  case (Cons d ds)
  obtain x xs where xs: "ds @ [[]] = x # xs" by (cases "ds @ [[]]") simp_all
  have "dropCR d = d" using Cons.prems by (intro dropCR_last) auto
  then have "scanLines maxLine (d # x # xs) = d # ds" using Cons xs by auto
  then show ?case using Cons xs by (auto simp: not_le)
qed (simp add: maxLine_def)

lemma decode_logged:
  "list_all2 (\<lambda>d e. d \<noteq> [] \<and> unmarshal d = Some e) ds es \<Longrightarrow> decodeLines unmarshal keep ds = filter keep es"
  by (induction ds es rule: list_all2_induct) auto

lemma parseLimit_range: "0 < parseLimit s \<and> parseLimit s \<le> maxLimit"
  by (auto simp: parseLimit_def defaultLimit_def maxLimit_def split: option.splits)


text \<open>The events whose write succeeded, as they were stamped.\<close>

fun loggedEntries :: "(int \<Rightarrow> string) \<Rightarrow> Logger \<Rightarrow> log_call list \<Rightarrow> Entry list" where
  "loggedEntries durString l [] = []"
| "loggedEntries durString l ((e, ok, t, ms) # cs) =
    (if ok then [stamp durString t ms l e] else []) @ loggedEntries durString l cs"

lemma stamp_sensor: "sensor l = sensor l' \<Longrightarrow> stamp durString t ms l e = stamp durString t ms l' e"
  by (simp only: stamp_def)

lemma loggedEntries_sensor: "sensor l = sensor l' \<Longrightarrow> loggedEntries durString l cs = loggedEntries durString l' cs"
proof (induction durString l cs rule: loggedEntries.induct)
  case (2 durString l e ok t ms cs)
  then show ?case using stamp_sensor [OF 2(2), of durString t ms e] by (simp only: loggedEntries.simps)
qed simp

lemma logged_lines_entries:
  assumes "\<And>e. marshal e \<noteq> None"
  shows "list_all2 (\<lambda>d e. marshal e = Some d) (loggedLines durString marshal cs l) (loggedEntries durString l cs)"
proof (induction cs arbitrary: l)
  case (Cons c cs)
  obtain e ok t ms where c: "c = (e, ok, t, ms)" by (metis prod_cases4)
  obtain d where d: "marshal (stamp durString t ms l e) = Some d" using assms by blast
  have "loggedEntries durString (logStep durString marshal c l) cs = loggedEntries durString l cs"
    by (rule loggedEntries_sensor) simp
  then show ?case using Cons [of "logStep durString marshal c l"] d by (cases ok) (simp_all add: c)
qed simp


definition demoCalls :: "log_call list" where
  "demoCalls = [(emptyEntry\<lparr>e_Event := ''COMMAND'', e_Command := ''id''\<rparr>, True, ''t1'', 5),
     (emptyEntry\<lparr>e_Event := ''COMMAND'', e_Command := ''ls''\<rparr>, False, ''t2'', 6)]"



section \<open>Exactly once\<close>

text \<open>
  The reference: the lines of the log from byte \<open>n\<close> on that are complete, each event carrying the offset just
  past its line.  An empty line is no event.
\<close>

fun framesAt :: "int \<Rightarrow> string list \<Rightarrow> sseWire list" where
  "framesAt n [] = []"
| "framesAt n (l # ls) =
    (let n' = n + int (length l) + 1; line = TrimRight (l @ [LF]) [CR, LF]
     in (if line = [] then [] else [Frame n' line]) @ framesAt n' ls)"

definition completeLines :: "string \<Rightarrow> string list" where
  "completeLines text = butlast (splitByte LF text)"

definition feedFrom :: "int \<Rightarrow> string \<Rightarrow> sseWire list" where
  "feedFrom n log = framesAt n (completeLines (drop (nat n) log))"

definition linesLen :: "string list \<Rightarrow> int" where
  "linesLen ls = (\<Sum>l\<leftarrow>ls. int (length l) + 1)"

lemma linesLen_simps [simp]:
  "linesLen [] = 0" "linesLen (l # ls) = int (length l) + 1 + linesLen ls" "linesLen (ls @ ks) = linesLen ls + linesLen ks"
  by (simp_all add: linesLen_def)

lemma linesLen_nonneg [simp]: "0 \<le> linesLen ls"
  by (induction ls) simp_all

lemma framesAt_append: "framesAt n (ls @ ks) = framesAt n ls @ framesAt (n + linesLen ls) ks"
  by (induction ls arbitrary: n) (simp_all add: Let_def algebra_simps)

lemma split_text: obtains ls r where "body = concat (map (\<lambda>l. l @ [LF]) ls) @ r" "splitByte LF body = ls @ [r]"
  "\<forall>l\<in>set ls. LF \<notin> set l" "LF \<notin> set r"
proof -
  obtain ls r where lr: "splitByte LF body = ls @ [r]" by (metis splitByte_not_Nil rev_exhaust)
  have "joinByte LF (ls @ [r]) = concat (map (\<lambda>l. l @ [LF]) ls) @ r"
    by (induction ls) (simp_all add: joinByte_Cons)
  then have "body = concat (map (\<lambda>l. l @ [LF]) ls) @ r" using lr join_splitByte [of LF body] by metis
  moreover have "\<forall>l\<in>set (ls @ [r]). LF \<notin> set l" using splitByte_parts [of _ LF body] lr by metis
  ultimately show ?thesis using lr that by auto
qed

lemma split_lines_rest:
  "\<forall>l\<in>set ls. LF \<notin> set l \<Longrightarrow> splitByte LF (concat (map (\<lambda>l. l @ [LF]) ls) @ r) = ls @ splitByte LF r"
  by (induction ls) (simp_all add: splitByte_append)

lemma length_lines: "int (length (concat (map (\<lambda>l. l @ [LF]) ls))) = linesLen ls"
  by (induction ls) simp_all

lemma split_partial: "LF \<notin> set p \<Longrightarrow> splitByte LF u = c # cs \<Longrightarrow> splitByte LF (p @ u) = (p @ c) # cs"
  by (induction p arbitrary: c cs) auto

text \<open>One tick, seen from the lines of what is unread together with the carried fragment.\<close>

lemma tickLoop_lines:
  assumes "t_offset t + linesLen (butlast ((t_partial t @ c) # cs)) \<le> maxInt64" "0 \<le> t_offset t" "\<not> t_gone t"
  shows "let F = framesAt (t_offset t) (butlast ((t_partial t @ c) # cs)); t' = fst (tickLoop (c # cs) wrote t)
    in (length F \<le> t_room t \<longrightarrow>
          t' = t\<lparr>t_offset := t_offset t + linesLen (butlast ((t_partial t @ c) # cs)),
                 t_partial := last ((t_partial t @ c) # cs), t_room := t_room t - length F, t_out := t_out t @ F\<rparr>) \<and>
       (t_room t < length F \<longrightarrow> t_gone t' \<and> t_out t' = t_out t @ take (t_room t) F)"
  using assms
proof (induction cs arbitrary: c wrote t)
  case (Cons d ds)
  define off where "off = t_offset t + int (length (t_partial t @ c)) + 1"
  define line where "line = TrimRight ((t_partial t @ c) @ [LF]) [CR, LF]"
  define F where "F = framesAt off (butlast (d # ds))"
  have len: "linesLen (butlast ((t_partial t @ c) # d # ds)) = int (length (t_partial t @ c)) + 1 + linesLen (butlast (d # ds))"
    by simp
  have le: "off + linesLen (butlast (d # ds)) \<le> maxInt64" "0 \<le> off" using Cons.prems len by (simp_all add: off_def)
  have "minInt64 \<le> 0" by (simp add: minInt64_def)
  then have w: "wrap64 off = off" using le linesLen_nonneg [of "butlast (d # ds)"] by (intro wrap64_id) linarith+
  have emit: "emitLine c t = (if line = [] then (t\<lparr>t_offset := off, t_partial := []\<rparr>, False)
      else (sseWrite (Frame off line) (t\<lparr>t_offset := off, t_partial := []\<rparr>), True))"
    using w by (simp add: emitLine_def Let_def off_def line_def algebra_simps)
  have FF: "framesAt (t_offset t) (butlast ((t_partial t @ c) # d # ds)) = (if line = [] then [] else [Frame off line]) @ F"
    by (simp add: Let_def off_def line_def F_def)
  show ?case
  proof (cases "line = []")
    case True
    show ?thesis
      using Cons.IH [of "t\<lparr>t_offset := off, t_partial := []\<rparr>" d "wrote"] True le Cons.prems(3)
      unfolding FF by (simp add: emit Let_def F_def len off_def algebra_simps)
  next
    case False
    show ?thesis
    proof (cases "t_room t")
      case 0
      then show ?thesis unfolding FF using False by (simp add: emit Let_def sseWrite_def)
    next
      case (Suc m)
      let ?t = "t\<lparr>t_offset := off, t_partial := [], t_room := m, t_out := t_out t @ [Frame off line]\<rparr>"
      have step: "tickLoop (c # d # ds) wrote t = tickLoop (d # ds) True ?t"
        using False Suc Cons.prems(3) by (simp add: emit sseWrite_def)
      show ?thesis
        using Cons.IH [of ?t d True] False Suc le Cons.prems(3)
        unfolding FF step by (simp add: Let_def F_def len off_def algebra_simps)
    qed
  qed
qed (simp add: Let_def)


fun isFrame :: "sseWire \<Rightarrow> bool" where
  "isFrame (Frame _ _) = True"
| "isFrame Ping = False"

lemma framesAt_frames [simp]: "filter isFrame (framesAt n ls) = framesAt n ls"
  by (induction n ls rule: framesAt.induct) (simp_all add: Let_def)

lemma isFrame_take [simp]: "filter isFrame (take k (framesAt n ls)) = take k (framesAt n ls)"
proof -
  have "\<forall>w\<in>set (framesAt n ls). isFrame w"
    by (induction n ls rule: framesAt.induct) (auto simp: Let_def)
  then show ?thesis by (auto simp: filter_id_conv dest: in_set_takeD)
qed

text \<open>What the stream has delivered, and what the part of the log it has read contains.\<close>

lemma sseTick_delivers:
  assumes "\<not> t_gone t" "LF \<notin> set (t_partial t)" "0 \<le> t_offset t"
    and "t_offset t + int (length (t_partial t @ u)) \<le> maxInt64"
  shows "let F = framesAt (t_offset t) (completeLines (t_partial t @ u)); t' = sseTick u t in
    (\<exists>k. filter isFrame (t_out t') = filter isFrame (t_out t) @ take k F) \<and>
    (\<not> t_gone t' \<longrightarrow> filter isFrame (t_out t') = filter isFrame (t_out t) @ F \<and>
       t_offset t' = t_offset t + linesLen (completeLines (t_partial t @ u)) \<and>
       t_partial t' = last (splitByte LF (t_partial t @ u))) \<and>
    (length F < t_room t \<longrightarrow> \<not> t_gone t' \<and> t_room t \<le> t_room t' + length F + 1)"
proof -
  obtain c cs where c: "splitByte LF u = c # cs" by (metis splitByte_not_Nil neq_Nil_conv)
  have sp: "splitByte LF (t_partial t @ u) = (t_partial t @ c) # cs" using assms(2) c by (rule split_partial)
  define B where "B = t_partial t @ u"
  obtain ls r where lr: "B = concat (map (\<lambda>l. l @ [LF]) ls) @ r" "splitByte LF B = ls @ [r]" by (rule split_text)
  have ls: "butlast ((t_partial t @ c) # cs) = ls" "last ((t_partial t @ c) # cs) = r" "completeLines B = ls" "last (splitByte LF B) = r"
    using lr sp by (simp_all add: B_def completeLines_def flip: sp)
  have "linesLen ls \<le> int (length B)" using length_lines [of ls] lr(1) by simp
  then have bound: "t_offset t + linesLen ls \<le> maxInt64" using assms(4) by (simp add: B_def)
  define F where "F = framesAt (t_offset t) ls"
  obtain t1 wrote where t1: "tickLoop (splitByte LF u) False t = (t1, wrote)" by (metis surj_pair)
  have loop: "length F \<le> t_room t \<longrightarrow> t1 = t\<lparr>t_offset := t_offset t + linesLen ls, t_partial := r,
        t_room := t_room t - length F, t_out := t_out t @ F\<rparr>"
      "t_room t < length F \<longrightarrow> t_gone t1 \<and> t_out t1 = t_out t @ take (t_room t) F"
    using tickLoop_lines [of t c cs False, unfolded ls(1,2), OF bound assms(3,1)] t1 by (simp_all add: c F_def Let_def)
  have fr: "filter isFrame (take k F) = take k F" "filter isFrame F = F" for k by (simp_all add: F_def)
  show ?thesis
  proof (cases "length F \<le> t_room t")
    case True
    then have t: "t1 = t\<lparr>t_offset := t_offset t + linesLen ls, t_partial := r,
        t_room := t_room t - length F, t_out := t_out t @ F\<rparr>" using loop by blast
    have tick: "sseTick u t = (if wrote then t1\<lparr>t_idle := 0\<rparr>
        else if t_idle t1 + 1 \<ge> idlePingEvery then sseWrite Ping (t1\<lparr>t_idle := 0\<rparr>) else t1\<lparr>t_idle := t_idle t1 + 1\<rparr>)"
      using t1 t assms(1) by (simp add: sseTick_def)
    have out: "filter isFrame (t_out (sseTick u t)) = filter isFrame (t_out t) @ F"
      "t_offset (sseTick u t) = t_offset t + linesLen ls" "t_partial (sseTick u t) = r"
      "length F < t_room t \<longrightarrow> \<not> t_gone (sseTick u t) \<and> t_room t \<le> t_room (sseTick u t) + length F + 1"
      using t assms(1) by (auto simp: tick sseWrite_def fr)
    show ?thesis using out by (auto simp: Let_def ls F_def [symmetric] simp flip: B_def intro: exI [of _ "length F"])
  next
    case False
    then have "sseTick u t = t1" "t_gone t1" "t_out t1 = t_out t @ take (t_room t) F" using t1 loop by (auto simp: sseTick_def)
    then show ?thesis using False by (auto simp: Let_def ls fr F_def [symmetric] simp flip: B_def)
  qed
qed

lemma completeLines_append:
  "completeLines (B @ X) = completeLines B @ completeLines (last (splitByte LF B) @ X)"
  "int (length B) = linesLen (completeLines B) + int (length (last (splitByte LF B)))"
  "LF \<notin> set (last (splitByte LF B))"
proof -
  obtain ls r where lr: "B = concat (map (\<lambda>l. l @ [LF]) ls) @ r" "splitByte LF B = ls @ [r]"
    "\<forall>l\<in>set ls. LF \<notin> set l" "LF \<notin> set r" by (rule split_text)
  have "splitByte LF (B @ X) = ls @ splitByte LF (r @ X)" using split_lines_rest [OF lr(3), of "r @ X"] lr(1) by simp
  then show "completeLines (B @ X) = completeLines B @ completeLines (last (splitByte LF B) @ X)"
    using lr(2) by (simp add: completeLines_def butlast_append)
  show "int (length B) = linesLen (completeLines B) + int (length (last (splitByte LF B)))"
    using lr(1,2) length_lines [of ls] by (simp add: completeLines_def)
  show "LF \<notin> set (last (splitByte LF B))" using lr by simp
qed

lemma sseTicks_deliver:
  assumes "\<not> t_gone t" "LF \<notin> set (t_partial t)" "0 \<le> t_offset t"
    and "t_offset t + int (length (t_partial t @ concat us)) \<le> maxInt64"
  shows "let F = framesAt (t_offset t) (completeLines (t_partial t @ concat us)); out = t_out (sseTicks us t) in
    (\<exists>k. filter isFrame out = filter isFrame (t_out t) @ take k F) \<and>
    (length F + length us \<le> t_room t \<longrightarrow> filter isFrame out = filter isFrame (t_out t) @ F)"
  using assms
proof (induction us arbitrary: t)
  case Nil
  then have "completeLines (t_partial t) = []" by (simp add: completeLines_def splitByte_no_sep)
  then show ?case by (simp add: Let_def)
next
  case (Cons u us)
  define B where "B = t_partial t @ u"
  define F1 where "F1 = framesAt (t_offset t) (completeLines B)"
  define t' where "t' = sseTick u t"
  define F2 where "F2 = framesAt (t_offset t + linesLen (completeLines B)) (completeLines (last (splitByte LF B) @ concat us))"
  have F: "framesAt (t_offset t) (completeLines (t_partial t @ concat (u # us))) = F1 @ F2"
    using completeLines_append(1) [of B "concat us"] by (simp add: B_def F1_def F2_def framesAt_append)
  have step: "sseTicks (u # us) t = sseTicks us t'" using Cons.prems(1) by (simp add: t'_def)
  have len: "t_offset t + int (length B) \<le> maxInt64" using Cons.prems(4) by (simp add: B_def)
  have tick: "\<exists>k. filter isFrame (t_out t') = filter isFrame (t_out t) @ take k F1"
    "\<not> t_gone t' \<longrightarrow> filter isFrame (t_out t') = filter isFrame (t_out t) @ F1 \<and>
       t_offset t' = t_offset t + linesLen (completeLines B) \<and> t_partial t' = last (splitByte LF B)"
    "length F1 < t_room t \<longrightarrow> \<not> t_gone t' \<and> t_room t \<le> t_room t' + length F1 + 1"
    using sseTick_delivers [OF Cons.prems(1,2,3) len [unfolded B_def]] by (simp_all add: Let_def B_def F1_def t'_def)
  show ?case
  proof (cases "t_gone t'")
    case True
    then have same: "sseTicks us t' = t'" by (cases us) simp_all
    have "\<not> length F1 < t_room t" using tick(3) True by blast
    moreover obtain k where "filter isFrame (t_out t') = filter isFrame (t_out t) @ take k F1" using tick(1) by blast
    ultimately show ?thesis unfolding F step same Let_def
      by (auto intro!: exI [of _ "min k (length F1)"] simp: min_def)
  next
    case False
    then have t: "filter isFrame (t_out t') = filter isFrame (t_out t) @ F1"
       "t_offset t' = t_offset t + linesLen (completeLines B)" "t_partial t' = last (splitByte LF B)" using tick(2) by auto
    have "LF \<notin> set (t_partial t')" "0 \<le> t_offset t'" using completeLines_append(3) [of B] Cons.prems(3) t by simp_all
    moreover have "t_offset t' + int (length (t_partial t' @ concat us)) \<le> maxInt64"
      using Cons.prems(4) completeLines_append(2) [of B] t by (simp add: B_def)
    ultimately have IH: "\<exists>k. filter isFrame (t_out (sseTicks us t')) = filter isFrame (t_out t') @ take k F2"
      "length F2 + length us \<le> t_room t' \<longrightarrow> filter isFrame (t_out (sseTicks us t')) = filter isFrame (t_out t') @ F2"
      using Cons.IH [of t'] False t by (simp_all add: Let_def F2_def)
    obtain k where "filter isFrame (t_out (sseTicks us t')) = filter isFrame (t_out t) @ take (length F1 + k) (F1 @ F2)"
      using IH(1) t(1) by auto
    moreover have "length F2 + length us \<le> t_room t'" if "length (F1 @ F2) + length (u # us) \<le> t_room t"
      using that tick(3) by simp
    ultimately show ?thesis unfolding F step Let_def using IH(2) t(1) by (metis append.assoc)
  qed
qed


text \<open>
  A subscriber over several connections.  Before each the log grows while nobody is listening; the browser sends
  the offset of the last event it received (a keep-alive carries none).  The log only ever grows.
\<close>

type_synonym connection = "string \<times> sse_request"

definition reconnect :: "string \<Rightarrow> string \<Rightarrow> sse_request \<Rightarrow> sseWire list" where
  "reconnect log lastID r =
    (case events (r\<lparr>sr_log := map_option (\<lambda>_. log) (sr_log r), sr_lastEventID := lastID\<rparr>) of
       Err _ \<Rightarrow> []
     | Ok ws \<Rightarrow> filter isFrame ws)"

definition lastSeen :: "string \<Rightarrow> sseWire list \<Rightarrow> string" where
  "lastSeen lastID ws = (if ws = [] then lastID else case last ws of Frame n _ \<Rightarrow> Itoa n | Ping \<Rightarrow> lastID)"

fun watch :: "string \<Rightarrow> string \<Rightarrow> connection list \<Rightarrow> sseWire list" where
  "watch log lastID [] = []"
| "watch log lastID ((away, r) # cs) =
    (let ws = reconnect (log @ away) lastID r
     in ws @ watch (log @ away @ concat (sr_appended r)) (lastSeen lastID ws) cs)"

fun finalLog :: "string \<Rightarrow> connection list \<Rightarrow> string" where
  "finalLog log [] = log"
| "finalLog log ((away, r) # cs) = finalLog (log @ away @ concat (sr_appended r)) cs"

definition feedServed :: "sse_request \<Rightarrow> bool" where
  "feedServed r = (sr_held r < maxConcurrentSSE \<and> sr_flusher r \<and> sr_log r \<noteq> None \<and> sr_seekEnd r)"

lemma framesAt_resume:
  "framesAt n ls = ws @ rest \<Longrightarrow> ws \<noteq> [] \<Longrightarrow> last ws = Frame i l \<Longrightarrow>
   \<exists>ls1 ls2. ls = ls1 @ ls2 \<and> i = n + linesLen ls1 \<and> rest = framesAt i ls2"
proof (induction ls arbitrary: n ws)
  case (Cons k ls)
  define n' where "n' = n + int (length k) + 1"
  define line where "line = TrimRight (k @ [LF]) [CR, LF]"
  show ?case
  proof (cases "line = [] \<or> tl ws \<noteq> []")
    case True
    then obtain us where us: "framesAt n' ls = us @ rest" "us \<noteq> []" "last us = Frame i l"
      using Cons.prems by (cases ws) (auto simp: Let_def n'_def line_def split: if_splits)
    then obtain ls1 ls2 where "ls = ls1 @ ls2 \<and> i = n' + linesLen ls1 \<and> rest = framesAt i ls2" using Cons.IH by blast
    then show ?thesis by (intro exI [of _ "k # ls1"] exI [of _ ls2]) (simp add: n'_def)
  next
    case False
    then have "ws = [Frame n' line]" "rest = framesAt n' ls"
      using Cons.prems by (cases ws; simp add: Let_def n'_def line_def)+
    then show ?thesis using Cons.prems(3) by (intro exI [of _ "[k]"] exI [of _ ls]) (simp add: n'_def)
  qed
qed simp

lemma feed_resume:
  assumes "feedFrom n log = ws @ rest" "ws \<noteq> []" "last ws = Frame i l" "0 \<le> n" "n \<le> int (length log)"
  shows "rest = feedFrom i log \<and> 0 \<le> i \<and> i \<le> int (length log)"
proof -
  obtain ls r where lr: "drop (nat n) log = concat (map (\<lambda>l. l @ [LF]) ls) @ r" "splitByte LF (drop (nat n) log) = ls @ [r]"
    "\<forall>l\<in>set ls. LF \<notin> set l" "LF \<notin> set r" by (rule split_text)
  have "completeLines (drop (nat n) log) = ls" using lr(2) by (simp add: completeLines_def)
  then obtain ls1 ls2 where l: "ls = ls1 @ ls2" "i = n + linesLen ls1" "rest = framesAt i ls2"
    using framesAt_resume assms(1,2,3) by (metis feedFrom_def)
  let ?a = "concat (map (\<lambda>l. l @ [LF]) ls1)" and ?b = "concat (map (\<lambda>l. l @ [LF]) ls2) @ r"
  have "nat i = nat n + length ?a" using l(2) assms(4) length_lines [of ls1] by linarith
  moreover have "drop (nat n) log = ?a @ ?b" using lr(1) l(1) by simp
  ultimately have "drop (nat i) log = ?b" by (metis append_eq_conv_conj drop_drop add.commute)
  then have "completeLines (drop (nat i) log) = ls2" using split_lines_rest [of ls2 r] lr(3,4) l(1)
    by (simp add: completeLines_def splitByte_no_sep)
  moreover have "int (length ?a) + int (length ?b) = int (length log) - n"
    using arg_cong [OF \<open>drop (nat n) log = ?a @ ?b\<close>, of length] assms(4,5) by simp
  ultimately show ?thesis using l length_lines [of ls1] assms(4) by (simp add: feedFrom_def)
qed

lemma feedFrom_append:
  assumes "n \<le> int (length log)"
  shows "\<exists>zs. feedFrom n (log @ new) = feedFrom n log @ zs"
proof -
  have "drop (nat n) (log @ new) = drop (nat n) log @ new" using assms by simp
  then show ?thesis by (simp only: feedFrom_def completeLines_append(1) [of "drop (nat n) log" new] framesAt_append) blast
qed

lemma feedFrom_final: "n \<le> int (length log) \<Longrightarrow> \<exists>zs. feedFrom n (finalLog log cs) = feedFrom n log @ zs"
proof (induction log cs rule: finalLog.induct)
  case (2 log away r cs)
  then show ?case using feedFrom_append [of n log "away @ concat (sr_appended r)"] by fastforce
qed simp

lemma finalLog_length: "length log \<le> length (finalLog log cs)"
  by (induction log cs rule: finalLog.induct) auto

lemma finalLog_snoc: "finalLog log (cs @ [(away, r)]) = finalLog log cs @ away @ concat (sr_appended r)"
  by (induction log cs rule: finalLog.induct) auto

text \<open>One connection delivers a beginning of what the log holds from the acknowledged offset on.\<close>

lemma reconnect_delivers:
  assumes "0 \<le> n" "n \<le> int (length log)" "int (length log + length (concat (sr_appended r))) \<le> maxInt64" "sr_seekStart r"
  shows "\<exists>k. reconnect log (Itoa n) r = take k (feedFrom n (log @ concat (sr_appended r)))"
    and "feedServed r \<Longrightarrow> sr_appended r \<noteq> [] \<Longrightarrow>
      length (feedFrom n (log @ concat (sr_appended r))) + length (sr_appended r) \<le> sr_room r \<Longrightarrow>
      reconnect log (Itoa n) r = feedFrom n (log @ concat (sr_appended r))"
proof -
  have "Atoi (Itoa n) = Some n" using assms by (intro Atoi_Itoa) (simp_all add: minInt64_def)
  moreover have "Itoa n \<noteq> []" using assms(1) by (simp add: Itoa_def)
  ultimately have start: "startOffset True log (Itoa n) = n" using assms by (simp add: startOffset_def)
  let ?us = "feedTicks n log (sr_appended r)" and ?X = "log @ concat (sr_appended r)"
  have cat: "concat ?us = drop (nat n) ?X" if "sr_appended r \<noteq> []"
    using that assms(1,2) by (cases "sr_appended r") (simp_all add: feedTicks_def)
  have ev: "reconnect log (Itoa n) r = (if feedServed r then filter isFrame (t_out (sseTicks ?us (newTail n (sr_room r)))) else [])"
    using start assms(4) by (cases "sr_log r") (simp_all add: reconnect_def events_def feedServed_def Let_def not_less [symmetric])
  have len: "length ?us = length (sr_appended r)" by (simp add: feedTicks_def split: list.splits)
  have "n + int (length (drop (nat n) ?X)) \<le> maxInt64" using assms by simp
  then have go: "let F = feedFrom n ?X; out = t_out (sseTicks ?us (newTail n (sr_room r))) in
    (\<exists>k. filter isFrame out = take k F) \<and> (length F + length ?us \<le> sr_room r \<longrightarrow> filter isFrame out = F)" if "sr_appended r \<noteq> []"
    using sseTicks_deliver [of "newTail n (sr_room r)" ?us] that assms(1) by (simp add: newTail_def cat feedFrom_def Let_def)
  have none: "t_out (sseTicks ?us (newTail n (sr_room r))) = []" if "sr_appended r = []"
    using that by (simp add: feedTicks_def newTail_def)
  show "\<exists>k. reconnect log (Itoa n) r = take k (feedFrom n ?X)"
  proof (cases "feedServed r \<and> sr_appended r \<noteq> []")
    case True
    then show ?thesis using go ev by (simp add: Let_def)
  next
    case False
    then have "reconnect log (Itoa n) r = take 0 (feedFrom n ?X)" using none ev by (cases "feedServed r") simp_all
    then show ?thesis by blast
  qed
  show "reconnect log (Itoa n) r = feedFrom n ?X"
    if "feedServed r" "sr_appended r \<noteq> []" "length (feedFrom n ?X) + length (sr_appended r) \<le> sr_room r"
    using go [OF that(2)] ev len that by (simp add: Let_def)
qed

lemma watch_prefix:
  assumes "0 \<le> n" "n \<le> int (length log)" "int (length (finalLog log cs)) \<le> maxInt64" "list_all (\<lambda>c. sr_seekStart (snd c)) cs"
  shows "\<exists>k m. watch log (Itoa n) cs = take k (feedFrom n (finalLog log cs)) \<and>
    (\<forall>new. feedFrom n (finalLog log cs @ new) = watch log (Itoa n) cs @ feedFrom m (finalLog log cs @ new)) \<and>
    0 \<le> m \<and> m \<le> int (length (finalLog log cs)) \<and>
    (\<forall>c. watch log (Itoa n) (cs @ [c]) = watch log (Itoa n) cs @ watch (finalLog log cs) (Itoa m) [c])"
  using assms
proof (induction cs arbitrary: log n)
  case Nil
  then show ?case by (intro exI [of _ 0] exI [of _ n]) simp
next
  case (Cons c cs)
  obtain away r where c: "c = (away, r)" by force
  let ?log = "log @ away @ concat (sr_appended r)" and ?X = "finalLog log (c # cs)"
  have X: "?X = finalLog ?log cs" by (simp add: c)
  have "int (length ?log) \<le> maxInt64" using Cons.prems(3) finalLog_length [of ?log cs] X by simp
  then obtain k where k: "reconnect (log @ away) (Itoa n) r = take k (feedFrom n ?log)"
    using reconnect_delivers(1) [of n "log @ away" r] Cons.prems(1,2,4) by (auto simp: c)
  define ws where "ws = reconnect (log @ away) (Itoa n) r"
  have n: "n \<le> int (length ?log)" "n \<le> int (length (?X @ new))" for new
    using Cons.prems(2) finalLog_length [of ?log cs] X by simp_all
  have part: "feedFrom n ?log = ws @ drop k (feedFrom n ?log)" using k by (simp add: ws_def)
  have more: "\<exists>zs. feedFrom n (?X @ new) = ws @ zs" for new
  proof -
    obtain zs where "feedFrom n ?X = feedFrom n ?log @ zs" using feedFrom_final [OF n(1)] X by metis
    moreover obtain ys where "feedFrom n (?X @ new) = feedFrom n ?X @ ys" using feedFrom_append [of n ?X new] n(2) [of "[]"] by auto
    ultimately show ?thesis using part by (metis append.assoc)
  qed
  have "\<exists>i. lastSeen (Itoa n) ws = Itoa i \<and> (\<forall>new. feedFrom n (?X @ new) = ws @ feedFrom i (?X @ new)) \<and> 0 \<le> i \<and> i \<le> int (length ?log)"
  proof (cases "ws = []")
    case True
    then show ?thesis using Cons.prems by (intro exI [of _ n]) (simp add: lastSeen_def)
  next
    case False
    then have "last ws \<in> set (feedFrom n ?log)" using part by (metis Un_iff last_in_set set_append)
    then have "isFrame (last ws)" using framesAt_frames by (metis feedFrom_def mem_Collect_eq set_filter)
    then obtain i l where l: "last ws = Frame i l" by (cases "last ws") simp_all
    have "feedFrom n (?X @ new) = ws @ feedFrom i (?X @ new)" for new
      using more [of new] feed_resume [OF _ False l Cons.prems(1) n(2)] by metis
    moreover have "0 \<le> i \<and> i \<le> int (length ?log)" using feed_resume [OF part False l Cons.prems(1) n(1)] by blast
    ultimately show ?thesis using l False by (intro exI [of _ i]) (simp add: lastSeen_def)
  qed
  then obtain i where i: "lastSeen (Itoa n) ws = Itoa i" "\<And>new. feedFrom n (?X @ new) = ws @ feedFrom i (?X @ new)"
    "0 \<le> i" "i \<le> int (length ?log)" by blast
  have w: "watch log (Itoa n) (c # ds) = ws @ watch ?log (Itoa i) ds" for ds using i(1) by (simp add: c ws_def Let_def)
  have seek: "list_all (\<lambda>c. sr_seekStart (snd c)) cs" using Cons.prems(4) by simp
  obtain k' m where IH: "watch ?log (Itoa i) cs = take k' (feedFrom i ?X)"
     "\<forall>new. feedFrom i (?X @ new) = watch ?log (Itoa i) cs @ feedFrom m (?X @ new)" "0 \<le> m" "m \<le> int (length ?X)"
     "\<forall>c. watch ?log (Itoa i) (cs @ [c]) = watch ?log (Itoa i) cs @ watch ?X (Itoa m) [c]"
    using Cons.IH [OF i(3,4) Cons.prems(3) [unfolded X] seek] unfolding X by blast
  have "watch log (Itoa n) (c # cs) = take (length ws + k') (feedFrom n ?X)" using w IH(1) i(2) [of "[]"] by simp
  moreover have "\<forall>new. feedFrom n (?X @ new) = watch log (Itoa n) (c # cs) @ feedFrom m (?X @ new)" using w IH(2) i(2) by simp
  moreover have "\<forall>d. watch log (Itoa n) ((c # cs) @ [d]) = watch log (Itoa n) (c # cs) @ watch ?X (Itoa m) [d]"
    using IH(5) by (simp add: w)
  ultimately show ?case using IH(3,4) by blast
qed

text \<open>
  C14: the live feed delivers every event exactly once.  A browser that has acknowledged byte \<open>n\<close> of the log
  connects any number of times while the log grows, is refused by the subscriber gate or cut off in the middle
  of a tick at any write, and reconnects with the offset of the last event it received: all it has received is,
  at every moment, a beginning of the sequence of complete lines of the log from \<open>n\<close> on, without a gap or a
  repetition, and once one more connection is feedServed for a tick with room for what is left, it is the whole
  sequence.
\<close>

theorem feed_exactly_once:
  assumes "0 \<le> n" "n \<le> int (length log)" "list_all (\<lambda>c. sr_seekStart (snd c)) (cs @ [(away, r)])"
    and "int (length (finalLog log (cs @ [(away, r)]))) \<le> maxInt64"
  shows "(\<exists>k. watch log (Itoa n) cs = take k (feedFrom n (finalLog log cs))) \<and>
    (feedServed r \<and> sr_appended r \<noteq> [] \<and>
       length (feedFrom n (finalLog log (cs @ [(away, r)]))) + length (sr_appended r) \<le> sr_room r \<longrightarrow>
     watch log (Itoa n) (cs @ [(away, r)]) = feedFrom n (finalLog log (cs @ [(away, r)])))"
proof -
  let ?X = "finalLog log cs" and ?Y = "finalLog log (cs @ [(away, r)])"
  have Y: "?Y = (?X @ away) @ concat (sr_appended r)" by (simp add: finalLog_snoc)
  have small: "int (length ?X) \<le> maxInt64" "int (length (?X @ away) + length (concat (sr_appended r))) \<le> maxInt64"
    using assms(4) Y by simp_all
  have seek: "list_all (\<lambda>c. sr_seekStart (snd c)) cs" using assms(3) by simp
  obtain k m where p: "watch log (Itoa n) cs = take k (feedFrom n ?X)"
    "\<And>new. feedFrom n (?X @ new) = watch log (Itoa n) cs @ feedFrom m (?X @ new)" "0 \<le> m" "m \<le> int (length ?X)"
    "\<And>c. watch log (Itoa n) (cs @ [c]) = watch log (Itoa n) cs @ watch ?X (Itoa m) [c]"
    using watch_prefix [OF assms(1,2) small(1) seek] by blast
  have all: "feedFrom n ?Y = watch log (Itoa n) cs @ feedFrom m ?Y" using p(2) [of "away @ concat (sr_appended r)"] Y by simp
  have "watch log (Itoa n) (cs @ [(away, r)]) = feedFrom n ?Y"
    if "feedServed r" "sr_appended r \<noteq> []" "length (feedFrom n ?Y) + length (sr_appended r) \<le> sr_room r"
  proof -
    have "length (feedFrom m ((?X @ away) @ concat (sr_appended r))) + length (sr_appended r) \<le> sr_room r"
      using that(3) all Y by simp
    then have "reconnect (?X @ away) (Itoa m) r = feedFrom m ?Y"
      using reconnect_delivers(2) [of m "?X @ away" r] that(1,2) p(3,4) small(2) assms(3) Y by simp
    then show ?thesis using p(5) all by (simp add: Let_def)
  qed
  then show ?thesis using p(1) by blast
qed

definition demoSSE :: sse_request where
  "demoSSE = \<lparr>sr_held = 0, sr_flusher = True, sr_log = Some [], sr_seekEnd = True, sr_seekStart = True,
     sr_lastEventID = [], sr_appended = [''a'', LF # ''b'' @ [LF] @ ''c''], sr_room = 5\<rparr>"

lemma feed_exactly_once_witness:
  "watch [] ''0'' ([([], demoSSE\<lparr>sr_room := 1\<rparr>)] @ [([LF], demoSSE\<lparr>sr_appended := [[LF]]\<rparr>)]) =
     [Frame 2 ''a'', Frame 4 ''b'', Frame 6 ''c'']"
proof -
  let ?cs = "[([], demoSSE\<lparr>sr_room := 1\<rparr>)] :: connection list" and ?r = "demoSSE\<lparr>sr_appended := [[LF]]\<rparr>"
  have log: "finalLog [] (?cs @ [([LF], ?r)]) = ''a'' @ [LF] @ ''b'' @ [LF] @ ''c'' @ [LF, LF]" by (simp add: demoSSE_def)
  have feed: "feedFrom 0 (''a'' @ [LF] @ ''b'' @ [LF] @ ''c'' @ [LF, LF]) = [Frame 2 ''a'', Frame 4 ''b'', Frame 6 ''c'']"
    by (simp add: feedFrom_def completeLines_def TrimRight_def TrimRightFunc_def char_consts)
  have "Itoa 0 = ''0''" by (simp add: Itoa_def natDigits.simps char_of_def) 
  then show ?thesis
    using feed_exactly_once [of 0 "[]" ?cs "[LF]" ?r] log feed
    by (simp add: demoSSE_def feedServed_def maxConcurrentSSE_def maxInt64_def)
qed

end
