(* ===== verification/Geo.thy ===== *)
theory Geo
  imports ServerHandle "HOL-Library.Multiset"
begin

unbundle bit_operations_syntax

text \<open>
  Locating an address (\<^verbatim>\<open>internal/geo/geo.go\<close>): the special-use classes, the country and AS databases read from
  CSV rows, and their lookup by binary search.  The text forms of addresses (package \<open>netip\<close>), the CSV
  reader and the order in which \<open>sort.Slice\<close> leaves rows with equal starts are parameters.
\<close>

section \<open>Address classes (package netip)\<close>

definition octet :: "nat \<Rightarrow> 32 word \<Rightarrow> 32 word" where
  "octet i w = drop_bit (24 - 8 * i) w AND 0xff"

definition Is4 :: "netAddr \<Rightarrow> bool" where
  "Is4 a = (case a of V4 _ \<Rightarrow> True | V6 _ _ \<Rightarrow> False)"

definition IsUnspecified :: "netAddr \<Rightarrow> bool" where
  "IsUnspecified a \<longleftrightarrow> a = V4 0 \<or> a = V6 0 []"

definition IsMulticast :: "netAddr \<Rightarrow> bool" where
  "IsMulticast a = (case Unmap a of V4 w \<Rightarrow> octet 0 w AND 0xf0 = 0xe0 | V6 w _ \<Rightarrow> drop_bit 120 w = 0xff)"

definition IsLinkLocalUnicast :: "netAddr \<Rightarrow> bool" where
  "IsLinkLocalUnicast a =
     (case Unmap a of V4 w \<Rightarrow> octet 0 w = 169 \<and> octet 1 w = 254 | V6 w _ \<Rightarrow> drop_bit 112 w AND 0xffc0 = 0xfe80)"

definition IsPrivate :: "netAddr \<Rightarrow> bool" where
  "IsPrivate a =
     (case Unmap a of
        V4 w \<Rightarrow> octet 0 w = 10 \<or> octet 0 w = 172 \<and> octet 1 w AND 0xf0 = 16 \<or> octet 0 w = 192 \<and> octet 1 w = 168
      | V6 w _ \<Rightarrow> drop_bit 120 w AND 0xfe = 0xfc)"

definition ip4 :: "int \<Rightarrow> int \<Rightarrow> int \<Rightarrow> int \<Rightarrow> 32 word" where
  "ip4 a b c d = word_of_int (((a * 256 + b) * 256 + c) * 256 + d)"

definition specialRanges :: "(netPrefix \<times> string) list" where
  "specialRanges =
     [((V4 (ip4 100 64 0 0), 10), ''cgnat''),
      ((V4 (ip4 192 0 2 0), 24), ''doc''),
      ((V4 (ip4 198 51 100 0), 24), ''doc''),
      ((V4 (ip4 203 0 113 0), 24), ''doc''),
      ((V6 (push_bit 96 0x20010db8) [], 32), ''doc''),
      ((V4 (ip4 198 18 0 0), 15), ''reserved''),
      ((V4 (ip4 192 0 0 0), 24), ''reserved''),
      ((V4 (ip4 192 88 99 0), 24), ''reserved''),
      ((V4 (ip4 240 0 0 0), 4), ''reserved''),
      ((V4 (ip4 0 0 0 0), 8), ''reserved'')]"

section \<open>Databases\<close>

record Location =
  l_Scope :: string
  l_Country :: string
  l_ASN :: "32 word"
  l_Org :: string
  l_Source :: string

definition scopeOnly :: "string \<Rightarrow> Location" where
  "scopeOnly sc = \<lparr>l_Scope = sc, l_Country = [], l_ASN = 0, l_Org = [], l_Source = []\<rparr>"

record countryRange =
  cr_start :: "32 word"
  cr_end :: "32 word"
  cr_country :: string

record asnRange =
  ar_start :: "32 word"
  ar_end :: "32 word"
  ar_asn :: "32 word"
  ar_org :: string

record Resolver =
  ranges :: "countryRange list"
  asnRanges :: "asnRange list"

definition NewResolver :: Resolver where
  "NewResolver = \<lparr>ranges = [], asnRanges = []\<rparr>"

definition Loaded :: "Resolver \<Rightarrow> nat" where "Loaded r = length (ranges r)"
definition AsnLoaded :: "Resolver \<Rightarrow> nat" where "AsnLoaded r = length (asnRanges r)"

text \<open>\<open>sort.Search\<close>: the loop over the half-open interval \<open>[i, j)\<close>.\<close>

function searchLoop :: "nat \<Rightarrow> nat \<Rightarrow> (nat \<Rightarrow> bool) \<Rightarrow> nat" where
  "searchLoop i j f =
     (if i < j then let h = (i + j) div 2 in if \<not> f h then searchLoop (h + 1) j f else searchLoop i h f else i)"
  by pat_completeness auto
termination by (relation "measure (\<lambda>(i, j, f). j - i)") auto

declare searchLoop.simps [simp del]

definition sortSearch :: "nat \<Rightarrow> (nat \<Rightarrow> bool) \<Rightarrow> nat" where
  "sortSearch n f = searchLoop 0 n f"

definition asnOf :: "Resolver \<Rightarrow> netAddr \<Rightarrow> (32 word \<times> string) option" where
  "asnOf r addr =
     (case addr of
        V4 v \<Rightarrow>
          if asnRanges r = [] then None
          else let n = sortSearch (length (asnRanges r)) (\<lambda>i. ar_start (asnRanges r ! i) > v)
               in if n = 0 then None
                  else if v \<le> ar_end (asnRanges r ! (n - 1)) then Some (ar_asn (asnRanges r ! (n - 1)), ar_org (asnRanges r ! (n - 1)))
                  else None
      | V6 _ _ \<Rightarrow> None)"

definition countryOf :: "Resolver \<Rightarrow> netAddr \<Rightarrow> string option" where
  "countryOf r addr =
     (case addr of
        V4 v \<Rightarrow>
          if ranges r = [] then None
          else let n = sortSearch (length (ranges r)) (\<lambda>i. cr_start (ranges r ! i) > v)
               in if n = 0 then None
                  else if v \<le> cr_end (ranges r ! (n - 1)) \<and> cr_country (ranges r ! (n - 1)) \<noteq> [] then Some (cr_country (ranges r ! (n - 1)))
                  else None
      | V6 _ _ \<Rightarrow> None)"

section \<open>Locating\<close>

text \<open>The parsers of package \<open>netip\<close>.\<close>

record parsers =
  ps_addr :: "string \<Rightarrow> netAddr option"
  ps_addrPort :: "string \<Rightarrow> netAddr option"
  ps_prefix :: "string \<Rightarrow> netPrefix option"

definition parseAddr :: "parsers \<Rightarrow> string \<Rightarrow> netAddr option" where
  "parseAddr ps s0 =
     (let s = TrimSpace s0
      in case ps_addr ps s of
           Some a \<Rightarrow> Some (Unmap a)
         | None \<Rightarrow> map_option Unmap (ps_addrPort ps s))"

fun specialScope :: "(netPrefix \<times> string) list \<Rightarrow> netAddr \<Rightarrow> string option" where
  "specialScope [] a = None"
| "specialScope ((p, sc) # rs) a = (if PrefixContains p a then Some sc else specialScope rs a)"

definition Locate :: "parsers \<Rightarrow> Resolver \<Rightarrow> string \<Rightarrow> Location" where
  "Locate ps r ip =
     (case parseAddr ps ip of
        None \<Rightarrow> scopeOnly ''invalid''
      | Some addr \<Rightarrow>
          if IsUnspecified addr then scopeOnly ''unspecified''
          else if IsLoopback addr then scopeOnly ''loopback''
          else if IsMulticast addr then scopeOnly ''multicast''
          else if IsLinkLocalUnicast addr then scopeOnly ''linklocal''
          else if IsPrivate addr then scopeOnly ''private''
          else case specialScope specialRanges addr of
            Some sc \<Rightarrow> scopeOnly sc
          | None \<Rightarrow>
              let loc = scopeOnly ''global'';
                  loc = (case countryOf r addr of Some c \<Rightarrow> loc\<lparr>l_Country := c, l_Source := ''db''\<rparr> | None \<Rightarrow> loc)
              in (case asnOf r addr of Some (n, org) \<Rightarrow> loc\<lparr>l_ASN := n, l_Org := org, l_Source := ''db''\<rparr> | None \<Rightarrow> loc))"

section \<open>Loading\<close>

text \<open>\<open>strconv.ParseUint\<close> with base 10 and 32 bits.\<close>

definition ParseUint32 :: "string \<Rightarrow> 32 word option" where
  "ParseUint32 s = (if s \<noteq> [] \<and> list_all isDigit s \<and> digitsVal s \<le> 4294967295 then Some (word_of_int (digitsVal s)) else None)"

definition parseBound :: "parsers \<Rightarrow> string \<Rightarrow> 32 word option" where
  "parseBound ps s0 =
     (let s = TrimSpace s0
      in case ps_addr ps s of
           Some (V4 w) \<Rightarrow> Some w
         | _ \<Rightarrow> ParseUint32 s)"

definition countryCode :: "string \<Rightarrow> string" where
  "countryCode s0 =
     (let s = ToUpper (TrimSpace s0)
      in if length s \<noteq> 2 \<or> \<not> isUpper (s ! 0) \<or> \<not> isUpper (s ! 1) then [] else s)"

definition isComment :: "string list \<Rightarrow> bool" where
  "isComment rec = (case rec of [] \<Rightarrow> False | f # _ \<Rightarrow> HasPrefix (TrimSpace f) ''#'')"

definition parseRecord :: "parsers \<Rightarrow> string list \<Rightarrow> countryRange option" where
  "parseRecord ps rec =
     (if isComment rec then None
      else case rec of
        [cidr, cc0] \<Rightarrow>
          (case ps_prefix ps (TrimSpace cidr) of
             Some (V4 w, b) \<Rightarrow>
               let cc = countryCode cc0; lo = w AND NOT (mask (32 - b)); hi = lo OR drop_bit b (mask 32)
               in if cc = [] then None else Some \<lparr>cr_start = lo, cr_end = hi, cr_country = cc\<rparr>
           | _ \<Rightarrow> None)
      | f0 # f1 # f2 # _ \<Rightarrow>
          (case (parseBound ps f0, parseBound ps f1) of
             (Some lo, Some hi) \<Rightarrow>
               let cc = countryCode f2
               in if cc = [] \<or> hi < lo then None else Some \<lparr>cr_start = lo, cr_end = hi, cr_country = cc\<rparr>
           | _ \<Rightarrow> None)
      | _ \<Rightarrow> None)"

definition parseASNRecord :: "parsers \<Rightarrow> string list \<Rightarrow> asnRange option" where
  "parseASNRecord ps rec =
     (if isComment rec then None
      else case rec of
        f0 # f1 # f2 # orgs \<Rightarrow>
          (case (parseBound ps f0, parseBound ps f1) of
             (Some lo, Some hi) \<Rightarrow>
               if hi < lo then None
               else (case ParseUint32 (TrimSpace f2) of
                       None \<Rightarrow> None
                     | Some asn \<Rightarrow>
                         Some \<lparr>ar_start = lo, ar_end = hi, ar_asn = asn, ar_org = TrimSpace (joinByte (CHR '','') orgs)\<rparr>)
           | _ \<Rightarrow> None)
      | _ \<Rightarrow> None)"

text \<open>A CSV file is the error of opening it or its rows, each a record or a parse error; \<open>sortSlice\<close> is \<open>sort.Slice\<close> by start.\<close>

type_synonym csv_file = "string + (string + string list) list"

fun okRows :: "(string + string list) list \<Rightarrow> string list list" where
  "okRows [] = []"
| "okRows (Inl _ # rs) = okRows rs"
| "okRows (Inr rec # rs) = rec # okRows rs"

definition LoadCSV :: "parsers \<Rightarrow> (countryRange list \<Rightarrow> countryRange list) \<Rightarrow> csv_file \<Rightarrow> Resolver \<Rightarrow> (string + nat) \<times> Resolver" where
  "LoadCSV ps sortSlice file r =
     (case file of
        Inl e \<Rightarrow> (Err e, r)
      | Inr rows \<Rightarrow>
          let rs = List.map_filter (parseRecord ps) (okRows rows)
          in (Ok (length rs), r\<lparr>ranges := sortSlice rs\<rparr>))"

definition LoadASN :: "parsers \<Rightarrow> (asnRange list \<Rightarrow> asnRange list) \<Rightarrow> csv_file \<Rightarrow> Resolver \<Rightarrow> (string + nat) \<times> Resolver" where
  "LoadASN ps sortSlice file r =
     (case file of
        Inl e \<Rightarrow> (Err e, r)
      | Inr rows \<Rightarrow>
          let rs = List.map_filter (parseASNRecord ps) (okRows rows)
          in (Ok (length rs), r\<lparr>asnRanges := sortSlice rs\<rparr>))"

section \<open>The search finds the range\<close>

lemma searchLoop_spec:
  assumes mono: "\<And>a b. a \<le> b \<Longrightarrow> b < n \<Longrightarrow> f a \<Longrightarrow> f b"
  shows "i \<le> j \<Longrightarrow> j \<le> n \<Longrightarrow> (\<And>a. a < i \<Longrightarrow> \<not> f a) \<Longrightarrow> (\<And>a. j \<le> a \<Longrightarrow> a < n \<Longrightarrow> f a) \<Longrightarrow>
    searchLoop i j f \<le> n \<and> (\<forall>a<n. f a \<longleftrightarrow> searchLoop i j f \<le> a)"
proof (induction "j - i" arbitrary: i j rule: less_induct)
  case less
  let ?h = "(i + j) div 2"
  show ?case
  proof (cases "i < j")
    case False
    then have "searchLoop i j f = i" "i = j" using less.prems(1) by (simp_all add: searchLoop.simps)
    then show ?thesis using less.prems by (metis leI)
  next
    case True
    then have h: "i \<le> ?h" "?h < j" by auto
    show ?thesis
    proof (cases "f ?h")
      case f: True
      have e: "searchLoop i j f = searchLoop i ?h f" using True f by (subst searchLoop.simps) (simp add: Let_def)
      have "f a" if "?h \<le> a" "a < n" for a using mono [OF that f] .
      then show ?thesis unfolding e using less.prems h by (intro less.hyps) auto
    next
      case f: False
      have e: "searchLoop i j f = searchLoop (?h + 1) j f" using True f by (subst searchLoop.simps) (simp add: Let_def)
      have "\<not> f a" if "a < ?h + 1" for a
      proof
        assume "f a"
        moreover have "a \<le> ?h" "?h < n" using that h less.prems(2) by auto
        ultimately show False using mono f by blast
      qed
      then show ?thesis unfolding e using less.prems h by (intro less.hyps) auto
    qed
  qed
qed

lemma sortSearch_spec:
  "(\<And>a b. a \<le> b \<Longrightarrow> b < n \<Longrightarrow> f a \<Longrightarrow> f b) \<Longrightarrow> sortSearch n f \<le> n \<and> (\<forall>a<n. f a \<longleftrightarrow> sortSearch n f \<le> a)"
  unfolding sortSearch_def by (rule searchLoop_spec) auto

definition apart :: "('r \<Rightarrow> 32 word) \<Rightarrow> ('r \<Rightarrow> 32 word) \<Rightarrow> 'r list \<Rightarrow> bool" where
  "apart lo hi rs \<longleftrightarrow> list_all (\<lambda>r. lo r \<le> hi r) rs \<and> list_all (\<lambda>r. list_all (\<lambda>r'. r = r' \<or> hi r < lo r' \<or> hi r' < lo r) rs) rs"

lemma search_covers:
  assumes "sorted (map lo rs)" "apart lo hi rs" and n_def: "n = sortSearch (length rs) (\<lambda>i. lo (rs ! i) > v)"
  shows "r \<in> set rs \<and> lo r \<le> v \<and> v \<le> hi r \<longleftrightarrow> n \<noteq> 0 \<and> v \<le> hi (rs ! (n - 1)) \<and> r = rs ! (n - 1)"
proof -
  have mono: "lo (rs ! b) > v" if "a \<le> b" "b < length rs" "lo (rs ! a) > v" for a b
    using sorted_nth_mono [OF assms(1), of a b] that by auto
  have n: "n \<le> length rs" "\<And>a. a < length rs \<Longrightarrow> lo (rs ! a) > v \<longleftrightarrow> n \<le> a"
    using sortSearch_spec [of "length rs" "\<lambda>i. lo (rs ! i) > v"] mono unfolding n_def by auto
  show ?thesis
  proof
    assume r: "r \<in> set rs \<and> lo r \<le> v \<and> v \<le> hi r"
    then obtain i where i: "i < length rs" "rs ! i = r" by (auto simp: in_set_conv_nth)
    then have "i < n" using n(2) [of i] r by auto
    then have m: "n \<noteq> 0" "n - 1 < length rs" "i \<le> n - 1" using n(1) by auto
    have lo_m: "lo (rs ! (n - 1)) \<le> v" using n(2) [of "n - 1"] m by auto
    have ms: "rs ! (n - 1) \<in> set rs" using m by simp
    have le: "lo r \<le> lo (rs ! (n - 1))" using sorted_nth_mono [OF assms(1), of i "n - 1"] m i by simp
    have "r = rs ! (n - 1) \<or> hi r < lo (rs ! (n - 1)) \<or> hi (rs ! (n - 1)) < lo r" and "lo (rs ! (n - 1)) \<le> hi (rs ! (n - 1))"
      using assms(2) r ms by (auto simp: apart_def list_all_iff)
    with r lo_m le have "r = rs ! (n - 1)" by auto
    with m r show "n \<noteq> 0 \<and> v \<le> hi (rs ! (n - 1)) \<and> r = rs ! (n - 1)" by auto
  next
    assume r: "n \<noteq> 0 \<and> v \<le> hi (rs ! (n - 1)) \<and> r = rs ! (n - 1)"
    then have "n - 1 < length rs" using n(1) by auto
    then show "r \<in> set rs \<and> lo r \<le> v \<and> v \<le> hi r" using r n(2) [of "n - 1"] by auto
  qed
qed

lemma parseRecord_range: "parseRecord ps rec = Some r \<Longrightarrow> cr_start r \<le> cr_end r \<and> cr_country r \<noteq> []"
  by (auto simp: parseRecord_def Let_def le_word_or2 split: if_splits list.splits option.splits prod.splits netAddr.splits)

lemma set_map_filter_Some: "x \<in> set (List.map_filter f xs) \<longleftrightarrow> (\<exists>y\<in>set xs. f y = Some x)"
  by (induction xs) (auto simp: List.map_filter_simps split: option.splits)

lemma apart_mset: "mset rs = mset rs' \<Longrightarrow> apart lo hi rs = apart lo hi rs'"
  unfolding apart_def list_all_iff by (drule mset_eq_setD) simp

text \<open>
  C32: after loading a country database whose usable rows do not overlap, however they are ordered in the
  file and however the sort leaves equal starts, the binary search answers exactly what a scan of the
  rows would: an IPv4 address has a country just when some row's range contains it, and it is that row's.
\<close>

theorem country_lookup_exact:
  assumes "LoadCSV ps srt (Inr rows) r = (res, r')"
    and "\<And>rs. mset (srt rs) = mset rs \<and> sorted (map cr_start (srt rs))"
    and "apart cr_start cr_end (List.map_filter (parseRecord ps) (okRows rows))"
  shows "countryOf r' (V4 v) = Some cc \<longleftrightarrow>
    (\<exists>rec\<in>set (okRows rows). \<exists>c. parseRecord ps rec = Some c \<and> cr_start c \<le> v \<and> v \<le> cr_end c \<and> cr_country c = cc)"
proof -
  let ?rs = "List.map_filter (parseRecord ps) (okRows rows)"
  define n where n: "n = sortSearch (length (srt ?rs)) (\<lambda>i. cr_start (srt ?rs ! i) > v)"
  have r': "ranges r' = srt ?rs" using assms(1) by (auto simp: LoadCSV_def Let_def)
  have ap: "apart cr_start cr_end (srt ?rs)" using assms(2) [of ?rs] assms(3) apart_mset by metis
  have st: "set (srt ?rs) = set ?rs" using assms(2) [of ?rs] by (metis set_mset_mset)
  have cov: "c \<in> set ?rs \<and> cr_start c \<le> v \<and> v \<le> cr_end c \<longleftrightarrow> n \<noteq> 0 \<and> v \<le> cr_end (srt ?rs ! (n - 1)) \<and> c = srt ?rs ! (n - 1)" for c
    using search_covers [OF conjunct2 [OF assms(2) [of ?rs]] ap n, of c] st by simp
  have ne: "c \<in> set ?rs \<Longrightarrow> cr_country c \<noteq> []" for c
    using parseRecord_range by (auto simp: set_map_filter_Some)
  have "countryOf r' (V4 v) = Some cc \<longleftrightarrow> (\<exists>c. c \<in> set ?rs \<and> cr_start c \<le> v \<and> v \<le> cr_end c \<and> cr_country c = cc)"
  proof (cases "n \<noteq> 0 \<and> v \<le> cr_end (srt ?rs ! (n - 1))")
    case True
    then have c: "srt ?rs ! (n - 1) \<in> set ?rs" "cr_start (srt ?rs ! (n - 1)) \<le> v" using cov [of "srt ?rs ! (n - 1)"] by auto
    then have "srt ?rs \<noteq> []" using st by auto
    with True r' n ne [OF c(1)] have "countryOf r' (V4 v) = Some (cr_country (srt ?rs ! (n - 1)))"
      by (simp add: countryOf_def Let_def)
    with cov c True show ?thesis by (metis option.inject)
  next
    case False
    with r' n have "countryOf r' (V4 v) = None" by (auto simp: countryOf_def Let_def)
    moreover have "\<not> (c \<in> set ?rs \<and> cr_start c \<le> v \<and> v \<le> cr_end c)" for c using cov [of c] False by blast
    ultimately show ?thesis by auto
  qed
  then show ?thesis by (auto simp: set_map_filter_Some)
qed

text \<open>Rows that nest are not kept apart by loading: here 1.2.0.0 lies in the first range, but the second is searched.\<close>

lemma nested_range_hides:
  "countryOf \<lparr>ranges = [\<lparr>cr_start = 16777216, cr_end = 33554431, cr_country = ''US''\<rparr>,
       \<lparr>cr_start = 16842752, cr_end = 16843007, cr_country = ''AU''\<rparr>], asnRanges = []\<rparr> (V4 16908288) = None"
proof -
  have "searchLoop 0 (Suc (Suc 0)) (\<lambda>i. (16908288 :: 32 word) < cr_start ([\<lparr>cr_start = 16777216, cr_end = 33554431, cr_country = ''US''\<rparr>,
       \<lparr>cr_start = 16842752, cr_end = 16843007, cr_country = ''AU''\<rparr>] ! i)) = Suc (Suc 0)"
    by (simp add: searchLoop.simps [of 0 "Suc (Suc 0)"] searchLoop.simps [of "Suc (Suc 0)"])
  then show ?thesis by (simp add: countryOf_def sortSearch_def Let_def)
qed

text \<open>
  A country or an AS is only ever reported for a globally routable IPv4 address: every special-use,
  IPv6 or unreadable address carries its class alone.
\<close>

theorem only_global_addresses_are_located:
  assumes "l_Country (Locate ps r ip) \<noteq> [] \<or> l_ASN (Locate ps r ip) \<noteq> 0 \<or> l_Source (Locate ps r ip) \<noteq> []"
  shows "l_Scope (Locate ps r ip) = ''global'' \<and>
    (\<exists>v. parseAddr ps ip = Some (V4 v) \<and> \<not> IsPrivate (V4 v) \<and> \<not> IsLoopback (V4 v) \<and> specialScope specialRanges (V4 v) = None)"
  using assms
  by (auto simp: Locate_def scopeOnly_def Let_def countryOf_def asnOf_def split: option.splits if_splits netAddr.splits prod.splits)

lemma country_lookup_exact_witness:
  "\<exists>r'. LoadCSV \<lparr>ps_addr = (\<lambda>_. None), ps_addrPort = (\<lambda>_. None), ps_prefix = (\<lambda>_. None)\<rparr> (sort_key cr_start)
        (Inr [Inl ''bad quoting'', Inr [''16777216'', ''16777471'', ''AU'']]) NewResolver = (Ok 1, r') \<and>
     countryOf r' (V4 16777300) = Some ''AU''"
proof -
  let ?ps = "\<lparr>ps_addr = (\<lambda>_. None), ps_addrPort = (\<lambda>_. None), ps_prefix = (\<lambda>_. None)\<rparr> :: parsers"
  let ?rows = "[Inl ''bad quoting'', Inr [''16777216'', ''16777471'', ''AU'']] :: (string + string list) list"
  let ?c = "\<lparr>cr_start = 16777216, cr_end = 16777471, cr_country = ''AU''\<rparr>"
  have b: "parseBound ?ps ''16777216'' = Some 16777216" "parseBound ?ps ''16777471'' = Some 16777471" "countryCode ''AU'' = ''AU''"
    "\<not> isComment [''16777216'', ''16777471'', ''AU'']"
    by code_simp+
  have p: "parseRecord ?ps [''16777216'', ''16777471'', ''AU''] = Some ?c"
    using b by (simp add: parseRecord_def Let_def)
  then have rs: "List.map_filter (parseRecord ?ps) (okRows ?rows) = [?c]" by (simp add: List.map_filter_simps)
  obtain res r' where l: "LoadCSV ?ps (sort_key cr_start) (Inr ?rows) NewResolver = (res, r')"
    by (cases "LoadCSV ?ps (sort_key cr_start) (Inr ?rows) NewResolver")
  have "countryOf r' (V4 16777300) = Some ''AU''"
    using country_lookup_exact [OF l, of 16777300 "''AU''"] p rs by (simp add: apart_def)
  moreover have "res = Ok 1" using l rs by (auto simp: LoadCSV_def Let_def)
  ultimately show ?thesis using l by blast
qed

lemma only_global_addresses_are_located_witness:
  "l_Scope (Locate \<lparr>ps_addr = (\<lambda>_. Some (V4 16777300)), ps_addrPort = (\<lambda>_. None), ps_prefix = (\<lambda>_. None)\<rparr>
      \<lparr>ranges = [\<lparr>cr_start = 16777216, cr_end = 16777471, cr_country = ''AU''\<rparr>], asnRanges = []\<rparr> ''1.0.0.84'') = ''global''"
  by (rule conjunct1 [OF only_global_addresses_are_located])
     (simp add: Locate_def parseAddr_def Unmap_def IsUnspecified_def IsLoopback_def IsMulticast_def IsLinkLocalUnicast_def IsPrivate_def
        octet_def specialRanges_def PrefixContains_def ip4_def countryOf_def asnOf_def sortSearch_def searchLoop.simps scopeOnly_def Let_def)

end
