(* ===== verification/PortalOverview.thy ===== *)
theory PortalOverview
  imports PortalFeed GoCollect Geo
begin

text \<open>
  The dashboard's overview (\<^verbatim>\<open>internal/portal/overview.go\<close>): one pass over the log that keeps, in Go maps, a
  row, the signals and the visit counter of every source, the exposure of every listener port and the
  client strings, followed by the roll-ups by country and by operator.  The day of the clock is the
  parameter \<open>today\<close>; a Go map used as a set is a list.
  Shown: the row of a source carries the verdict, the visits and the dates that a separate reading of that
  source's events gives, so the list and the per-address page agree, and every counted event and
  every source is accounted for in each of the breakdowns.
\<close>

definition overviewSourceCap :: nat where "overviewSourceCap = 300"
definition agentCap :: nat where "agentCap = 50"

record overviewSource =
  os_IP :: string
  os_Country :: string
  os_ASN :: "32 word"
  os_Org :: string
  os_Scope :: string
  os_Events :: nat
  os_Sessions :: nat
  os_FirstSeen :: string
  os_LastSeen :: string
  os_Protocols :: "string list"
  os_Ports :: "int list"
  os_Scanned :: bool
  os_Kind :: string
  os_Confidence :: int
  os_Visits :: nat
  os_Returning :: bool

record portStat =
  po_Port :: int
  po_Protocol :: string
  po_Hits :: nat
  po_Scans :: nat

record countryStat =
  cs_Country :: string
  cs_Sources :: nat
  cs_Events :: nat

record ispStat =
  is_ASN :: "32 word"
  is_Org :: string
  is_Sources :: nat
  is_Events :: nat

record agentStat =
  ag_Agent :: string
  ag_Count :: nat
  ag_Sources :: nat

record ov_totals =
  ct_events :: nat
  ct_sessions :: nat
  ct_scans :: nat
  ct_creds :: nat
  ct_https :: nat
  ct_downloads :: nat
  ct_execs :: nat
  ct_bait :: nat

record ov_today =
  td_sessions :: nat
  td_scans :: nat
  td_downloads :: nat
  td_bait :: nat
  td_src :: "string list"

text \<open>The local variables of the pass.\<close>

record ov_state =
  ov_bySrc :: "(string, overviewSource) gomap"
  ov_order :: "string list"
  ov_sessSeen :: "(string, string list) gomap"
  ov_protoSeen :: "(string, string list) gomap"
  ov_portSeen :: "(string, int list) gomap"
  ov_sigBySrc :: "(string, sourceSignals) gomap"
  ov_visitLast :: "(string, int) gomap"
  ov_visitCount :: "(string, nat) gomap"
  ov_portStats :: "(int, portStat) gomap"
  ov_uaStats :: "(string, agentStat) gomap"
  ov_uaSrcSeen :: "(string, string list) gomap"
  ov_totals :: ov_totals
  ov_today :: ov_today

definition ovInit :: ov_state where
  "ovInit = \<lparr>ov_bySrc = [], ov_order = [], ov_sessSeen = [], ov_protoSeen = [], ov_portSeen = [], ov_sigBySrc = [],
     ov_visitLast = [], ov_visitCount = [], ov_portStats = [], ov_uaStats = [], ov_uaSrcSeen = [],
     ov_totals = \<lparr>ct_events = 0, ct_sessions = 0, ct_scans = 0, ct_creds = 0, ct_https = 0, ct_downloads = 0,
       ct_execs = 0, ct_bait = 0\<rparr>,
     ov_today = \<lparr>td_sessions = 0, td_scans = 0, td_downloads = 0, td_bait = 0, td_src = []\<rparr>\<rparr>"

definition countTotals :: "Entry \<Rightarrow> ov_totals \<Rightarrow> ov_totals" where
  "countTotals e t =
    (let t = t\<lparr>ct_events := ct_events t + 1\<rparr>
     in if e_Event e = ''PORT_SCAN'' then t\<lparr>ct_scans := ct_scans t + 1\<rparr>
        else if e_Event e = ''SESSION_START'' then t\<lparr>ct_sessions := ct_sessions t + 1\<rparr>
        else if e_Event e = ''CREDENTIAL'' then t\<lparr>ct_creds := ct_creds t + 1\<rparr>
        else if e_Event e = ''HTTP_REQUEST'' \<or> e_Event e = ''HTTP_POST'' then t\<lparr>ct_https := ct_https t + 1\<rparr>
        else if e_Event e = ''DOWNLOAD_ATTEMPT'' then t\<lparr>ct_downloads := ct_downloads t + 1\<rparr>
        else if e_Event e = ''EXEC_ATTEMPT'' then t\<lparr>ct_execs := ct_execs t + 1\<rparr>
        else if e_Event e = ''HONEYTOKEN'' then t\<lparr>ct_bait := ct_bait t + 1\<rparr>
        else t)"

definition countToday :: "string \<Rightarrow> Entry \<Rightarrow> ov_today \<Rightarrow> ov_today" where
  "countToday today e t =
    (if length (e_Time e) \<ge> 10 \<and> take 10 (e_Time e) = today then
       let t = t\<lparr>td_src := addOnce (srcOf e) (td_src t)\<rparr>
       in if e_Event e = ''SESSION_START'' then t\<lparr>td_sessions := td_sessions t + 1\<rparr>
          else if e_Event e = ''PORT_SCAN'' then t\<lparr>td_scans := td_scans t + 1\<rparr>
          else if e_Event e = ''DOWNLOAD_ATTEMPT'' then t\<lparr>td_downloads := td_downloads t + 1\<rparr>
          else if e_Event e = ''HONEYTOKEN'' then t\<lparr>td_bait := td_bait t + 1\<rparr>
          else t
     else t)"

definition newRow :: "Location \<Rightarrow> string \<Rightarrow> string \<Rightarrow> overviewSource" where
  "newRow loc s t =
    \<lparr>os_IP = s, os_Country = l_Country loc, os_ASN = l_ASN loc, os_Org = l_Org loc, os_Scope = l_Scope loc,
     os_Events = 0, os_Sessions = 0, os_FirstSeen = t, os_LastSeen = [], os_Protocols = [], os_Ports = [],
     os_Scanned = False, os_Kind = [], os_Confidence = 0, os_Visits = 0, os_Returning = False\<rparr>"

definition openRow :: "(string \<Rightarrow> Location) \<Rightarrow> Entry \<Rightarrow> ov_state \<Rightarrow> ov_state" where
  "openRow locate e st =
    (let s = srcOf e
     in if mget (ov_bySrc st) s = None then
          st\<lparr>ov_bySrc := mput s (newRow (locate s) s (e_Time e)) (ov_bySrc st), ov_order := ov_order st @ [s],
             ov_sessSeen := mput s [] (ov_sessSeen st), ov_protoSeen := mput s [] (ov_protoSeen st),
             ov_portSeen := mput s [] (ov_portSeen st)\<rparr>
        else st)"

definition foldSignals :: "(string \<Rightarrow> int option) \<Rightarrow> Entry \<Rightarrow> ov_state \<Rightarrow> ov_state" where
  "foldSignals rfc e st =
    (let s = srcOf e;
         fresh = (mget (ov_sigBySrc st) s = None);
         sig = mgetOr noSignals (ov_sigBySrc st) s;
         vc = (if fresh then 1 else mgetOr 0 (ov_visitCount st) s);
         ms = entryMs rfc e;
         vl = mgetOr 0 (ov_visitLast st) s;
         vc = (if \<not> fresh \<and> ms \<noteq> 0 \<and> vl \<noteq> 0 \<and> wrap64 (ms - vl) > visitGapMs then vc + 1 else vc)
     in st\<lparr>ov_sigBySrc := mput s (observe rfc e sig) (ov_sigBySrc st),
           ov_visitCount := mput s vc (ov_visitCount st),
           ov_visitLast := if ms \<noteq> 0 then mput s ms (ov_visitLast st) else ov_visitLast st\<rparr>)"

definition countRow :: "Entry \<Rightarrow> ov_state \<Rightarrow> ov_state" where
  "countRow e st =
    (let s = srcOf e;
         sess = mgetOr [] (ov_sessSeen st) s;
         proto = mgetOr [] (ov_protoSeen st) s;
         ports = mgetOr [] (ov_portSeen st) s;
         newSess = (e_Session e \<noteq> [] \<and> e_Session e \<notin> set sess);
         newProto = (e_Protocol e \<noteq> [] \<and> e_Protocol e \<notin> set proto);
         newPort = (e_Port e > 0 \<and> e_Port e \<notin> set ports)
     in case mget (ov_bySrc st) s of
          None \<Rightarrow> st
        | Some row \<Rightarrow>
            st\<lparr>ov_bySrc := mput s
                 (row\<lparr>os_Events := os_Events row + 1, os_LastSeen := e_Time e,
                      os_Sessions := if newSess then os_Sessions row + 1 else os_Sessions row,
                      os_Protocols := if newProto then os_Protocols row @ [e_Protocol e] else os_Protocols row,
                      os_Ports := if newPort then os_Ports row @ [e_Port e] else os_Ports row,
                      os_Scanned := os_Scanned row \<or> e_Event e = ''PORT_SCAN''\<rparr>) (ov_bySrc st),
               ov_sessSeen := if newSess then mput s (e_Session e # sess) (ov_sessSeen st) else ov_sessSeen st,
               ov_protoSeen := if newProto then mput s (e_Protocol e # proto) (ov_protoSeen st) else ov_protoSeen st,
               ov_portSeen := if newPort then mput s (e_Port e # ports) (ov_portSeen st) else ov_portSeen st\<rparr>)"

definition countPort :: "Entry \<Rightarrow> (int, portStat) gomap \<Rightarrow> (int, portStat) gomap" where
  "countPort e m =
    (if e_Port e > 0 then
       let ps = mgetOr \<lparr>po_Port = e_Port e, po_Protocol = e_Protocol e, po_Hits = 0, po_Scans = 0\<rparr> m (e_Port e);
           ps = (if po_Protocol ps = [] then ps\<lparr>po_Protocol := e_Protocol e\<rparr> else ps)
       in mput (e_Port e)
            (ps\<lparr>po_Hits := po_Hits ps + 1,
                po_Scans := if e_Event e = ''PORT_SCAN'' then po_Scans ps + 1 else po_Scans ps\<rparr>) m
     else m)"

definition countAgent :: "Entry \<Rightarrow> ov_state \<Rightarrow> ov_state" where
  "countAgent e st =
    (if e_UserAgent e \<noteq> [] then
       let k = e_UserAgent e;
           ua = mgetOr \<lparr>ag_Agent = k, ag_Count = 0, ag_Sources = 0\<rparr> (ov_uaStats st) k;
           seen = mgetOr [] (ov_uaSrcSeen st) k;
           new = (srcOf e \<notin> set seen)
       in st\<lparr>ov_uaStats := mput k
               (ua\<lparr>ag_Count := ag_Count ua + 1, ag_Sources := if new then ag_Sources ua + 1 else ag_Sources ua\<rparr>) (ov_uaStats st),
             ov_uaSrcSeen := mput k (if new then srcOf e # seen else seen) (ov_uaSrcSeen st)\<rparr>
     else st)"

definition counted :: "Entry \<Rightarrow> bool" where
  "counted e = (e_Event e \<noteq> [] \<and> e_Event e \<noteq> ''SYSTEM'' \<and> srcOf e \<noteq> [])"

definition overviewStep :: "(string \<Rightarrow> int option) \<Rightarrow> (string \<Rightarrow> Location) \<Rightarrow> string \<Rightarrow> ov_state \<Rightarrow> Entry \<Rightarrow> ov_state" where
  "overviewStep rfc locate today st e =
    (if \<not> counted e then st
     else let st = st\<lparr>ov_totals := countTotals e (ov_totals st), ov_today := countToday today e (ov_today st)\<rparr>;
              st = countRow e (foldSignals rfc e (openRow locate e st));
              st = st\<lparr>ov_portStats := countPort e (ov_portStats st)\<rparr>
          in countAgent e st)"

text \<open>The verdict, the visit count and the returning mark, put on each row after the pass.\<close>

definition tagRow :: "ov_state \<Rightarrow> string \<Rightarrow> overviewSource \<Rightarrow> overviewSource" where
  "tagRow st s row =
    (let vc = mgetOr 0 (ov_visitCount st) s; row = row\<lparr>os_Visits := vc\<rparr>
     in case mget (ov_sigBySrc st) s of
          None \<Rightarrow> row
        | Some sig \<Rightarrow>
            let (kind, conf, _) = verdict sig
            in row\<lparr>os_Kind := kind, os_Confidence := conf,
                   os_Returning := vc \<ge> 2 \<or> (os_Scanned row \<and> (g_commands sig > 0 \<or> g_sessions sig > 0))\<rparr>)"

fun rowsOf :: "ov_state \<Rightarrow> string list \<Rightarrow> overviewSource list" where
  "rowsOf st [] = []"
| "rowsOf st (s # order) =
    (case mget (ov_bySrc st) s of Some row \<Rightarrow> tagRow st s row # rowsOf st order | None \<Rightarrow> rowsOf st order)"

definition topSources :: "overviewSource list \<Rightarrow> overviewSource list" where
  "topSources rows =
    take overviewSourceCap (sliceStable (\<lambda>a b.
      if os_Events a \<noteq> os_Events b then os_Events a > os_Events b else strLess (os_LastSeen b) (os_LastSeen a)) rows)"

definition sortedPorts :: "portStat list \<Rightarrow> portStat list" where
  "sortedPorts ps = sliceStable (\<lambda>a b. if po_Hits a \<noteq> po_Hits b then po_Hits a > po_Hits b else po_Port a < po_Port b) ps"

definition orElse :: "string \<Rightarrow> string \<Rightarrow> string" where
  "orElse s d = (if s = [] then d else s)"

definition countryKey :: "overviewSource \<Rightarrow> string" where
  "countryKey row = orElse (orElse (os_Country row) (os_Scope row)) ''unknown''"

definition ispKey :: "overviewSource \<Rightarrow> string" where
  "ispKey row =
    (let k = os_Org row; k = (if k = [] \<and> os_ASN row \<noteq> 0 then ''AS'' @ Itoa (uint (os_ASN row)) else k)
     in orElse (orElse k (os_Scope row)) ''unknown'')"

definition countryStep :: "(string, countryStat) gomap \<Rightarrow> overviewSource \<Rightarrow> (string, countryStat) gomap" where
  "countryStep agg row =
    (let k = countryKey row; cs = mgetOr \<lparr>cs_Country = k, cs_Sources = 0, cs_Events = 0\<rparr> agg k
     in mput k (cs\<lparr>cs_Sources := cs_Sources cs + 1, cs_Events := cs_Events cs + os_Events row\<rparr>) agg)"

definition ispStep :: "(string, ispStat) gomap \<Rightarrow> overviewSource \<Rightarrow> (string, ispStat) gomap" where
  "ispStep agg row =
    (let k = ispKey row; i = mgetOr \<lparr>is_ASN = os_ASN row, is_Org = k, is_Sources = 0, is_Events = 0\<rparr> agg k
     in mput k (i\<lparr>is_Sources := is_Sources i + 1, is_Events := is_Events i + os_Events row\<rparr>) agg)"

text \<open>The keys are kept in the order of first use, which is the order of the association list.\<close>

definition countryRollup :: "overviewSource list \<Rightarrow> countryStat list" where
  "countryRollup rows =
    sliceStable (\<lambda>a b. if cs_Sources a \<noteq> cs_Sources b then cs_Sources a > cs_Sources b else cs_Events a > cs_Events b)
      (map snd (foldl countryStep [] rows))"

definition ispRollup :: "overviewSource list \<Rightarrow> ispStat list" where
  "ispRollup rows =
    sliceStable (\<lambda>a b. if is_Sources a \<noteq> is_Sources b then is_Sources a > is_Sources b else is_Events a > is_Events b)
      (map snd (foldl ispStep [] rows))"

definition topAgents :: "agentStat list \<Rightarrow> agentStat list" where
  "topAgents uas =
    take agentCap (sliceStable (\<lambda>a b. if ag_Count a \<noteq> ag_Count b then ag_Count a > ag_Count b else strLess (ag_Agent a) (ag_Agent b)) uas)"

record ov_reply =
  rp_totals :: ov_totals
  rp_sourceCount :: nat
  rp_agentCount :: nat
  rp_today :: "ov_today option"
  rp_by_port :: "portStat list"
  rp_by_country :: "countryStat list"
  rp_by_isp :: "ispStat list"
  rp_user_agents :: "agentStat list"
  rp_sources :: "overviewSource list"
  rp_geo_active :: bool
  rp_asn_active :: bool
  rp_version :: "string option"

definition emptyOverview :: "Resolver \<Rightarrow> ov_reply" where
  "emptyOverview r = \<lparr>rp_totals = ov_totals ovInit, rp_sourceCount = 0, rp_agentCount = 0, rp_today = None, rp_by_port = [],
     rp_by_country = [], rp_by_isp = [], rp_user_agents = [], rp_sources = [], rp_geo_active = Loaded r > 0,
     rp_asn_active = AsnLoaded r > 0, rp_version = None\<rparr>"

definition overview ::
  "(string \<Rightarrow> int option) \<Rightarrow> (string \<Rightarrow> Entry option) \<Rightarrow> parsers \<Rightarrow> Resolver \<Rightarrow> string \<Rightarrow> string \<Rightarrow> string option \<Rightarrow> ov_reply" where
  "overview rfc unmarshal ps r today version logFile =
    (let (entries, err) = readEntries unmarshal logFile (\<lambda>_. True)
     in if err then emptyOverview r
        else let st = foldl (overviewStep rfc (Locate ps r) today) ovInit entries; rows = rowsOf st (ov_order st)
             in \<lparr>rp_totals = ov_totals st, rp_sourceCount = length (ov_order st), rp_agentCount = length (ov_uaStats st),
                 rp_today = Some (ov_today st), rp_by_port = sortedPorts (map snd (ov_portStats st)),
                 rp_by_country = countryRollup rows, rp_by_isp = ispRollup rows,
                 rp_user_agents = topAgents (map snd (ov_uaStats st)), rp_sources = topSources rows,
                 rp_geo_active = Loaded r > 0, rp_asn_active = AsnLoaded r > 0, rp_version = Some version\<rparr>)"


section \<open>The list agrees with the per-address reading\<close>

definition ofSource :: "string \<Rightarrow> Entry \<Rightarrow> bool" where
  "ofSource s e = (counted e \<and> srcOf e = s)"

definition history :: "(string \<Rightarrow> int option) \<Rightarrow> string \<Rightarrow> Entry list \<Rightarrow> analysis" where
  "history rfc s es = foldl (analyzeStep rfc) noHistory (filter (ofSource s) es)"

lemma observe_scanned: "g_scanned (observe rfc e s) = (g_scanned s \<or> e_Event e = ''PORT_SCAN'')"
  by (simp add: observe_def observeGap_def Let_def)

lemma analyzeStep_fields:
  "az_sig (analyzeStep rfc a e) = observe rfc e (az_sig a)"
  "az_prevMs (analyzeStep rfc a e) = (if entryMs rfc e \<noteq> 0 then entryMs rfc e else az_prevMs a)"
  "length (az_visits (analyzeStep rfc a e)) =
     (if az_visits a = [] \<or> comesBack (az_prevMs a) (entryMs rfc e) then length (az_visits a) + 1 else length (az_visits a))"
  by (simp_all add: analyzeStep_def Let_def)

lemma noHistory_simps [simp]:
  "az_sig noHistory = noSignals" "az_visits noHistory = []" "az_prevMs noHistory = 0" "\<not> g_scanned noSignals"
  by (simp_all add: noHistory_def noSignals_def)

text \<open>Which part of the state each step of the pass leaves alone.\<close>

lemma countAgent_frame [simp]:
  "ov_bySrc (countAgent e st) = ov_bySrc st" "ov_order (countAgent e st) = ov_order st"
  "ov_sigBySrc (countAgent e st) = ov_sigBySrc st" "ov_visitCount (countAgent e st) = ov_visitCount st"
  "ov_visitLast (countAgent e st) = ov_visitLast st" "ov_totals (countAgent e st) = ov_totals st"
  by (simp_all add: countAgent_def Let_def)

lemma countRow_frame [simp]:
  "ov_order (countRow e st) = ov_order st" "ov_sigBySrc (countRow e st) = ov_sigBySrc st"
  "ov_visitCount (countRow e st) = ov_visitCount st" "ov_visitLast (countRow e st) = ov_visitLast st"
  "ov_totals (countRow e st) = ov_totals st"
  by (simp_all add: countRow_def Let_def split: option.split)

lemma foldSignals_frame [simp]:
  "ov_bySrc (foldSignals rfc e st) = ov_bySrc st" "ov_order (foldSignals rfc e st) = ov_order st"
  "ov_totals (foldSignals rfc e st) = ov_totals st"
  by (simp_all add: foldSignals_def Let_def)

lemma openRow_frame [simp]:
  "ov_sigBySrc (openRow locate e st) = ov_sigBySrc st" "ov_visitCount (openRow locate e st) = ov_visitCount st"
  "ov_visitLast (openRow locate e st) = ov_visitLast st" "ov_totals (openRow locate e st) = ov_totals st"
  by (simp_all add: openRow_def Let_def)

text \<open>What one counted event does to the maps of the sources.\<close>

definition counters :: "string \<Rightarrow> Entry \<Rightarrow> ov_state \<Rightarrow> ov_state" where
  "counters today e st = st\<lparr>ov_totals := countTotals e (ov_totals st), ov_today := countToday today e (ov_today st)\<rparr>"

lemma counters_frame [simp]:
  "ov_bySrc (counters today e st) = ov_bySrc st" "ov_order (counters today e st) = ov_order st"
  "ov_sigBySrc (counters today e st) = ov_sigBySrc st" "ov_visitCount (counters today e st) = ov_visitCount st"
  "ov_visitLast (counters today e st) = ov_visitLast st" "ov_totals (counters today e st) = countTotals e (ov_totals st)"
  by (simp_all add: counters_def)

lemma overviewStep_counted:
  "counted e \<Longrightarrow> overviewStep rfc locate today st e =
    (let st = countRow e (foldSignals rfc e (openRow locate e (counters today e st)))
     in countAgent e (st\<lparr>ov_portStats := countPort e (ov_portStats st)\<rparr>))"
  by (simp only: overviewStep_def counters_def Let_def not_True_eq_False if_False)

lemma step_row:
  assumes "counted e"
  shows "\<exists>row. mget (ov_bySrc (overviewStep rfc locate today st e)) (srcOf e) = Some row \<and>
    (let old = mgetOr (newRow (locate (srcOf e)) (srcOf e) (e_Time e)) (ov_bySrc st) (srcOf e)
     in os_IP row = os_IP old \<and> os_Country row = os_Country old \<and> os_ASN row = os_ASN old \<and> os_Org row = os_Org old \<and>
        os_Scope row = os_Scope old \<and> os_Events row = os_Events old + 1 \<and> os_FirstSeen row = os_FirstSeen old \<and>
        os_LastSeen row = e_Time e \<and> os_Scanned row = (os_Scanned old \<or> e_Event e = ''PORT_SCAN''))"
  using assms
  by (cases "mget (ov_bySrc st) (srcOf e)")
     (simp_all add: overviewStep_counted Let_def countRow_def openRow_def mgetOr_def)

lemma step_other:
  "s \<noteq> srcOf e \<Longrightarrow> counted e \<Longrightarrow> mget (ov_bySrc (overviewStep rfc locate today st e)) s = mget (ov_bySrc st) s"
  by (cases "mget (ov_bySrc st) (srcOf e)")
     (simp_all add: overviewStep_counted Let_def countRow_def openRow_def)

lemma step_signals:
  assumes "counted e"
  shows "mget (ov_sigBySrc (overviewStep rfc locate today st e)) s =
    (if s = srcOf e then Some (observe rfc e (mgetOr noSignals (ov_sigBySrc st) s)) else mget (ov_sigBySrc st) s)"
    and "mget (ov_visitCount (overviewStep rfc locate today st e)) s =
    (if s = srcOf e then
       Some (if mget (ov_sigBySrc st) s = None then 1
             else mgetOr 0 (ov_visitCount st) s + (if comesBack (mgetOr 0 (ov_visitLast st) s) (entryMs rfc e) then 1 else 0))
     else mget (ov_visitCount st) s)"
    and "mgetOr 0 (ov_visitLast (overviewStep rfc locate today st e)) s =
    (if s = srcOf e \<and> entryMs rfc e \<noteq> 0 then entryMs rfc e else mgetOr 0 (ov_visitLast st) s)"
  using assms by (simp_all add: overviewStep_counted Let_def foldSignals_def comesBack_def)

lemma step_order:
  assumes "counted e"
  shows "ov_order (overviewStep rfc locate today st e) =
    (if mget (ov_bySrc st) (srcOf e) = None then ov_order st @ [srcOf e] else ov_order st)"
  using assms by (simp add: overviewStep_counted Let_def openRow_def)

lemma step_totals: "ct_events (ov_totals (overviewStep rfc locate today st e)) =
    ct_events (ov_totals st) + (if counted e then 1 else 0)"
proof (cases "counted e")
  case True
  have "ct_events (countTotals e t) = ct_events t + 1" for t by (simp add: countTotals_def Let_def)
  then show ?thesis using True by (simp add: overviewStep_counted Let_def)
next
  case False
  then show ?thesis by (simp only: overviewStep_def) simp
qed

text \<open>What the maps hold of source \<open>s\<close> once the entries \<open>es\<close> have been read.\<close>

definition rowOf :: "(string \<Rightarrow> int option) \<Rightarrow> (string \<Rightarrow> Location) \<Rightarrow> string \<Rightarrow> Entry list \<Rightarrow> ov_state \<Rightarrow> overviewSource \<Rightarrow> bool" where
  "rowOf rfc locate s es st row = (let F = filter (ofSource s) es; a = history rfc s es in
     os_IP row = s \<and> os_Country row = l_Country (locate s) \<and> os_ASN row = l_ASN (locate s) \<and>
     os_Org row = l_Org (locate s) \<and> os_Scope row = l_Scope (locate s) \<and> os_Events row = length F \<and>
     os_FirstSeen row = e_Time (hd F) \<and> os_LastSeen row = e_Time (last F) \<and> os_Scanned row = g_scanned (az_sig a) \<and>
     mget (ov_sigBySrc st) s = Some (az_sig a) \<and> mget (ov_visitCount st) s = Some (length (az_visits a)) \<and>
     az_visits a \<noteq> [])"

definition ovInv :: "(string \<Rightarrow> int option) \<Rightarrow> (string \<Rightarrow> Location) \<Rightarrow> Entry list \<Rightarrow> ov_state \<Rightarrow> bool" where
  "ovInv rfc locate es st \<longleftrightarrow>
    (\<forall>s. mgetOr 0 (ov_visitLast st) s = az_prevMs (history rfc s es) \<and>
       (if filter (ofSource s) es = [] then mget (ov_bySrc st) s = None \<and> mget (ov_sigBySrc st) s = None
        else \<exists>row. mget (ov_bySrc st) s = Some row \<and> rowOf rfc locate s es st row)) \<and>
    distinct (ov_order st) \<and> (\<forall>s. s \<in> set (ov_order st) \<longleftrightarrow> filter (ofSource s) es \<noteq> [])"

lemma history_snoc:
  "history rfc s (es @ [e]) = (if ofSource s e then analyzeStep rfc (history rfc s es) e else history rfc s es)"
  by (simp add: history_def)

lemma history_none: "filter (ofSource s) es = [] \<Longrightarrow> history rfc s es = noHistory"
  by (simp add: history_def)


lemma rowOf_other: "\<not> ofSource s e \<Longrightarrow> rowOf rfc locate s (es @ [e]) st row = rowOf rfc locate s es st row"
  by (simp add: rowOf_def history_snoc)

lemma rowOf_state:
  "mget (ov_sigBySrc st') s = mget (ov_sigBySrc st) s \<Longrightarrow> mget (ov_visitCount st') s = mget (ov_visitCount st) s \<Longrightarrow>
   rowOf rfc locate s es st' row = rowOf rfc locate s es st row"
  by (simp add: rowOf_def)

lemma ovInv_init: "ovInv rfc locate [] ovInit"
  by (simp add: ovInv_def ovInit_def history_def noHistory_def mgetOr_def)

lemma ovInv_step:
  assumes inv: "ovInv rfc locate es st"
  shows "ovInv rfc locate (es @ [e]) (overviewStep rfc locate today st e)"
proof (cases "counted e")
  case False
  then have "overviewStep rfc locate today st e = st" "\<And>s. \<not> ofSource s e"
    by (simp_all only: overviewStep_def ofSource_def) simp_all
  then show ?thesis using inv by (simp add: ovInv_def rowOf_other history_snoc)
next
  case True
  let ?st = "overviewStep rfc locate today st e"
  have src: "ofSource s e \<longleftrightarrow> s = srcOf e" for s using True by (auto simp: ofSource_def)
  have last: "mgetOr 0 (ov_visitLast ?st) s = az_prevMs (history rfc s (es @ [e]))" for s
    using inv True by (simp add: step_signals history_snoc src analyzeStep_fields ovInv_def)
  have other: "if filter (ofSource s) (es @ [e]) = [] then mget (ov_bySrc ?st) s = None \<and> mget (ov_sigBySrc ?st) s = None
     else \<exists>row. mget (ov_bySrc ?st) s = Some row \<and> rowOf rfc locate s (es @ [e]) ?st row" if "s \<noteq> srcOf e" for s
  proof -
    have "rowOf rfc locate s (es @ [e]) ?st row = rowOf rfc locate s es st row" for row
    proof -
      have "rowOf rfc locate s (es @ [e]) ?st row = rowOf rfc locate s es ?st row" using that src by (intro rowOf_other) simp
      also have "\<dots> = rowOf rfc locate s es st row" using that True by (intro rowOf_state) (simp_all add: step_signals)
      finally show ?thesis .
    qed
    then show ?thesis using inv that True by (simp add: ovInv_def src step_other step_signals)
  qed
  have order: "distinct (ov_order ?st)" "s \<in> set (ov_order ?st) \<longleftrightarrow> filter (ofSource s) (es @ [e]) \<noteq> []" for s
  proof -
    have "mget (ov_bySrc st) (srcOf e) = None \<longleftrightarrow> filter (ofSource (srcOf e)) es = []"
      "distinct (ov_order st)" "\<And>s. s \<in> set (ov_order st) \<longleftrightarrow> filter (ofSource s) es \<noteq> []"
      using inv unfolding ovInv_def by (metis option.distinct(1))+
    then show "distinct (ov_order ?st)" "s \<in> set (ov_order ?st) \<longleftrightarrow> filter (ofSource s) (es @ [e]) \<noteq> []"
      using step_order [OF True, of rfc locate today st] src [of s] by simp_all
  qed
  have own: "\<exists>row. mget (ov_bySrc ?st) (srcOf e) = Some row \<and> rowOf rfc locate (srcOf e) (es @ [e]) ?st row"
  proof (cases "filter (ofSource (srcOf e)) es = []")
    case True
    then have none: "mget (ov_bySrc st) (srcOf e) = None" "mget (ov_sigBySrc st) (srcOf e) = None" using inv by (simp_all add: ovInv_def)
    have h: "history rfc (srcOf e) (es @ [e]) = analyzeStep rfc noHistory e" using True src by (simp add: history_snoc history_none)
    have v: "length (az_visits (analyzeStep rfc noHistory e)) = 1" by (simp add: analyzeStep_fields)
    then have "az_visits (analyzeStep rfc noHistory e) \<noteq> []" by (metis length_0_conv zero_neq_one)
    moreover have "mget (ov_sigBySrc ?st) (srcOf e) = Some (az_sig (analyzeStep rfc noHistory e))"
      "mget (ov_visitCount ?st) (srcOf e) = Some (length (az_visits (analyzeStep rfc noHistory e)))"
      using none v by (simp_all add: step_signals [OF \<open>counted e\<close>] analyzeStep_fields(1) mgetOr_def)
    ultimately show ?thesis
      using step_row [OF \<open>counted e\<close>, of rfc locate today st] none True src
      by (auto simp: rowOf_def Let_def h mgetOr_def newRow_def analyzeStep_fields(1) observe_scanned)
  next
    case False
    then obtain row where old: "mget (ov_bySrc st) (srcOf e) = Some row" "rowOf rfc locate (srcOf e) es st row"
      using inv unfolding ovInv_def by metis
    let ?a = "history rfc (srcOf e) es"
    have h: "history rfc (srcOf e) (es @ [e]) = analyzeStep rfc ?a e" using src by (simp add: history_snoc)
    have sig: "mget (ov_sigBySrc st) (srcOf e) = Some (az_sig ?a)" "mgetOr 0 (ov_visitCount st) (srcOf e) = length (az_visits ?a)"
      "az_visits ?a \<noteq> []" "mgetOr 0 (ov_visitLast st) (srcOf e) = az_prevMs ?a"
      using old(2) inv by (simp_all add: rowOf_def Let_def mgetOr_def ovInv_def)
    have vis: "length (az_visits (analyzeStep rfc ?a e)) = length (az_visits ?a) + (if comesBack (az_prevMs ?a) (entryMs rfc e) then 1 else 0)"
      using sig(3) by (simp add: analyzeStep_fields)
    then have "az_visits (analyzeStep rfc ?a e) \<noteq> []" using sig(3) by (metis add_is_0 length_0_conv)
    moreover have "mget (ov_sigBySrc ?st) (srcOf e) = Some (az_sig (analyzeStep rfc ?a e))"
      "mget (ov_visitCount ?st) (srcOf e) = Some (length (az_visits (analyzeStep rfc ?a e)))"
      using sig vis by (simp_all add: step_signals [OF \<open>counted e\<close>] analyzeStep_fields(1) mgetOr_def)
    moreover have "hd (filter (ofSource (srcOf e)) es @ [e]) = hd (filter (ofSource (srcOf e)) es)" using False by simp
    ultimately show ?thesis
      using step_row [OF \<open>counted e\<close>, of rfc locate today st] old False src
      by (auto simp: rowOf_def Let_def h mgetOr_def analyzeStep_fields(1) observe_scanned)
  qed
  show ?thesis unfolding ovInv_def
  proof (intro conjI allI last order)
    fix s
    show "if filter (ofSource s) (es @ [e]) = [] then mget (ov_bySrc ?st) s = None \<and> mget (ov_sigBySrc ?st) s = None
       else \<exists>row. mget (ov_bySrc ?st) s = Some row \<and> rowOf rfc locate s (es @ [e]) ?st row"
      using other [of s] own src [of s] by (cases "s = srcOf e") simp_all
  qed
qed

lemma ovInv_run: "ovInv rfc locate es (foldl (overviewStep rfc locate today) ovInit es)"
  by (induction es rule: rev_induct) (simp_all add: ovInv_init ovInv_step)

lemma ovInv_row:
  "ovInv rfc locate es st \<Longrightarrow> s \<in> set (ov_order st) \<Longrightarrow> \<exists>row. mget (ov_bySrc st) s = Some row \<and> rowOf rfc locate s es st row"
  unfolding ovInv_def by metis

lemma rowsOf_map:
  "\<forall>s\<in>set ss. mget (ov_bySrc st) s \<noteq> None \<Longrightarrow> rowsOf st ss = map (\<lambda>s. tagRow st s (the (mget (ov_bySrc st) s))) ss"
  by (induction ss) auto

lemma tagRow_fields [simp]:
  "os_IP (tagRow st s row) = os_IP row" "os_Events (tagRow st s row) = os_Events row"
  "os_FirstSeen (tagRow st s row) = os_FirstSeen row" "os_LastSeen (tagRow st s row) = os_LastSeen row"
  by (simp_all add: tagRow_def Let_def split: option.split prod.split)

text \<open>What the row of a source says, read off the source's own entries.\<close>

definition rowReads :: "(string \<Rightarrow> int option) \<Rightarrow> Entry list \<Rightarrow> overviewSource \<Rightarrow> bool" where
  "rowReads rfc F row = (let p = analyzeSource rfc F in
     os_Events row = length F \<and> os_FirstSeen row = e_Time (hd F) \<and> os_LastSeen row = e_Time (last F) \<and>
     os_Kind row = as_Kind p \<and> os_Confidence row = as_Confidence p \<and> os_Visits row = length (as_Visits p) \<and>
     os_Returning row = as_Returning p)"

lemma tagRow_reads:
  assumes "rowOf rfc locate s es st row"
  shows "rowReads rfc (filter (ofSource s) es) (tagRow st s row)"
proof -
  let ?a = "foldl (analyzeStep rfc) noHistory (filter (ofSource s) es)"
  obtain kind conf why where v: "verdict (az_sig ?a) = (kind, conf, why)" by (metis prod_cases3)
  have a: "mget (ov_sigBySrc st) s = Some (az_sig ?a)" "mget (ov_visitCount st) s = Some (length (az_visits ?a))"
    "os_Scanned row = g_scanned (az_sig ?a)"
    using assms by (simp_all add: rowOf_def history_def Let_def)
  have "os_Kind (tagRow st s row) = kind" "os_Confidence (tagRow st s row) = conf"
    "os_Visits (tagRow st s row) = length (az_visits ?a)"
    "os_Returning (tagRow st s row) = isReturning (length (az_visits ?a)) (az_sig ?a)"
    using a v by (simp_all add: tagRow_def mgetOr_def isReturning_def Let_def)
  moreover have "as_Kind (analyzeSource rfc (filter (ofSource s) es)) = kind"
    "as_Confidence (analyzeSource rfc (filter (ofSource s) es)) = conf"
    "as_Visits (analyzeSource rfc (filter (ofSource s) es)) = az_visits ?a"
    "as_Returning (analyzeSource rfc (filter (ofSource s) es)) = isReturning (length (az_visits ?a)) (az_sig ?a)"
    using v by (simp_all add: analyzeSource_def Let_def)
  ultimately show ?thesis using assms by (simp add: rowReads_def rowOf_def Let_def)
qed

lemma decode_filter: "decodeLines unmarshal keep ls = filter keep (decodeLines unmarshal (\<lambda>_. True) ls)"
  by (induction ls) (simp_all split: option.split)

lemma read_filter:
  "readEntries unmarshal f keep = (filter keep (fst (readEntries unmarshal f (\<lambda>_. True))), snd (readEntries unmarshal f (\<lambda>_. True)))"
proof (cases f)
  case (Some a)
  then show ?thesis using decode_filter [of unmarshal keep "scanLines maxLine (splitByte LF a)"] by (simp add: readEntries_def Let_def)
qed (simp add: readEntries_def)

text \<open>A row of the list beside the page of an address.\<close>

definition matchesPage :: "overviewSource \<Rightarrow> ip_page \<Rightarrow> bool" where
  "matchesPage row pg \<longleftrightarrow>
     os_Kind row = as_Kind (ipp_profile pg) \<and> os_Confidence row = as_Confidence (ipp_profile pg) \<and>
     os_Visits row = length (as_Visits (ipp_profile pg)) \<and> os_Returning row = as_Returning (ipp_profile pg) \<and>
     os_Events row = ipp_count pg \<and> os_FirstSeen row = e_Time (hd (ipp_entries pg)) \<and>
     os_LastSeen row = e_Time (last (ipp_entries pg))"

text \<open>
  C35: the overview's list agrees with the per-address page.  On every log that can be read, the row of a source
  carries the verdict, confidence, visit count, returning mark, event count and first and last times of the
  separate analysis that the page of that address shows, although the overview computes them for all sources at
  once in one pass, provided no management notice is attributed to the address and no other source's remote
  address is spelled like it.
\<close>

theorem overview_agrees_with_drawer:
  assumes "readEntries unmarshal logFile (\<lambda>_. True) = (es, False)"
    and "row \<in> set (rp_sources (overview rfc unmarshal ps r today version logFile))"
    and "\<forall>e\<in>set es. attributed (os_IP row) e \<longrightarrow> ofSource (os_IP row) e"
  shows "matchesPage row (byIP rfc unmarshal logFile (os_IP row))"
proof -
  let ?st = "foldl (overviewStep rfc (Locate ps r) today) ovInit es"
  have inv: "ovInv rfc (Locate ps r) es ?st" by (rule ovInv_run)
  have "row \<in> set (rowsOf ?st (ov_order ?st))"
    using assms(1,2) by (auto simp: overview_def Let_def topSources_def dest: in_set_takeD)
  moreover have "\<forall>s\<in>set (ov_order ?st). mget (ov_bySrc ?st) s \<noteq> None" using ovInv_row [OF inv] by blast
  ultimately obtain s where s: "s \<in> set (ov_order ?st)" "row = tagRow ?st s (the (mget (ov_bySrc ?st) s))"
    by (auto simp: rowsOf_map)
  then have row: "rowReads rfc (filter (ofSource s) es) row" "os_IP row = s"
    using ovInv_row [OF inv s(1)] tagRow_reads by (auto simp: rowOf_def Let_def)
  have "srcOf e = s \<Longrightarrow> attributed s e" for e by (simp add: attributed_def)
  then have "filter (attributed s) es = filter (ofSource s) es"
    using assms(3) row(2) by (intro filter_cong) (auto simp: ofSource_def)
  then have "ipp_entries (byIP rfc unmarshal logFile s) = filter (ofSource s) es"
    "ipp_profile (byIP rfc unmarshal logFile s) = analyzeSource rfc (filter (ofSource s) es)"
    "ipp_count (byIP rfc unmarshal logFile s) = length (filter (ofSource s) es)"
    using assms(1) read_filter [of unmarshal logFile "attributed s"] by (simp_all add: byIP_def Let_def)
  then show ?thesis using row by (simp add: rowReads_def matchesPage_def Let_def)
qed

definition demoEntry :: "string \<Rightarrow> Entry" where
  "demoEntry c = emptyEntry\<lparr>e_Time := ''2024-01-01T00:00:00Z'', e_EpochMs := 1, e_Event := ''COMMAND'', e_SrcIP := ''192.0.2.7'',
     e_IP := ''192.0.2.7:4000'', e_Command := c\<rparr>"

definition demoReader :: "string \<Rightarrow> Entry option" where
  "demoReader l = (if l = ''x'' then None else Some (demoEntry l))"

definition demoParsers :: parsers where
  "demoParsers = \<lparr>ps_addr = (\<lambda>_. None), ps_addrPort = (\<lambda>_. None), ps_prefix = (\<lambda>_. None)\<rparr>"

lemma overview_agrees_with_drawer_witness:
  "\<exists>row. rp_sources (overview (\<lambda>_. None) demoReader demoParsers NewResolver [] [] (Some (''chpasswd'' @ [LF] @ ''x'' @ [LF]))) = [row] \<and>
     os_IP row = ''192.0.2.7'' \<and>
     matchesPage row (byIP (\<lambda>_. None) demoReader (Some (''chpasswd'' @ [LF] @ ''x'' @ [LF])) ''192.0.2.7'')"
proof -
  let ?f = "Some (''chpasswd'' @ [LF] @ ''x'' @ [LF])" and ?e = "demoEntry ''chpasswd''"
  let ?o = "overview (\<lambda>_. None) demoReader demoParsers NewResolver [] [] ?f"
  have es: "readEntries demoReader ?f (\<lambda>_. True) = ([?e], False)"
    by (simp add: readEntries_def dropCR_last maxLine_def demoReader_def char_consts)
  have e: "srcOf ?e = ''192.0.2.7''" "counted ?e" by (simp_all add: demoEntry_def emptyEntry_def srcOf_def counted_def)
  let ?st = "overviewStep (\<lambda>_. None) (Locate demoParsers NewResolver) [] ovInit ?e"
  have inv: "ovInv (\<lambda>_. None) (Locate demoParsers NewResolver) [?e] ?st"
    using ovInv_run [of "\<lambda>_. None" "Locate demoParsers NewResolver" "[?e]" "[]"] by simp
  have "ov_order ?st = [''192.0.2.7'']" using step_order [OF e(2)] e(1) by (simp add: ovInit_def)
  then obtain row where row: "rowsOf ?st (ov_order ?st) = [tagRow ?st ''192.0.2.7'' row]" "os_IP row = ''192.0.2.7''"
    using ovInv_row [OF inv, of "''192.0.2.7''"] by (auto simp: rowOf_def Let_def)
  let ?row = "tagRow ?st ''192.0.2.7'' row"
  have o: "rp_sources ?o = [?row]"
    using es row by (simp add: overview_def Let_def topSources_def overviewSourceCap_def sliceStable_def)
  have "matchesPage ?row (byIP (\<lambda>_. None) demoReader ?f (os_IP ?row))"
    by (rule overview_agrees_with_drawer [where ps = demoParsers and r = NewResolver and today = "[]" and version = "[]", OF es])
       (use o e row(2) in \<open>simp_all add: ofSource_def\<close>)
  then show ?thesis using o row(2) by simp
qed


section \<open>Every event and every source is accounted for\<close>

lemma run_totals: "ct_events (ov_totals (foldl (overviewStep rfc locate today) ovInit es)) = length (filter counted es)"
  by (induction es rule: rev_induct) (simp_all add: step_totals ovInit_def)

lemma rows_account:
  assumes inv: "ovInv rfc locate es st"
  shows "length (rowsOf st (ov_order st)) = length (ov_order st) \<and> map os_IP (rowsOf st (ov_order st)) = ov_order st \<and>
    (\<Sum>row\<leftarrow>rowsOf st (ov_order st). os_Events row) = length (filter counted es)"
proof -
  have some: "\<forall>s\<in>set (ov_order st). mget (ov_bySrc st) s \<noteq> None" using ovInv_row [OF inv] by blast
  then have rows: "rowsOf st (ov_order st) = map (\<lambda>s. tagRow st s (the (mget (ov_bySrc st) s))) (ov_order st)" by (rule rowsOf_map)
  have each: "os_IP (the (mget (ov_bySrc st) s)) = s \<and> os_Events (the (mget (ov_bySrc st) s)) = length (filter (ofSource s) es)"
    if "s \<in> set (ov_order st)" for s
    using ovInv_row [OF inv that] by (auto simp: rowOf_def Let_def)
  have "distinct (ov_order st)" "\<And>s. s \<in> set (ov_order st) \<longleftrightarrow> filter (ofSource s) es \<noteq> []" using inv by (simp_all add: ovInv_def)
  moreover have "filter (ofSource s) es = filter (\<lambda>e. srcOf e = s) (filter counted es)" for s
    by (simp add: ofSource_def [abs_def])
  moreover have "\<forall>e\<in>set (filter counted es). srcOf e \<in> set (ov_order st)"
    using calculation(2) by (auto simp: ofSource_def filter_empty_conv)
  ultimately have "(\<Sum>s\<leftarrow>ov_order st. length (filter (ofSource s) es)) = length (filter counted es)"
    using split_by_key [of "ov_order st" "filter counted es" srcOf] by simp
  moreover have "map os_IP (rowsOf st (ov_order st)) = ov_order st" using each by (simp add: rows map_idI)
  moreover have "map os_Events (rowsOf st (ov_order st)) = map (\<lambda>s. length (filter (ofSource s) es)) (ov_order st)"
    using each by (simp add: rows)
  ultimately show ?thesis by (metis length_map)
qed

text \<open>A roll-up over an association list adds each row to one group.\<close>

lemma countryStep_sums:
  "(\<Sum>c\<leftarrow>map snd (countryStep agg row). cs_Sources c) = (\<Sum>c\<leftarrow>map snd agg. cs_Sources c) + 1"
  "(\<Sum>c\<leftarrow>map snd (countryStep agg row). cs_Events c) = (\<Sum>c\<leftarrow>map snd agg. cs_Events c) + os_Events row"
  unfolding countryStep_def Let_def
  by (rule bump_sum [where g = "\<lambda>c. c\<lparr>cs_Sources := cs_Sources c + 1, cs_Events := cs_Events c + os_Events row\<rparr>"]; simp)+

lemma ispStep_sums:
  "(\<Sum>c\<leftarrow>map snd (ispStep agg row). is_Sources c) = (\<Sum>c\<leftarrow>map snd agg. is_Sources c) + 1"
  "(\<Sum>c\<leftarrow>map snd (ispStep agg row). is_Events c) = (\<Sum>c\<leftarrow>map snd agg. is_Events c) + os_Events row"
  unfolding ispStep_def Let_def
  by (rule bump_sum [where g = "\<lambda>i. i\<lparr>is_Sources := is_Sources i + 1, is_Events := is_Events i + os_Events row\<rparr>"]; simp)+


lemma rollup_sums:
  "(\<Sum>c\<leftarrow>countryRollup rows. cs_Sources c) = length rows \<and> (\<Sum>c\<leftarrow>countryRollup rows. cs_Events c) = (\<Sum>row\<leftarrow>rows. os_Events row)"
  "(\<Sum>c\<leftarrow>ispRollup rows. is_Sources c) = length rows \<and> (\<Sum>c\<leftarrow>ispRollup rows. is_Events c) = (\<Sum>row\<leftarrow>rows. os_Events row)"
proof -
  have "(\<Sum>c\<leftarrow>map snd (foldl countryStep [] rows). cs_Sources c) = length rows \<and>
      (\<Sum>c\<leftarrow>map snd (foldl countryStep [] rows). cs_Events c) = (\<Sum>row\<leftarrow>rows. os_Events row)"
    by (induction rows rule: rev_induct) (simp, simp only: foldl_append foldl.simps countryStep_sums, simp)
  moreover have "(\<Sum>c\<leftarrow>map snd (foldl ispStep [] rows). is_Sources c) = length rows \<and>
      (\<Sum>c\<leftarrow>map snd (foldl ispStep [] rows). is_Events c) = (\<Sum>row\<leftarrow>rows. os_Events row)"
    by (induction rows rule: rev_induct) (simp, simp only: foldl_append foldl.simps ispStep_sums, simp)
  ultimately show
    "(\<Sum>c\<leftarrow>countryRollup rows. cs_Sources c) = length rows \<and> (\<Sum>c\<leftarrow>countryRollup rows. cs_Events c) = (\<Sum>row\<leftarrow>rows. os_Events row)"
    "(\<Sum>c\<leftarrow>ispRollup rows. is_Sources c) = length rows \<and> (\<Sum>c\<leftarrow>ispRollup rows. is_Events c) = (\<Sum>row\<leftarrow>rows. os_Events row)"
    by (simp_all only: countryRollup_def ispRollup_def sum_list_sliceStable)
qed




text \<open>Two breakdowns are taken from a Go map: their order does not depend on how the map is walked.\<close>

lemma sortedPorts_any_order:
  assumes "inj_on po_Port (set ps)" "mset ps = mset qs"
  shows "sortedPorts ps = sortedPorts qs"
  unfolding sortedPorts_def
  by (rule sliceStable_unique [OF orders_count_then [OF orders_less(1)] _ assms(2)])
     (use assms(1) in \<open>auto simp: inj_on_def not_less order.order_iff_strict\<close>)

lemma topAgents_any_order:
  assumes "inj_on ag_Agent (set us)" "mset us = mset vs"
  shows "topAgents us = topAgents vs"
proof -
  have "\<forall>x\<in>set us. \<forall>y\<in>set us. x \<noteq> y \<longrightarrow>
      (if ag_Count x \<noteq> ag_Count y then ag_Count x > ag_Count y else strLess (ag_Agent x) (ag_Agent y)) \<or>
      (if ag_Count y \<noteq> ag_Count x then ag_Count y > ag_Count x else strLess (ag_Agent y) (ag_Agent x))"
    using assms(1) strLess_total by (auto simp: inj_on_def)
  then show ?thesis unfolding topAgents_def
    by (intro arg_cong [of _ _ "take agentCap"] sliceStable_unique [OF orders_count_then [OF orders_strLess(1)] _ assms(2)])
qed

end
