(* ===== verification/PortalRollup.thy ===== *)
theory PortalRollup
  imports PortalOverview
begin

text \<open>
  The two indicator pages of the portal: who delivered which payload (\<^verbatim>\<open>internal/portal/payloads.go\<close>) and who
  tripped which bait (\<^verbatim>\<open>internal/portal/honeytokens.go\<close>).  The maps keep their keys in the order of first use,
  so the slice \<open>order\<close> of the code is the order of the map of rows.
  Shown: each page counts every event it is about once, in the rows and in the roll-up by indicator.
\<close>

section \<open>Payloads\<close>

record droppedRef =
  dr_Filename :: string
  dr_SHA256 :: string

record payloadSource =
  pl_IP :: string
  pl_Country :: string
  pl_ASN :: "32 word"
  pl_Org :: string
  pl_Scope :: string
  pl_Count :: nat
  pl_FirstSeen :: string
  pl_LastSeen :: string
  pl_Sessions :: "string list"
  pl_URLs :: "string list"
  pl_Droppers :: "droppedRef list"

definition payloadURL :: "Entry \<Rightarrow> string" where
  "payloadURL e = (if e_URL e \<noteq> [] then e_URL e else if e_Command e \<noteq> [] then e_Command e else ''unknown'')"

definition newPayload :: "Location \<Rightarrow> string \<Rightarrow> string \<Rightarrow> payloadSource" where
  "newPayload loc s t = \<lparr>pl_IP = s, pl_Country = l_Country loc, pl_ASN = l_ASN loc, pl_Org = l_Org loc, pl_Scope = l_Scope loc,
     pl_Count = 0, pl_FirstSeen = t, pl_LastSeen = [], pl_Sessions = [], pl_URLs = [], pl_Droppers = []\<rparr>"

record payload_state =
  pt_bySrc :: "(string, payloadSource) gomap"
  pt_dropSeen :: "(string, string list) gomap"
  pt_byURL :: "(string, nat) gomap"
  pt_bySha :: "(string, nat) gomap"
  pt_dropperTotal :: nat

definition noPayloads :: payload_state where
  "noPayloads = \<lparr>pt_bySrc = [], pt_dropSeen = [], pt_byURL = [], pt_bySha = [], pt_dropperTotal = 0\<rparr>"

definition seenRow :: "Entry \<Rightarrow> payloadSource \<Rightarrow> payloadSource" where
  "seenRow e row = row\<lparr>pl_Count := pl_Count row + 1, pl_LastSeen := e_Time e,
     pl_Sessions := if e_Session e \<noteq> [] then addOnce (e_Session e) (pl_Sessions row) else pl_Sessions row\<rparr>"

text \<open>The sets of sessions and addresses a row has seen are the row's own lists.\<close>

definition payloadStep :: "(string \<Rightarrow> Location) \<Rightarrow> payload_state \<Rightarrow> Entry \<Rightarrow> payload_state" where
  "payloadStep locate st e =
    (let s = srcOf e; row = seenRow e (mgetOr (newPayload (locate s) s (e_Time e)) (pt_bySrc st) s)
     in if e_Event e = ''DROPPER'' then
          let k = (if e_SHA256 e = [] then e_Filename e else e_SHA256 e);
              seen = mgetOr [] (pt_dropSeen st) s;
              row = (if k \<in> set seen then row
                     else row\<lparr>pl_Droppers := pl_Droppers row @ [\<lparr>dr_Filename = e_Filename e, dr_SHA256 = e_SHA256 e\<rparr>]\<rparr>)
          in st\<lparr>pt_bySrc := mput s row (pt_bySrc st), pt_dropSeen := mput s (if k \<in> set seen then seen else k # seen) (pt_dropSeen st),
                pt_bySha := mput k (mgetOr 0 (pt_bySha st) k + 1) (pt_bySha st), pt_dropperTotal := pt_dropperTotal st + 1\<rparr>
        else
          let u = payloadURL e
          in st\<lparr>pt_bySrc := mput s (row\<lparr>pl_URLs := addOnce u (pl_URLs row)\<rparr>) (pt_bySrc st),
                pt_byURL := mput u (mgetOr 0 (pt_byURL st) u + 1) (pt_byURL st)\<rparr>)"

record payload_page =
  pp_sources :: "payloadSource list"
  pp_total :: nat
  pp_unique :: nat
  pp_byURL :: "(string, nat) gomap"
  pp_bySha :: "(string, nat) gomap"
  pp_dropperTotal :: nat
  pp_geo :: bool

definition isPayload :: "Entry \<Rightarrow> bool" where
  "isPayload e = (e_Event e = ''DOWNLOAD_ATTEMPT'' \<or> e_Event e = ''DROPPER'')"

definition payloads ::
  "(string \<Rightarrow> Entry option) \<Rightarrow> parsers \<Rightarrow> Resolver \<Rightarrow> string option \<Rightarrow> payload_page" where
  "payloads unmarshal ps r logFile =
    (let (entries, err) = readEntries unmarshal logFile isPayload
     in if err then \<lparr>pp_sources = [], pp_total = 0, pp_unique = 0, pp_byURL = [], pp_bySha = [], pp_dropperTotal = 0, pp_geo = False\<rparr>
        else let st = foldl (payloadStep (Locate ps r)) noPayloads entries
             in \<lparr>pp_sources = sliceStable (\<lambda>a b. if pl_Count a \<noteq> pl_Count b then pl_Count a > pl_Count b
                     else strLess (pl_LastSeen b) (pl_LastSeen a)) (map snd (pt_bySrc st)),
                 pp_total = length entries, pp_unique = length (pt_bySrc st), pp_byURL = pt_byURL st, pp_bySha = pt_bySha st,
                 pp_dropperTotal = pt_dropperTotal st, pp_geo = Loaded r > 0\<rparr>)"

section \<open>Honeytokens\<close>

record honeytokenSource =
  ht_IP :: string
  ht_Country :: string
  ht_Scope :: string
  ht_Count :: nat
  ht_FirstSeen :: string
  ht_LastSeen :: string
  ht_Sessions :: "string list"
  ht_Tokens :: "string list"

definition newToken :: "Location \<Rightarrow> string \<Rightarrow> string \<Rightarrow> honeytokenSource" where
  "newToken loc s t = \<lparr>ht_IP = s, ht_Country = l_Country loc, ht_Scope = l_Scope loc, ht_Count = 0, ht_FirstSeen = t,
     ht_LastSeen = [], ht_Sessions = [], ht_Tokens = []\<rparr>"

record token_state =
  tk_bySrc :: "(string, honeytokenSource) gomap"
  tk_byToken :: "(string, nat) gomap"

definition seenToken :: "Entry \<Rightarrow> honeytokenSource \<Rightarrow> honeytokenSource" where
  "seenToken e row = row\<lparr>ht_Count := ht_Count row + 1, ht_LastSeen := e_Time e,
     ht_Sessions := if e_Session e \<noteq> [] then addOnce (e_Session e) (ht_Sessions row) else ht_Sessions row,
     ht_Tokens := if e_Note e \<noteq> [] then addOnce (e_Note e) (ht_Tokens row) else ht_Tokens row\<rparr>"

definition tokenStep :: "(string \<Rightarrow> Location) \<Rightarrow> token_state \<Rightarrow> Entry \<Rightarrow> token_state" where
  "tokenStep locate st e =
    (let s = srcOf e; token = orElse (e_Note e) ''unknown''
     in \<lparr>tk_bySrc = mput s (seenToken e (mgetOr (newToken (locate s) s (e_Time e)) (tk_bySrc st) s)) (tk_bySrc st),
         tk_byToken = mput token (mgetOr 0 (tk_byToken st) token + 1) (tk_byToken st)\<rparr>)"

record token_page =
  tp_sources :: "honeytokenSource list"
  tp_total :: nat
  tp_unique :: nat
  tp_byToken :: "(string, nat) gomap"
  tp_geo :: bool

definition honeytokens ::
  "(string \<Rightarrow> Entry option) \<Rightarrow> parsers \<Rightarrow> Resolver \<Rightarrow> string option \<Rightarrow> token_page" where
  "honeytokens unmarshal ps r logFile =
    (let (entries, err) = readEntries unmarshal logFile (\<lambda>e. e_Event e = ''HONEYTOKEN'')
     in if err then \<lparr>tp_sources = [], tp_total = 0, tp_unique = 0, tp_byToken = [], tp_geo = False\<rparr>
        else let st = foldl (tokenStep (Locate ps r)) \<lparr>tk_bySrc = [], tk_byToken = []\<rparr> entries
             in \<lparr>tp_sources = sliceStable (\<lambda>a b. if ht_Count a \<noteq> ht_Count b then ht_Count a > ht_Count b
                     else strLess (ht_LastSeen b) (ht_LastSeen a)) (map snd (tk_bySrc st)),
                 tp_total = length entries, tp_unique = length (tk_bySrc st), tp_byToken = tk_byToken st, tp_geo = Loaded r > 0\<rparr>)"

section \<open>Every delivery and every bait is counted once\<close>

lemma count_sum: "(\<Sum>n\<leftarrow>map snd (mput k (mgetOr 0 m k + 1) m). n) = (\<Sum>n\<leftarrow>map snd m. n) + (1 :: nat)"
  using bump_sum [where f = "\<lambda>n. n" and g = "\<lambda>n. n + 1" and z = 0 and d = 1] by simp

lemma tokenStep_sums:
  "(\<Sum>row\<leftarrow>map snd (tk_bySrc (tokenStep locate st e)). ht_Count row) = (\<Sum>row\<leftarrow>map snd (tk_bySrc st). ht_Count row) + 1"
  "(\<Sum>n\<leftarrow>map snd (tk_byToken (tokenStep locate st e)). n) = (\<Sum>n\<leftarrow>map snd (tk_byToken st). n) + 1"
  unfolding tokenStep_def Let_def token_state.simps
  by (rule bump_sum, simp add: newToken_def, simp add: seenToken_def) (rule count_sum)

lemma honeytokens_account:
  assumes "readEntries unmarshal logFile (\<lambda>e. e_Event e = ''HONEYTOKEN'') = (es, False)"
  shows "(\<Sum>row\<leftarrow>tp_sources (honeytokens unmarshal ps r logFile). ht_Count row) = length es \<and>
    (\<Sum>n\<leftarrow>map snd (tp_byToken (honeytokens unmarshal ps r logFile)). n) = length es \<and>
    length (tp_sources (honeytokens unmarshal ps r logFile)) = tp_unique (honeytokens unmarshal ps r logFile)"
proof -
  let ?st = "foldl (tokenStep (Locate ps r)) \<lparr>tk_bySrc = [], tk_byToken = []\<rparr> es"
  have "(\<Sum>row\<leftarrow>map snd (tk_bySrc ?st). ht_Count row) = length es \<and> (\<Sum>n\<leftarrow>map snd (tk_byToken ?st). n) = length es"
    by (induction es rule: rev_induct) (simp, simp only: foldl_append foldl.simps tokenStep_sums, simp)
  then show ?thesis using assms by (simp add: honeytokens_def Let_def)
qed


lemma payloadStep_sums:
  "(\<Sum>row\<leftarrow>map snd (pt_bySrc (payloadStep locate st e)). pl_Count row) = (\<Sum>row\<leftarrow>map snd (pt_bySrc st). pl_Count row) + 1"
  "(\<Sum>n\<leftarrow>map snd (pt_byURL (payloadStep locate st e)). n) + (\<Sum>n\<leftarrow>map snd (pt_bySha (payloadStep locate st e)). n) =
   (\<Sum>n\<leftarrow>map snd (pt_byURL st). n) + (\<Sum>n\<leftarrow>map snd (pt_bySha st). n) + 1"
  "pt_dropperTotal (payloadStep locate st e) = pt_dropperTotal st + (if e_Event e = ''DROPPER'' then 1 else 0)"
proof -
  let ?z = "newPayload (locate (srcOf e)) (srcOf e) (e_Time e)"
  have bump: "(\<Sum>row\<leftarrow>map snd (mput (srcOf e) (g (mgetOr ?z m (srcOf e))) m). pl_Count row) = (\<Sum>row\<leftarrow>map snd m. pl_Count row) + 1"
    if "\<And>row. pl_Count (g row) = pl_Count row + 1" for g m
    by (rule bump_sum) (use that in \<open>simp_all add: newPayload_def\<close>)
  define k where "k = (if e_SHA256 e = [] then e_Filename e else e_SHA256 e)"
  define dropped where "dropped row = (if k \<in> set (mgetOr [] (pt_dropSeen st) (srcOf e)) then seenRow e row
     else (seenRow e row)\<lparr>pl_Droppers := pl_Droppers (seenRow e row) @ [\<lparr>dr_Filename = e_Filename e, dr_SHA256 = e_SHA256 e\<rparr>]\<rparr>)" for row
  define fetched where "fetched row = (seenRow e row)\<lparr>pl_URLs := addOnce (payloadURL e) (pl_URLs (seenRow e row))\<rparr>" for row
  have src: "pt_bySrc (payloadStep locate st e) = mput (srcOf e)
      ((if e_Event e = ''DROPPER'' then dropped else fetched) (mgetOr ?z (pt_bySrc st) (srcOf e))) (pt_bySrc st)"
    by (simp add: payloadStep_def Let_def k_def dropped_def fetched_def)
  show "(\<Sum>row\<leftarrow>map snd (pt_bySrc (payloadStep locate st e)). pl_Count row) = (\<Sum>row\<leftarrow>map snd (pt_bySrc st). pl_Count row) + 1"
    unfolding src by (rule bump) (simp add: dropped_def fetched_def seenRow_def)
  show "(\<Sum>n\<leftarrow>map snd (pt_byURL (payloadStep locate st e)). n) + (\<Sum>n\<leftarrow>map snd (pt_bySha (payloadStep locate st e)). n) =
   (\<Sum>n\<leftarrow>map snd (pt_byURL st). n) + (\<Sum>n\<leftarrow>map snd (pt_bySha st). n) + 1"
    using count_sum [of k "pt_bySha st"] count_sum [of "payloadURL e" "pt_byURL st"]
    by (simp add: payloadStep_def Let_def k_def)
  show "pt_dropperTotal (payloadStep locate st e) = pt_dropperTotal st + (if e_Event e = ''DROPPER'' then 1 else 0)"
    by (simp add: payloadStep_def Let_def)
qed

lemma payloads_account:
  assumes "readEntries unmarshal logFile isPayload = (es, False)"
  shows "(\<Sum>row\<leftarrow>pp_sources (payloads unmarshal ps r logFile). pl_Count row) = length es \<and>
    (\<Sum>n\<leftarrow>map snd (pp_byURL (payloads unmarshal ps r logFile)). n) + (\<Sum>n\<leftarrow>map snd (pp_bySha (payloads unmarshal ps r logFile)). n) = length es \<and>
    pp_dropperTotal (payloads unmarshal ps r logFile) = length (filter (\<lambda>e. e_Event e = ''DROPPER'') es)"
proof -
  let ?st = "foldl (payloadStep (Locate ps r)) noPayloads es"
  have "(\<Sum>row\<leftarrow>map snd (pt_bySrc ?st). pl_Count row) = length es"
    by (induction es rule: rev_induct) (simp add: noPayloads_def, simp only: foldl_append foldl.simps payloadStep_sums, simp)
  moreover have "(\<Sum>n\<leftarrow>map snd (pt_byURL ?st). n) + (\<Sum>n\<leftarrow>map snd (pt_bySha ?st). n) = length es"
    by (induction es rule: rev_induct) (simp add: noPayloads_def, simp only: foldl_append foldl.simps payloadStep_sums, simp)
  moreover have "pt_dropperTotal ?st = length (filter (\<lambda>e. e_Event e = ''DROPPER'') es)"
    by (induction es rule: rev_induct) (simp add: noPayloads_def, simp only: foldl_append foldl.simps payloadStep_sums, simp)
  ultimately show ?thesis using assms by (simp add: payloads_def Let_def)
qed

end
