(* ===== verification/PortalConsole.thy ===== *)
theory PortalConsole
  imports PortalOverview Config
begin

text \<open>
  The portal's administration proxy (\<^verbatim>\<open>internal/portal/console.go\<close>), its replay of recorded sessions
  (\<^verbatim>\<open>internal/portal/replay.go\<close>) and the construction of the portal (\<^verbatim>\<open>internal/portal/portal.go\<close>).  The parsers of
  packages \<open>net/url\<close> and \<open>netip\<close> and the printer of quoted strings are parameters; the reverse proxy is the
  request its director makes of the one it is given.
  Shown: whatever is requested, the proxy reaches only a listed upstream on this host or its private
  network and gives it none of the portal's credentials, and a recording is read only from the recording
  directory itself.
\<close>

section \<open>The portal\<close>

function itoaLoop :: "int \<Rightarrow> string \<Rightarrow> string" where
  "itoaLoop n buf = (if n > 0 then itoaLoop (n div 10) (char_of (48 + n mod 10) # buf) else buf)"
  by pat_completeness auto
termination by (relation "measure (\<lambda>(n, buf). nat n)") auto

declare itoaLoop.simps [simp del]

definition portal_itoa :: "int \<Rightarrow> string" where
  "portal_itoa n =
    (if n = 0 then ''0''
     else let neg = n < 0; n = (if neg then wrap64 (- n) else n); buf = itoaLoop n []
          in if neg then CHR ''-'' # buf else buf)"

definition portal_addr :: "string \<Rightarrow> int \<Rightarrow> string" where
  "portal_addr host port = JoinHostPort host (portal_itoa port)"

section \<open>Consoles\<close>

definition consoleMount :: string where "consoleMount = ''/dashboard/console/''"

record url =
  u_Scheme :: string
  u_Host :: string
  u_Hostname :: string
  u_Path :: string

record consoleEntry =
  ce_name :: string
  ce_label :: string
  ce_target :: url
  ce_strip :: bool

definition isLocalTarget :: "parsers \<Rightarrow> string \<Rightarrow> bool" where
  "isLocalTarget ps host =
    (if host = ''localhost'' then True
     else case ps_addr ps host of None \<Rightarrow> False | Some a \<Rightarrow> IsLoopback a \<or> IsPrivate a)"

definition singleJoiningSlash :: "string \<Rightarrow> string \<Rightarrow> string" where
  "singleJoiningSlash a b =
    (let aslash = HasSuffix a ''/''; bslash = HasPrefix b ''/''
     in if aslash \<and> bslash then a @ tl b
        else if \<not> aslash \<and> \<not> bslash then (if b = [] then a else a @ ''/'' @ b)
        else a @ b)"

definition consoleStep ::
  "parsers \<Rightarrow> (string \<Rightarrow> url option) \<Rightarrow> (string \<Rightarrow> string) \<Rightarrow> (url \<Rightarrow> string) \<Rightarrow> (string, consoleEntry) gomap \<times> Entry list \<Rightarrow> AdminConsole \<Rightarrow>
   (string, consoleEntry) gomap \<times> Entry list" where
  "consoleStep ps parseURL quote redacted st ac =
    (case st of (out, lg) \<Rightarrow>
      (let name = TrimSpace (ac_Name ac)
       in if name = [] \<or> IndexAny name ''/ '' \<noteq> None then
            (out, lg @ [System (''portal: skipping admin console with invalid name '' @ quote (ac_Name ac))])
          else case parseURL (TrimSpace (ac_Target ac)) of
            None \<Rightarrow> (out, lg @ [System (''portal: skipping admin console '' @ quote name @ '' with invalid target '' @ quote (ac_Target ac))])
          | Some target \<Rightarrow>
              if u_Scheme target = [] \<or> u_Host target = [] then
                (out, lg @ [System (''portal: skipping admin console '' @ quote name @ '' with invalid target '' @ quote (ac_Target ac))])
              else if \<not> isLocalTarget ps (u_Hostname target) then
                (out, lg @ [System (''portal: refusing admin console '' @ quote name @ '': target '' @ quote (u_Host target) @ '' is not on the local host'')])
              else
                (mput name \<lparr>ce_name = name, ce_label = (if ac_Label ac = [] then name else ac_Label ac), ce_target = target,
                    ce_strip = ac_StripPrefix ac\<rparr> out,
                 lg @ [System (''portal: admin console '' @ quote name @ '' proxied to '' @ redacted target)])))"

definition buildConsoles ::
  "parsers \<Rightarrow> (string \<Rightarrow> url option) \<Rightarrow> (string \<Rightarrow> string) \<Rightarrow> (url \<Rightarrow> string) \<Rightarrow> Config \<Rightarrow> (string, consoleEntry) gomap \<times> Entry list" where
  "buildConsoles ps parseURL quote redacted c = foldl (consoleStep ps parseURL quote redacted) ([], []) (c_AdminConsoles c)"

record request =
  rq_scheme :: string
  rq_urlHost :: string
  rq_path :: string
  rq_Host :: string
  rq_header :: "(string, string list) gomap"

definition consoleDirector :: "consoleEntry \<Rightarrow> request \<Rightarrow> request" where
  "consoleDirector ce req =
    (let path = (if ce_strip ce then TrimPrefix (rq_path req) (consoleMount @ ce_name ce) else rq_path req)
     in \<lparr>rq_scheme = u_Scheme (ce_target ce), rq_urlHost = u_Host (ce_target ce),
         rq_path = singleJoiningSlash (u_Path (ce_target ce)) path, rq_Host = u_Host (ce_target ce),
         rq_header = mdel ''Authorization'' (mdel ''Cookie'' (rq_header req))\<rparr>)"

datatype consoleReply = NoConsole | Redirect string | Forward consoleEntry request

definition console :: "(string, consoleEntry) gomap \<Rightarrow> request \<Rightarrow> consoleReply" where
  "console consoles r =
    (let rest = TrimPrefix (rq_path r) consoleMount;
         name = (case IndexByte rest (CHR ''/'') of Some i \<Rightarrow> take i rest | None \<Rightarrow> rest)
     in case mget consoles name of
          None \<Rightarrow> NoConsole
        | Some ce \<Rightarrow>
            if rq_path r = consoleMount @ name then Redirect (consoleMount @ name @ ''/'')
            else Forward ce (consoleDirector ce r))"

definition consoleList :: "(string, consoleEntry) gomap \<Rightarrow> (string \<times> string) list" where
  "consoleList consoles = sliceStable (\<lambda>a b. strLess (fst a) (fst b)) (map (\<lambda>ce. (ce_name ce, ce_label ce)) (map snd consoles))"

section \<open>Construction\<close>

record Portal =
  pn_cfg :: Config
  pn_geo :: Resolver
  pn_consoles :: "(string, consoleEntry) gomap"
  pn_version :: string

definition SetVersion :: "string \<Rightarrow> Portal \<Rightarrow> Portal" where
  "SetVersion v p = p\<lparr>pn_version := v\<rparr>"

text \<open>What the portal needs of the libraries and of the file system: the parsers, the unstable sorts of the two
databases, the printers and the databases by file name.\<close>

record portal_env =
  pe_parsers :: parsers
  pe_sortCountry :: "countryRange list \<Rightarrow> countryRange list"
  pe_sortASN :: "asnRange list \<Rightarrow> asnRange list"
  pe_parseURL :: "string \<Rightarrow> url option"
  pe_quote :: "string \<Rightarrow> string"
  pe_redacted :: "url \<Rightarrow> string"
  pe_csv :: "string \<Rightarrow> csv_file"

definition portal_New :: "portal_env \<Rightarrow> Config \<Rightarrow> Portal \<times> Entry list" where
  "portal_New pe c =
    (let r0 = NewResolver;
         (lg1, r1) = (if c_GeoIPFile c = [] then ([], r0)
           else case LoadCSV (pe_parsers pe) (pe_sortCountry pe) (pe_csv pe (c_GeoIPFile c)) r0 of
             (Inl e, r) \<Rightarrow> ([System (''portal: country database '' @ pe_quote pe (c_GeoIPFile c) @ '' could not be loaded: '' @ e)], r)
           | (Inr n, r) \<Rightarrow> ([System (''portal: country database loaded ('' @ Itoa (int n) @ '' ranges)'')], r));
         (lg2, r2) = (if c_AsnFile c = [] then ([], r1)
           else case LoadASN (pe_parsers pe) (pe_sortASN pe) (pe_csv pe (c_AsnFile c)) r1 of
             (Inl e, r) \<Rightarrow> ([System (''portal: ASN database '' @ pe_quote pe (c_AsnFile c) @ '' could not be loaded: '' @ e)], r)
           | (Inr n, r) \<Rightarrow> ([System (''portal: ASN database loaded ('' @ Itoa (int n) @ '' ranges)'')], r));
         (cs, lg3) = buildConsoles (pe_parsers pe) (pe_parseURL pe) (pe_quote pe) (pe_redacted pe) c
     in (\<lparr>pn_cfg = c, pn_geo = r2, pn_consoles = cs, pn_version = []\<rparr>, lg1 @ lg2 @ lg3))"

section \<open>Replay\<close>

definition safeID :: "string \<Rightarrow> bool" where
  "safeID sid = (sid \<noteq> [] \<and> length sid \<le> 64 \<and> list_all (\<lambda>c. isLower c \<or> isUpper c \<or> isDigit c) sid)"

definition CutSuffix :: "string \<Rightarrow> string \<Rightarrow> string option" where
  "CutSuffix s suffix = (if HasSuffix s suffix then Some (take (length s - length suffix) s) else None)"

definition castID :: "string \<Rightarrow> string option" where
  "castID name = (case CutSuffix name ''.cast'' of Some sid \<Rightarrow> (if safeID sid then Some sid else None) | None \<Rightarrow> None)"

text \<open>The names in the recording directory are \<open>None\<close> when it cannot be read.\<close>

definition recordings :: "string \<Rightarrow> string list option \<Rightarrow> string list" where
  "recordings recordDir names =
    sliceStable strLess
      (if recordDir \<noteq> [] then (case names of Some ns \<Rightarrow> List.map_filter castID ns | None \<Rightarrow> []) else [])"

definition castPath :: "string \<Rightarrow> string \<Rightarrow> string" where
  "castPath recordDir sid = path_Join recordDir (sid @ ''.cast'')"

definition cast :: "string \<Rightarrow> (string \<Rightarrow> bytes option) \<Rightarrow> string \<Rightarrow> bytes option" where
  "cast recordDir readFile sid =
    (if recordDir = [] \<or> \<not> safeID sid then None else readFile (castPath recordDir sid))"


section \<open>The proxy stays on this host\<close>

lemma HasPrefix_join: "HasPrefix (singleJoiningSlash a b) a"
  by (auto simp: singleJoiningSlash_def Let_def HasPrefix_iff)

text \<open>What every listed console satisfies, for the consoles \<open>acs\<close> of the configuration.\<close>

definition listed :: "parsers \<Rightarrow> (string \<Rightarrow> url option) \<Rightarrow> AdminConsole set \<Rightarrow> string \<times> consoleEntry \<Rightarrow> bool" where
  "listed ps parseURL acs kv \<longleftrightarrow>
     fst kv = ce_name (snd kv) \<and> isLocalTarget ps (u_Hostname (ce_target (snd kv))) \<and>
     (\<exists>ac\<in>acs. TrimSpace (ac_Name ac) = ce_name (snd kv) \<and> parseURL (TrimSpace (ac_Target ac)) = Some (ce_target (snd kv)))"

lemma consoleStep_listed:
  assumes "list_all (listed ps parseURL acs) out" "ac \<in> acs"
  shows "list_all (listed ps parseURL acs) (fst (consoleStep ps parseURL quote redacted (out, lg) ac))"
proof -
  have new: "listed ps parseURL acs (TrimSpace (ac_Name ac), \<lparr>ce_name = TrimSpace (ac_Name ac), ce_label = l, ce_target = t, ce_strip = b\<rparr>)"
    if "parseURL (TrimSpace (ac_Target ac)) = Some t" "isLocalTarget ps (u_Hostname t)" for l t b
    using that assms(2) by (auto simp: listed_def)
  show ?thesis using assms(1) new by (auto simp: consoleStep_def Let_def split: option.split intro!: list_all_mput)
qed

lemma buildConsoles_listed:
  "list_all (listed ps parseURL (set (c_AdminConsoles c))) (fst (buildConsoles ps parseURL quote redacted c))"
proof -
  have "list_all (listed ps parseURL acs) (fst (foldl (consoleStep ps parseURL quote redacted) st xs))"
    if "list_all (listed ps parseURL acs) (fst st)" "set xs \<subseteq> acs" for acs st xs
    using that
  proof (induction xs arbitrary: st)
    case (Cons x xs)
    then show ?case using consoleStep_listed [of ps parseURL acs "fst st" x quote redacted "snd st"] by simp
  qed simp
  then show ?thesis by (simp add: buildConsoles_def)
qed

text \<open>
  C6: the administration proxy is no open proxy.  Whatever path and headers a request under the mount has, it is
  forwarded only to a console the operator listed, under the name its path begins with: to exactly that
  console's scheme and host, which name this host or an address of a private network, at a path under the
  console's own, and without the request's cookies or authorization.  A request that is not forwarded reaches no
  upstream.
\<close>

theorem console_stays_local:
  assumes "console (fst (buildConsoles ps parseURL quote redacted c)) r = Forward ce req" "HasPrefix (rq_path r) consoleMount"
  shows "(\<exists>ac\<in>set (c_AdminConsoles c). TrimSpace (ac_Name ac) = ce_name ce \<and> parseURL (TrimSpace (ac_Target ac)) = Some (ce_target ce)) \<and>
    (u_Hostname (ce_target ce) = ''localhost'' \<or> (\<exists>a. ps_addr ps (u_Hostname (ce_target ce)) = Some a \<and> (IsLoopback a \<or> IsPrivate a))) \<and>
    HasPrefix (rq_path r) (consoleMount @ ce_name ce @ ''/'') \<and>
    rq_scheme req = u_Scheme (ce_target ce) \<and> rq_urlHost req = u_Host (ce_target ce) \<and> rq_Host req = u_Host (ce_target ce) \<and>
    HasPrefix (rq_path req) (u_Path (ce_target ce)) \<and>
    mget (rq_header req) ''Cookie'' = None \<and> mget (rq_header req) ''Authorization'' = None"
proof -
  let ?cs = "fst (buildConsoles ps parseURL quote redacted c)"
  obtain rest where rest: "rq_path r = consoleMount @ rest" using assms(2) by (auto simp: HasPrefix_iff)
  define name where "name = (case IndexByte rest slash of Some i \<Rightarrow> take i rest | None \<Rightarrow> rest)"
  have "TrimPrefix (rq_path r) consoleMount = rest" using rest by (simp add: TrimPrefix_def)
  then have f: "mget ?cs name = Some ce" "rest \<noteq> name" "req = consoleDirector ce r"
    using assms(1) rest by (auto simp: console_def name_def Let_def split: option.splits if_splits)
  have l: "listed ps parseURL (set (c_AdminConsoles c)) (name, ce)"
    using buildConsoles_listed [of ps parseURL c quote redacted] mget_in [OF f(1)] by (auto simp: list_all_iff)
  obtain i where i: "IndexByte rest slash = Some i" "name = take i rest" using f(2) by (auto simp: name_def split: option.splits)
  then have "i < length rest" "rest ! i = slash" by (auto simp: IndexByte_def dest: IndexFunc_Some)
  then have "rest = name @ slash # drop (Suc i) rest" using i(2) by (metis id_take_nth_drop)
  then have "rq_path r = (consoleMount @ ce_name ce @ ''/'') @ drop (Suc i) rest" using rest l by (simp add: listed_def)
  then have "HasPrefix (rq_path r) (consoleMount @ ce_name ce @ ''/'')" by (simp only: HasPrefix_append)
  moreover have "u_Hostname (ce_target ce) = ''localhost'' \<or> (\<exists>a. ps_addr ps (u_Hostname (ce_target ce)) = Some a \<and> (IsLoopback a \<or> IsPrivate a))"
    using l by (auto simp: listed_def isLocalTarget_def split: if_splits option.splits)
  ultimately show ?thesis using l f(3) by (simp add: listed_def consoleDirector_def Let_def HasPrefix_join)
qed


definition demoURL :: "string \<Rightarrow> url option" where
  "demoURL t = (if t = ''http://10.0.0.5:19000/stats''
     then Some \<lparr>u_Scheme = ''http'', u_Host = ''10.0.0.5:19000'', u_Hostname = ''10.0.0.5'', u_Path = ''/stats''\<rparr> else None)"

definition privateParsers :: parsers where
  "privateParsers = \<lparr>ps_addr = (\<lambda>s. if s = ''10.0.0.5'' then Some (V4 (ip4 10 0 0 5)) else None),
     ps_addrPort = (\<lambda>_. None), ps_prefix = (\<lambda>_. None)\<rparr>"

definition demoConsoles :: Config where
  "demoConsoles = DefaultConfig\<lparr>c_AdminConsoles := [\<lparr>ac_Name = ''hap'', ac_Label = [], ac_Target = ''http://10.0.0.5:19000/stats'',
     ac_StripPrefix = True\<rparr>]\<rparr>"

definition demoRequest :: request where
  "demoRequest = \<lparr>rq_scheme = [], rq_urlHost = [], rq_path = ''/dashboard/console/hap/x'', rq_Host = ''portal'',
     rq_header = [(''Cookie'', [''s=1'']), (''Accept'', [''*/*''])]\<rparr>"

definition demoEntryHap :: consoleEntry where
  "demoEntryHap = \<lparr>ce_name = ''hap'', ce_label = ''hap'', ce_target = the (demoURL ''http://10.0.0.5:19000/stats''), ce_strip = True\<rparr>"

text \<open>A target on another machine of a private network is accepted as well.\<close>

lemma private_target_listed:
  "fst (buildConsoles privateParsers demoURL (\<lambda>s. s) (\<lambda>_. []) demoConsoles) = [(''hap'', demoEntryHap)]"
proof -
  have "TrimSpace ''hap'' = ''hap''" by code_simp
  moreover have "TrimSpace ''http://10.0.0.5:19000/stats'' = ''http://10.0.0.5:19000/stats''" by code_simp
  moreover have "isLocalTarget privateParsers ''10.0.0.5''" by code_simp
  moreover have "IndexAny ''hap'' ''/ '' = None" by code_simp
  ultimately show ?thesis
    by (simp add: buildConsoles_def consoleStep_def demoConsoles_def demoURL_def demoEntryHap_def Let_def)
qed

lemma console_stays_local_witness:
  "\<exists>req. console (fst (buildConsoles privateParsers demoURL (\<lambda>s. s) (\<lambda>_. []) demoConsoles)) demoRequest = Forward demoEntryHap req \<and>
     rq_urlHost req = ''10.0.0.5:19000'' \<and> mget (rq_header req) ''Cookie'' = None"
proof -
  have f: "console [(''hap'', demoEntryHap)] demoRequest = Forward demoEntryHap (consoleDirector demoEntryHap demoRequest)"
    by (simp add: console_def demoRequest_def consoleMount_def TrimPrefix_def IndexByte_def)
  have "HasPrefix (rq_path demoRequest) consoleMount" by (simp add: demoRequest_def consoleMount_def)
  from console_stays_local [OF f [folded private_target_listed] this] f show ?thesis
    unfolding private_target_listed by (simp add: demoEntryHap_def demoURL_def)
qed

section \<open>Recordings stay in their directory\<close>

lemma safeID_name: "safeID sid \<Longrightarrow> goodName (sid @ ''.cast'')"
  by (auto simp: safeID_def goodName_def list_all_iff isLower_def isUpper_def isDigit_def code_def)

text \<open>The file of a recording is the entry of that name in the cleaned recording directory, for every identifier served.\<close>

definition entryIn :: "string \<Rightarrow> string \<Rightarrow> string" where
  "entryIn dir name = (if dir = ''/'' then ''/'' @ name else if dir = ''.'' then name else dir @ ''/'' @ name)"

definition properComp :: "string \<Rightarrow> bool" where
  "properComp c = (c \<noteq> [] \<and> c \<noteq> ''.'' \<and> slash \<notin> set c)"

lemma cleanStep_proper: "list_all properComp st \<Longrightarrow> slash \<notin> set c \<Longrightarrow> list_all properComp (cleanStep r st c)"
  by (auto simp: cleanStep.simps properComp_def split: list.splits)

lemma cleanComps_proper: "list_all properComp (cleanComps r (splitByte slash p))"
proof -
  have "list_all properComp (foldl (cleanStep r) st cs)" if "list_all properComp st" "\<forall>c\<in>set cs. slash \<notin> set c" for st cs
    using that by (induction cs arbitrary: st) (simp_all add: cleanStep_proper)
  then show ?thesis using splitByte_parts by (simp add: cleanComps_def list_all_rev)
qed

lemma join_proper:
  assumes "list_all properComp cs"
  shows "(joinByte slash cs = [] \<longleftrightarrow> cs = []) \<and> joinByte slash cs \<noteq> ''.'' \<and> joinByte slash cs \<noteq> ''/''"
proof (cases cs)
  case (Cons c ds)
  show ?thesis
  proof (cases ds)
    case (Cons d es)
    have "length (joinByte slash cs) > 1" using \<open>cs = c # ds\<close> Cons assms by (cases c) (simp_all add: properComp_def)
    then show ?thesis using \<open>cs = c # ds\<close> by auto
  qed (use assms Cons in \<open>auto simp: properComp_def\<close>)
qed simp

lemma path_Join_child:
  assumes "dir \<noteq> []" "goodName name"
  shows "path_Join dir name = entryIn (path_Clean dir) name"
proof -
  define r where "r = HasPrefix dir ''/''"
  define cs where "cs = cleanComps r (splitByte slash dir)"
  have name: "name \<noteq> []" "slash \<notin> set name" using assms(2) by (simp_all add: goodName_def)
  have rooted: "HasPrefix (dir @ slash # name) ''/'' = r" using assms(1) by (cases dir) (simp_all add: r_def)
  have "splitByte slash (dir @ slash # name) = splitByte slash dir @ [name]"
    using name(2) by (simp add: splitByte_append_list splitByte_no_sep)
  then have comps: "cleanComps r (splitByte slash (dir @ slash # name)) = cs @ [name]"
    using assms(2) by (simp add: cleanComps_def cs_def)
  define J where "J = joinByte slash cs"
  have join: "joinByte slash (cs @ [name]) = (if cs = [] then name else J @ slash # name)"
    by (simp add: joinByte_snoc J_def)
  have out: "J = [] \<longleftrightarrow> cs = []" "J \<noteq> ''.''" "J \<noteq> ''/''"
    using join_proper [OF cleanComps_proper] by (simp_all add: J_def cs_def)
  have clean: "path_Clean dir = (if r then slash # J else if J = [] then ''.'' else J)"
    unfolding path_Clean_def r_def [symmetric] Let_def cs_def [symmetric] J_def [symmetric] ..
  have "path_Join dir name = path_Clean (dir @ slash # name)" using assms(1) name(1) by (simp add: path_Join_def)
  also have "\<dots> = (if r then slash # joinByte slash (cs @ [name]) else joinByte slash (cs @ [name]))"
    using join name(1) by (simp only: path_Clean_def rooted comps Let_def) simp
  finally show ?thesis unfolding clean join entryIn_def using out by (cases r) simp_all
qed

lemma cast_stays_inside:
  assumes "cast dir readFile sid = Some data"
  shows "safeID sid \<and> readFile (entryIn (path_Clean dir) (sid @ ''.cast'')) = Some data"
  using assms by (auto simp: cast_def castPath_def path_Join_child safeID_name split: if_splits)

text \<open>What is listed can be asked for, and nothing else is listed.\<close>

lemma recordings_listed:
  "sid \<in> set (recordings dir (Some names)) \<longleftrightarrow> dir \<noteq> [] \<and> safeID sid \<and> sid @ ''.cast'' \<in> set names"
proof -
  have "castID name = Some sid \<longleftrightarrow> safeID sid \<and> name = sid @ ''.cast''" for name
    by (auto simp: castID_def CutSuffix_def HasSuffix_iff split: option.splits if_splits)
  moreover have "sid \<in> set (List.map_filter castID names) \<longleftrightarrow> (\<exists>name\<in>set names. castID name = Some sid)"
    by (induction names) (auto simp: List.map_filter_simps split: option.splits)
  ultimately have "sid \<in> set (List.map_filter castID names) \<longleftrightarrow> safeID sid \<and> sid @ ''.cast'' \<in> set names" by auto
  then show ?thesis unfolding recordings_def set_sliceStable by (cases "dir = []") simp_all
qed

section \<open>The hand-written number printer\<close>

lemma itoaLoop_digits: "0 < n \<Longrightarrow> itoaLoop n buf = natDigits n @ buf"
proof (induction n buf rule: itoaLoop.induct)
  case (1 n buf)
  show ?case
  proof (cases "n < 10")
    case True
    then show ?thesis using 1(2) by (subst itoaLoop.simps, subst natDigits.simps) (simp add: itoaLoop.simps)
  next
    case False
    then have "itoaLoop n buf = itoaLoop (n div 10) (char_of (48 + n mod 10) # buf)" by (subst itoaLoop.simps) simp
    then show ?thesis using 1 False by (subst natDigits.simps) (simp add: pos_imp_zdiv_pos_iff)
  qed
qed

lemma portal_itoa_correct: "minInt64 < n \<Longrightarrow> n \<le> maxInt64 \<Longrightarrow> portal_itoa n = Itoa n"
proof -
  assume n: "minInt64 < n" "n \<le> maxInt64"
  have w: "wrap64 (- n) = - n" if "n < 0" using n that by (intro wrap64_id) (simp_all add: minInt64_def maxInt64_def)
  have zero: "natDigits 0 = ''0''" by code_simp
  show ?thesis using w by (simp add: portal_itoa_def Itoa_def itoaLoop_digits Let_def zero)
qed

end
