(* ===== verification/PortalServer.thy ===== *)
theory PortalServer
  imports PortalRollup PortalConsole Paths
begin

text \<open>
  The portal's route table (\<open>engine\<close> of \<^verbatim>\<open>internal/portal/portal.go\<close>) with the rules of \<^verbatim>\<open>net/http\<close>'s multiplexer it
  uses: paths are cleaned and a client that asked for another spelling is redirected, a pattern that ends in a slash
  holds a subtree, \<^verbatim>\<open>{$}\<close> an exact path, a wildcard one non-empty segment, \<^verbatim>\<open>GET\<close> also admits \<^verbatim>\<open>HEAD\<close>, and a path that
  only another verb reaches is 405.  The path is the escaped one; \<open>PathUnescape\<close> decodes a segment.
  Shown: only the console mount takes requests that are not reads, and no redirect leaves the portal.
\<close>

datatype route =
    DashboardPage | EventFeed | LogQuery | Honeytokens | Payloads | Overview | ConsoleList | Console
  | ByIP string | BySession string | Recordings | Cast string | JTPrize

datatype routed = ServedBy route | RedirectTo string | NotAllowed | Missing

text \<open>The segments the multiplexer compares, each decoded on its own; a trailing slash is a segment of its own.\<close>

definition segments :: "(string \<Rightarrow> string) \<Rightarrow> string \<Rightarrow> string list" where
  "segments PathUnescape p =
    (let parts = splitByte (CHR ''/'') (drop 1 p)
     in if last parts = [] then map PathUnescape (butlast parts) @ [''/''] else map PathUnescape parts)"

definition exactRoutes :: "(string list \<times> route) list" where
  "exactRoutes = [([''/''], DashboardPage), ([''dashboard''], DashboardPage), ([''dashboard'', ''events''], EventFeed),
     ([''dashboard'', ''log''], LogQuery), ([''dashboard'', ''honeytokens''], Honeytokens), ([''dashboard'', ''payloads''], Payloads),
     ([''dashboard'', ''overview''], Overview), ([''dashboard'', ''consoles''], ConsoleList), ([''dashboard'', ''recordings''], Recordings),
     ([''dashboard'', ''jt-prize.jpg''], JTPrize)]"

definition segmentRoutes :: "(string \<times> (string \<Rightarrow> route)) list" where
  "segmentRoutes = [(''ip'', ByIP), (''session'', BySession), (''cast'', Cast)]"

text \<open>The route of a read, and the subtree of the consoles.\<close>

definition readRoute :: "string list \<Rightarrow> route option" where
  "readRoute segs =
    (case map_of exactRoutes segs of
       Some r \<Rightarrow> Some r
     | None \<Rightarrow>
         if length segs = 3 \<and> hd segs = ''dashboard'' \<and> segs ! 2 \<noteq> ''/'' then
           map_option (\<lambda>mk. mk (segs ! 2)) (map_of segmentRoutes (segs ! 1))
         else None)"

definition consoleTree :: "string list \<Rightarrow> bool" where
  "consoleTree segs = (length segs \<ge> 3 \<and> take 2 segs = [''dashboard'', ''console''])"

definition cleanPath :: "string \<Rightarrow> string" where
  "cleanPath p =
    (if p = [] then ''/''
     else let p = (if hd p = CHR ''/'' then p else CHR ''/'' # p); np = path_Clean p
          in if last p = CHR ''/'' \<and> np \<noteq> ''/'' then np @ ''/'' else np)"

text \<open>\<open>CONNECT\<close> paths are taken as they are.\<close>

definition engine :: "(string \<Rightarrow> string) \<Rightarrow> string \<Rightarrow> string \<Rightarrow> routed" where
  "engine PathUnescape verb path =
    (let p = (if verb = ''CONNECT'' then path else cleanPath path); segs = segments PathUnescape p
     in if segs = [''dashboard'', ''console''] then RedirectTo consoleMount
        else if p \<noteq> path then RedirectTo p
        else if consoleTree segs then ServedBy Console
        else case readRoute segs of
               None \<Rightarrow> Missing
             | Some r \<Rightarrow> if verb \<in> {''GET'', ''HEAD''} then ServedBy r else NotAllowed)"

section \<open>What the routes allow\<close>

lemma only_console_writes: "engine U verb path = ServedBy r \<Longrightarrow> verb \<notin> {''GET'', ''HEAD''} \<Longrightarrow> r = Console"
  unfolding engine_def Let_def by (simp split: if_splits option.splits)

lemma path_Clean_local: "HasPrefix (path_Clean (CHR ''/'' # q)) ''/'' \<and> \<not> HasPrefix (path_Clean (CHR ''/'' # q)) ''//''"
proof -
  obtain cs where cs: "goodPath cs" "path_Clean (slash # q) = absPath cs" using path_Clean_rooted by blast
  show ?thesis
  proof (cases cs)
    case Nil
    then show ?thesis using cs by simp
  next
    case (Cons c ds)
    then obtain x y where "c = x # y" "x \<noteq> slash" using cs(1) by (cases c) (auto simp: goodName_def)
    then show ?thesis using cs(2) Cons by (cases ds) (simp_all add: absPath_def joinByte_Cons)
  qed
qed

lemma cleanPath_local: "HasPrefix (cleanPath p) ''/'' \<and> \<not> HasPrefix (cleanPath p) ''//''"
proof -
  have add: "HasPrefix (np @ ''/'') ''/'' \<and> \<not> HasPrefix (np @ ''/'') ''//''" if "HasPrefix np ''/'' \<and> \<not> HasPrefix np ''//''" "np \<noteq> ''/''" for np
    using that by (cases np; cases "tl np") auto
  show ?thesis
  proof (cases p)
    case (Cons c r)
    let ?p = "if c = CHR ''/'' then p else CHR ''/'' # p"
    obtain q where q: "?p = CHR ''/'' # q" using Cons by (cases "c = CHR ''/''") auto
    have "cleanPath p = (if last ?p = CHR ''/'' \<and> path_Clean ?p \<noteq> ''/'' then path_Clean ?p @ ''/'' else path_Clean ?p)"
      using Cons by (simp add: cleanPath_def Let_def)
    then show ?thesis using path_Clean_local [of q] add [of "path_Clean (CHR ''/'' # q)"] unfolding q by (simp split: if_splits)
  qed (simp add: cleanPath_def)
qed

text \<open>A redirect keeps the client on the portal: its target is rooted and names no other host.\<close>

lemma redirect_local: "engine U verb path = RedirectTo q \<Longrightarrow> HasPrefix q ''/'' \<and> \<not> HasPrefix q ''//''"
  using cleanPath_local [of path] by (auto simp: engine_def Let_def consoleMount_def split: if_splits option.splits)

end
