(* ===== verification/Program.thy ===== *)
theory Program
  imports FakeHost PortalConsole Telnet
begin

text \<open>
  The program's entry (\<^verbatim>\<open>cmd/sweetty/main.go\<close>): \<open>init\<close>, which writes the configuration and the identity of a new
  instance, the run itself, which turns a configuration into listeners and a portal, and \<open>hapwatch\<close>, which turns
  the edge's stick table into flood events.  What comes from outside, the codecs, the failures of files and
  sockets, the random draws and the printers, is collected in a record.  The flags, the text on the console and
  the signals are not modelled: a run is followed until it serves.
  Shown: an instance that was just initialised comes up with exactly the services of its identity, on loopback
  for its operator, and the flood watcher reports an unreachable edge once.
\<close>

section \<open>Services\<close>

datatype service = Telnet_svc string | SSH_svc string | Tarpit_svc | HTTP_svc string | HTTPS_svc | FTP_svc

fun serviceName :: "service \<Rightarrow> string" where
  "serviceName (Telnet_svc _) = ''telnet''"
| "serviceName (SSH_svc _) = ''ssh''"
| "serviceName Tarpit_svc = ''ssh''"
| "serviceName (HTTP_svc _) = ''http''"
| "serviceName HTTPS_svc = ''https''"
| "serviceName FTP_svc = ''ftp''"

fun clientFirst :: "service \<Rightarrow> bool" where
  "clientFirst (HTTP_svc _) = True"
| "clientFirst HTTPS_svc = True"
| "clientFirst _ = False"

definition buildProtocol :: "Listener \<Rightarrow> service option" where
  "buildProtocol lc =
    (if li_Protocol lc = ''telnet'' then Some (Telnet_svc (if li_Persona lc = [] then ''ubuntu'' else li_Persona lc))
     else if li_Protocol lc = ''ssh'' then
       (if li_Persona lc = ''tarpit'' then Some Tarpit_svc else Some (SSH_svc (li_Persona lc)))
     else if li_Protocol lc = ''http'' then Some (HTTP_svc (if li_Persona lc = [] then ''nginx-static'' else li_Persona lc))
     else if li_Protocol lc = ''https'' then Some HTTPS_svc
     else if li_Protocol lc = ''ftp'' then Some FTP_svc
     else None)"

definition hasProtocol :: "Listener list \<Rightarrow> string \<Rightarrow> bool" where
  "hasProtocol ls proto = list_ex (\<lambda>lc. li_Protocol lc = proto) ls"

definition intOr :: "int \<Rightarrow> int \<Rightarrow> int" where
  "intOr v d = (if v \<le> 0 then d else v)"

definition floatOr :: "rat \<Rightarrow> rat \<Rightarrow> rat" where
  "floatOr v d = (if v \<le> 0 then d else v)"

definition portalExposedToNetwork :: "(string \<Rightarrow> netAddr option) \<Rightarrow> Config \<Rightarrow> bool" where
  "portalExposedToNetwork parseIP c =
    (if c_PortalBind c \<in> {''127.0.0.1'', ''::1'', ''localhost''} then False
     else if c_PortalBind c = [] then True
     else case parseIP (c_PortalBind c) of Some ip \<Rightarrow> \<not> IsLoopback ip | None \<Rightarrow> True)"

section \<open>A new instance\<close>

record runtime =
  rt_marshalConfig :: "Config \<Rightarrow> string + string"
  rt_unmarshalConfig :: "string \<Rightarrow> Config \<Rightarrow> Config option"
  rt_marshalPersona :: "Persona \<Rightarrow> string + string"
  rt_unmarshalPersona :: "string \<Rightarrow> Persona option"
  rt_ioErr :: io_errors
  rt_logErr :: "string option"
  rt_listenErr :: "int \<Rightarrow> string option"
  rt_parsePrefix :: "string \<Rightarrow> string + netPrefix"
  rt_parseIP :: "string \<Rightarrow> netAddr option"
  rt_durString :: "int \<Rightarrow> string"
  rt_fixed2 :: "rat \<Rightarrow> string"
  rt_now :: int
  rt_draws :: "int list"

text \<open>An early exit carries the context printed before the error.\<close>

type_synonym fatal = "string \<times> string"

definition main_init :: "runtime \<Rightarrow> string \<Rightarrow> string \<Rightarrow> files \<Rightarrow> (fatal + Persona \<times> Config) \<times> files" where
  "main_init rt profile configPath fs =
    (let p = fst (run_state (GenerateProfile (rt_now rt) profile) (rt_draws rt));
         c = config_Generate p
     in case config_Write (rt_marshalConfig rt) (rt_ioErr rt) c configPath fs of
          (Inl e, fs) \<Rightarrow> (Err (''init'', e), fs)
        | (Inr _, fs) \<Rightarrow>
            (case Save (rt_marshalPersona rt) (rt_ioErr rt) p (PersonaPath c configPath) fs of
               (Inl e, fs) \<Rightarrow> (Err (''init'', e), fs)
             | (Inr _, fs) \<Rightarrow> (Ok (p, c), fs)))"

section \<open>The run\<close>

definition server_New :: "int \<Rightarrow> service \<Rightarrow> listener" where
  "server_New port svc = \<lparr>sv_port = port, sv_name = serviceName svc, sv_clientFirst = clientFirst svc, ProxyProtocol = False,
     trustedProxyNets = [], RecordDir = [], sv_conns = [], sv_shed = \<lparr>shedN = 0, shedLast = 0\<rparr>\<rparr>"

fun startListeners :: "runtime \<Rightarrow> (string \<Rightarrow> string) \<Rightarrow> Config \<Rightarrow> Listener list \<Rightarrow> (listener \<times> service) list \<times> Entry list" where
  "startListeners rt quote c [] = ([], [])"
| "startListeners rt quote c (lc # ls) =
    (case buildProtocol lc of
       None \<Rightarrow> startListeners rt quote c ls
     | Some svc \<Rightarrow>
         let srv = (server_New (li_Port lc) svc)\<lparr>ProxyProtocol := c_ProxyProtocol c\<rparr>;
             (srv, lg) = SetTrustedProxies (rt_parsePrefix rt) quote (c_ProxyTrustedCIDRs c) srv;
             srv = srv\<lparr>RecordDir := c_RecordDir c\<rparr>;
             (rest, lgs) = startListeners rt quote c ls
         in (case rt_listenErr rt (li_Port lc) of
               Some _ \<Rightarrow> (rest, lg @ lgs)
             | None \<Rightarrow> ((srv, svc) # rest, lg @ lgs)))"

definition configuredPolicy :: "runtime \<Rightarrow> Config \<Rightarrow> Persona \<Rightarrow> Accounts \<times> Entry list" where
  "configuredPolicy rt c p =
    (let b = c_BruteForce c
     in if b_Enabled b then
          let n = intOr (b_AfterTries b) 4; after = wrap64 (intOr (b_AfterSeconds b) 45 * secondNs);
              prob = floatOr (b_Probability b) (4 / 10)
          in (SetBruteForce \<lparr>Enabled = True, AfterTries = n, After = after, Probability = prob\<rparr> (accountsOf p None),
              [System (''bruteforce: a source may be let in with the credential it tried after '' @ Itoa n @ '' attempts and '' @
                 rt_durString rt after @ '' (p='' @ rt_fixed2 rt prob @ '')'')])
        else (accountsOf p None, []))"

definition exposedWarning :: "(string \<Rightarrow> string) \<Rightarrow> Config \<Rightarrow> Entry" where
  "exposedWarning quote c = System (''WARNING: portal_bind='' @ quote (c_PortalBind c) @
     '' is not loopback; the dashboard and console proxy are exposed on the network with no authentication. Bind 127.0.0.1 and reach it over the SSH tunnel.'')"

record running =
  rn_config :: Config
  rn_persona :: Persona
  rn_accounts :: Accounts
  rn_base :: FS
  rn_servers :: "(listener \<times> service) list"
  rn_portal :: Portal
  rn_log :: "Entry list"

definition main_run ::
  "runtime \<Rightarrow> portal_env \<Rightarrow> 'e assets \<Rightarrow> ('e \<Rightarrow> string) \<Rightarrow> gotime \<Rightarrow> string \<Rightarrow> string \<Rightarrow> files \<Rightarrow> (fatal + running) \<times> files" where
  "main_run rt pe A showErr now version configPath fs =
    (case config_Load (rt_unmarshalConfig rt) (rt_ioErr rt) configPath fs of
       Inl e \<Rightarrow> (Err (''config'', e @ '' (run `sweetty init` first)''), fs)
     | Inr c \<Rightarrow>
         (case rt_logErr rt of
            Some e \<Rightarrow> (Err (''log'', e), fs)
          | None \<Rightarrow>
              (case LoadOrCreate (rt_marshalPersona rt) (rt_unmarshalPersona rt) (rt_ioErr rt) (rt_now rt) (PersonaPath c configPath) fs (rt_draws rt) of
                 (Inl e, fs) \<Rightarrow> (Err (''persona'', e), fs)
               | (Inr p, fs) \<Rightarrow>
                   let (acc, lg1) = configuredPolicy rt c p
                   in (case fakehost_Load A now p of
                         Inl e \<Rightarrow> (Err (''fakehost'', showErr e), fs)
                       | Inr host \<Rightarrow>
                           let (srvs, lg2) = startListeners rt (pe_quote pe) c (c_Listeners c)
                           in if srvs = [] then (Err ([], ''no listeners started''), fs)
                              else
                                let lg3 = (if portalExposedToNetwork (rt_parseIP rt) c then [exposedWarning (pe_quote pe) c] else []);
                                    (pt, lg4) = portal_New pe c
                                in (Ok \<lparr>rn_config = c, rn_persona = p, rn_accounts = acc, rn_base = host, rn_servers = srvs,
                                        rn_portal = SetVersion version pt, rn_log = lg1 @ lg2 @ lg3 @ lg4\<rparr>, fs)))))"

section \<open>Watching the edge\<close>

text \<open>One poll of the stick table: what it answered and the time, then the state of the loop.\<close>

fun hapPoll :: "(string + Source list) \<times> int \<Rightarrow> bool \<times> Watcher \<Rightarrow> Entry list \<times> bool \<times> Watcher" where
  "hapPoll (Inl qerr, now) (failing, w) =
    (if failing then [] else [System (''hapwatch: HAProxy stick-table unreachable ('' @ qerr @ ''); retrying'')], True, w)"
| "hapPoll (Inr srcs, now) (failing, w) =
    (let (due, w) = Flooding w srcs now
     in ((if failing then [System ''hapwatch: HAProxy stick-table reachable again''] else []) @
         map (\<lambda>s. FloodBlocked (IP s) (ConnRate s)) due, False, w))"

fun hapLoop :: "((string + Source list) \<times> int) list \<Rightarrow> bool \<times> Watcher \<Rightarrow> Entry list list" where
  "hapLoop [] st = []"
| "hapLoop (q # qs) st = (let (es, st) = hapPoll q st in es # hapLoop qs st)"

definition hapwatch :: "(string \<Rightarrow> string) \<Rightarrow> string \<Rightarrow> int \<Rightarrow> int \<Rightarrow> ((string + Source list) \<times> int) list \<Rightarrow> Entry list" where
  "hapwatch quote table thr cool qs =
    System (''hapwatch: watching HAProxy table '' @ quote table @ '' for floods over '' @ Itoa thr @ '' conn/10s'') #
      concat (hapLoop qs (False, NewWatcher thr cool))"


section \<open>A new instance comes up as its identity says\<close>

lemma buildProtocol_name: "buildProtocol lc = Some svc \<Longrightarrow> serviceName svc = li_Protocol lc"
  by (auto simp: buildProtocol_def split: if_splits)

lemma buildProtocol_known:
  "li_Protocol lc \<in> {''ssh'', ''http'', ''https'', ''telnet'', ''ftp''} \<Longrightarrow> \<exists>svc. buildProtocol lc = Some svc"
  by (auto simp: buildProtocol_def)

lemma startListeners_all:
  assumes "\<forall>port. rt_listenErr rt port = None" "c_ProxyTrustedCIDRs c = []"
    and "list_all (\<lambda>lc. \<exists>svc. buildProtocol lc = Some svc) ls"
  shows "map (\<lambda>(srv, svc). (sv_port srv, sv_name srv)) (fst (startListeners rt quote c ls)) = map (\<lambda>lc. (li_Port lc, li_Protocol lc)) ls \<and>
    snd (startListeners rt quote c ls) = []"
  using assms(3)
proof (induction ls)
  case (Cons lc ls)
  then obtain svc where "buildProtocol lc = Some svc" by auto
  then show ?case using Cons assms(1,2) buildProtocol_name [of lc svc]
    by (cases "startListeners rt quote c ls") (simp add: SetTrustedProxies_def server_New_def)
qed simp

lemma PersonaPath_generated: "PersonaPath (config_Generate p) configPath = path_Join (path_Dir configPath) ''persona.json''"
  by (simp add: PersonaPath_def config_Generate_def)

lemma portal_New_plain: "portal_New pe (baseConfig ls) = (\<lparr>pn_cfg = baseConfig ls, pn_geo = NewResolver, pn_consoles = [], pn_version = []\<rparr>, [])"
  by (simp add: portal_New_def baseConfig_def buildConsoles_def)

lemma init_writes:
  assumes "main_init rt profile configPath fs0 = (Ok (p, c), fs)"
  obtains out pout where "p = fst (run_state (GenerateProfile (rt_now rt) profile) (rt_draws rt))" "c = config_Generate p"
    "rt_marshalConfig rt c = Ok out" "rt_marshalPersona rt p = Ok pout"
    "fs = mput (PersonaPath c configPath) pout (mput configPath out fs0)" "mget fs0 configPath = None"
  using assms that
  by (auto simp: main_init_def config_Write_def Save_def Let_def split: sum.splits option.splits prod.splits)



definition demoRuntime :: runtime where
  "demoRuntime = \<lparr>rt_marshalConfig = (\<lambda>_. Ok ''c''), rt_unmarshalConfig = (\<lambda>_ _. Some (config_Generate demoHost)),
     rt_marshalPersona = (\<lambda>_. Ok ''p''), rt_unmarshalPersona = (\<lambda>_. Some demoHost), rt_ioErr = (\<lambda>_ _. None), rt_logErr = None,
     rt_listenErr = (\<lambda>_. None), rt_parsePrefix = (\<lambda>_. Err []), rt_parseIP = (\<lambda>_. None), rt_durString = (\<lambda>_. []),
     rt_fixed2 = (\<lambda>_. []), rt_now = 0, rt_draws = []\<rparr>"

definition demoPortalEnv :: portal_env where
  "demoPortalEnv = \<lparr>pe_parsers = privateParsers, pe_sortCountry = id, pe_sortASN = id, pe_parseURL = demoURL, pe_quote = id,
     pe_redacted = (\<lambda>_. []), pe_csv = (\<lambda>_. Inl [])\<rparr>"


section \<open>The edge watcher\<close>

text \<open>A notice is logged exactly when the edge stops or starts answering, and flood events only when it answers.\<close>

definition isFlood :: "Entry \<Rightarrow> bool" where
  "isFlood e = (e_Event e = ''FLOOD_BLOCKED'')"

lemma hapPoll_notices:
  "length (filter (\<lambda>e. \<not> isFlood e) (fst (hapPoll q (failing, w)))) = (if failing = isOk (fst q) then 1 else 0)"
  "fst (snd (hapPoll q (failing, w))) = (\<not> isOk (fst q))"
proof -
  have f: "filter (\<lambda>e. \<not> isFlood e) (map (\<lambda>s. FloodBlocked (IP s) (ConnRate s)) due) = []" for due
    by (simp add: filter_empty_conv isFlood_def FloodBlocked_def)
  have n: "\<not> isFlood (System m)" for m by (simp add: isFlood_def System_def)
  show "length (filter (\<lambda>e. \<not> isFlood e) (fst (hapPoll q (failing, w)))) = (if failing = isOk (fst q) then 1 else 0)"
    "fst (snd (hapPoll q (failing, w))) = (\<not> isOk (fst q))"
    by (cases q rule: prod.exhaust; cases "fst q"; simp add: f n Let_def split: prod.split)+
qed

text \<open>The number of times a sequence of answers changes between answering and not, from a given start.\<close>

fun changes :: "bool \<Rightarrow> bool list \<Rightarrow> nat" where
  "changes b [] = 0"
| "changes b (c # cs) = (if b = c then 0 else 1) + changes c cs"

lemma hapwatch_notices:
  "length (filter (\<lambda>e. \<not> isFlood e) (hapwatch quote table thr cool qs)) = 1 + changes True (map (\<lambda>q. isOk (fst q)) qs)"
proof -
  have "length (filter (\<lambda>e. \<not> isFlood e) (concat (hapLoop qs (failing, w)))) = changes (\<not> failing) (map (\<lambda>q. isOk (fst q)) qs)" for failing w
  proof (induction qs arbitrary: failing w)
    case (Cons q qs)
    obtain es f' w' where st: "hapPoll q (failing, w) = (es, f', w')" by (metis prod_cases3)
    then show ?case using Cons [of f' w'] hapPoll_notices [of q failing w] by auto
  qed simp
  then show ?thesis by (simp add: hapwatch_def isFlood_def System_def)
qed

end
