(* ===== verification/Spec2Isabelle.thy ===== *)
theory Spec2Isabelle
  imports VfsPool SshService PortalServer Program
begin

text \<open>
  A verification library for sweetty, a honeypot: one Go program that wears the identity of a random Linux host, answers
  on telnet, SSH, FTP, HTTP and TLS ports with a fake shell over a virtual filesystem, executes and fetches nothing
  an attacker sends, logs everything, and shows the log to its operator on a portal bound to loopback.

  \<^bold>\<open>The program and how its parts interact.\<close>  \<^verbatim>\<open>cmd/sweetty\<close> draws an identity once (\<^verbatim>\<open>internal/persona\<close>), writes it with a
  configuration (\<^verbatim>\<open>internal/config\<close>), and later serves it: for every listener a server (\<^verbatim>\<open>internal/server\<close>) admits
  connections, reads the PROXY header of a trusted edge (\<^verbatim>\<open>internal/proxyproto\<close>), opens a session and hands it to the
  handler of its protocol (\<^verbatim>\<open>internal/proto\<close>).  A handler that lets the client in, or that recognises an injected
  command, runs the shell (\<^verbatim>\<open>internal/shell\<close>) over the tree of a fake host (\<^verbatim>\<open>internal/fakehost\<close>, loaded by
  \<^verbatim>\<open>internal/vfs\<close>) and the session's own overlay, whose memory all sessions share one ceiling for.  Sessions, handlers and
  shell log events (\<^verbatim>\<open>internal/event\<close>) and record what the client saw (\<^verbatim>\<open>internal/record\<close>); the portal
  (\<^verbatim>\<open>internal/portal\<close>) reads the log back, locates addresses (\<^verbatim>\<open>internal/geo\<close>) and draws its verdicts.  \<^verbatim>\<open>internal/haproxy\<close>
  watches the edge for floods.

  \<^bold>\<open>Conventions.\<close>  A byte or a character of a Go string is a \<^typ>\<open>char\<close>; a Go map is an association list with distinct keys
  (theory \<open>Prelude\<close>); an \<^verbatim>\<open>int\<close> is an \<^typ>\<open>int\<close> and wraps through \<open>wrap64\<close> where the code can overflow, fixed widths are
  words; an error is the left of a sum, a panic or an absent value \<^const>\<open>None\<close>; mutated state is passed and returned.  A
  conversation (theory \<open>Conversation\<close>) is what a handler sees of a session: the bytes still to be read, the bytes
  written, the events logged and the identity they are logged under.  Clocks, random draws, codecs and digests are
  arguments.  Sleeps only pass time.  Where Go leaves an order open the
  model fixes one: a range over a map goes in the order of insertion, and the assignments of one shell statement, kept in
  a map by the code, are made as written.

  \<^bold>\<open>Theories and sources.\<close>
  Filesystem: \<open>Paths\<close>, \<open>Vfs\<close> (\<^verbatim>\<open>vfs.go\<close>, \<^verbatim>\<open>session.go\<close>: nodes, overlay, every operation of a session), \<open>VfsLoad\<close> (\<^verbatim>\<open>load.go\<close>),
  \<open>VfsPool\<close> (the process-wide ceiling, as atomic operations and as the two interleaved additions of the source).
  Shell: \<open>ShellParse\<close> (\<^verbatim>\<open>parse.go\<close>), \<open>ShellArith\<close> and \<open>ShellRun\<close> (\<^verbatim>\<open>shell.go\<close>), \<open>ShellCmd\<close> (\<^verbatim>\<open>commands.go\<close>), \<open>ShellSys\<close>
  (\<^verbatim>\<open>dynamic.go\<close>), \<open>ShellInteract\<close> (\<^verbatim>\<open>interactive.go\<close>), with \<open>GoFormat\<close> for what they print, \<open>ShellFrame\<close> and \<open>ShellProps\<close> for
  what they guarantee.
  Server: \<open>Admission\<close> and \<open>ServerHandle\<close> (\<^verbatim>\<open>server.go\<close>), \<open>SessionIO\<close> and \<open>Conversation\<close> (\<^verbatim>\<open>session.go\<close>), \<open>ProxyProto\<close>, \<open>Events\<close> (event,
  record and the event builders of a session), \<open>Auth\<close> (login policy and brute-force table), \<open>Util\<close>, \<open>Base64\<close>.
  Services: \<open>Ftp\<close>, \<open>Telnet\<close> and \<open>TelnetService\<close>, \<open>HttpPages\<close>, \<open>Http\<close> and \<open>HttpService\<close> (HTTP with its exploits, and TLS), \<open>Ssh\<close> and
  \<open>SshService\<close>.
  Identity and operation: \<open>Persona\<close>, \<open>FakeHost\<close>, \<open>Config\<close>, \<open>HAProxy\<close>, \<open>Program\<close> (\<^verbatim>\<open>main.go\<close>).
  Portal: \<open>GoCollect\<close>, \<open>PortalAnalyze\<close>, \<open>PortalFeed\<close>, \<open>PortalOverview\<close>, \<open>PortalRollup\<close>, \<open>PortalConsole\<close>, \<open>PortalServer\<close>, and \<open>Geo\<close>.

  \<^bold>\<open>Interfaces.\<close>  Four contracts are locales, each instantiated with the model's own definitions.  \<open>protocol_handler\<close> is what the
  server relies on in a handler; FTP, telnet, HTTP, TLS and the SSH tarpit interpret it, and SSH satisfies it over a
  transport that does what its documentation says.  \<open>line_runner\<close> and its extension \<open>shell_host\<close> are what the interpreter's
  functions rely on in the runner of nested lines, which the interpreter itself provides at every depth.
  \<open>metered_store\<close> is what the overlay pool relies on in a session.  \<open>bounded_steps\<close> and \<open>monotone_steps\<close> give the brute-force
  table its bound and its memory.

  \<^bold>\<open>What is shown.\<close>
  Filesystem: a write is read back through links and over deletions; listings and lookups agree; a removal hides the subtree;
  no interleaving of sessions, or of the two additions of a reservation, passes the ceiling; what is loaded is well formed.
  Shell: parsed lines are well formed and quoting is transparent; arithmetic respects precedence; substitution cannot
  amplify; a session ends when its input does and leaves everything but its own conversation alone; a payload carried
  in by echo is captured byte for byte; the bait is where the breadcrumbs lead and fires.
  Server: admission keeps its two bounds and its counters exact; the PROXY header is recovered exactly and costs an
  untrusted peer nothing; reads are bounded and give back the lines typed; every event of a connection names its source,
  whatever service it reached.
  Services: FTP refuses every login; a telnet or SSH shell has an accepted login on the log before it; telnet's reader and
  SSH's terminal deliver what was typed however it arrives; every HTTP response is framed as its page; the WordPress door
  opens to persistence only; a source is let in by the brute-force policy only after its own attempts.
  Identity: generated personas are coherent and survive restarts; an instance comes up with the services it was
  initialised with.
  Portal: what was logged is what is read; the live feed delivers each event once; the overview accounts for every
  event and agrees with the page of each source; country lookup is exact; the console proxy is no open proxy;
  the captured text it shows holds no terminal control.

  \<^bold>\<open>Recursion and bounds.\<close>  Loops that read are recursive in the bytes that remain.  The one mutual recursion of the program,
  the shell's lines, statements, words and substitutions, is cut off by the code's own depth guard, which is the recursion
  parameter of \<open>runLine\<close>; a shell opened on a pivot host has no host to pivot to from there, so it needs none.  Where a function takes a number of
  rounds (login attempts, header lines, link hops, symbolic-link depth) it is the bound the code has.  The prompt loop of a
  shell is given one round more than its input has bytes, and \<open>shell_session_ends\<close> shows that it stops by itself within them.
  No other fuel is used.

  \<^bold>\<open>What is not modelled.\<close>  The transport of SSH (\<^verbatim>\<open>golang.org/x/crypto/ssh\<close>), the encoders of JSON, the template engine, the
  address parsers and the digests are not part of the repository or of what a statement here is about: they are
  parameters, and a statement that needs their documented behaviour has it as a hypothesis.  Sockets, timers, files and
  goroutines appear as their effects: the bytes that arrive, the deadlines set, the writes that succeed, the order events
  reach the log in.  Not modelled at all: the seccomp filter (a program for the kernel), the flags, console text and signals of
  \<^verbatim>\<open>main\<close>, the reading of HAProxy's socket, the handing of values to \<^verbatim>\<open>net/http\<close> (response writers, timeouts, panic recovery),
  \<^verbatim>\<open>html.go\<close> (one constant of HTML, CSS and JavaScript), the recorder's teeing of a connection, and the harness of the tests.
  The two streams of a cooked SSH terminal, echo and shell output, are kept apart, since how they mix depends on the sizes of
  reads; and what a channel's request goroutine logs beside the shell is merged in any order but before the next channel.
\<close>

end
